theory Spec2Isabelle
  imports Complex_Main "HOL-Library.AList" "HOL-Library.Monad_Syntax"
begin

section \<open>JavaScript numbers and strings at the DOM boundary\<close>

text \<open>
  The drawer stores the scroll offset in the inline style of the body as the text
  \<open>-<offset>px\<close> (template literal in \<open>disableBodyScroll\<close>) and reads it back with
  \<open>parseInt\<close> (in \<open>enableBodyScroll\<close>).  Both conversions are modelled on byte strings.
  A pixel offset is an integer-valued Number far below \<open>10^21\<close>, the range in which
  JavaScript prints a Number as plain decimal digits with a leading minus sign for
  negative values.
\<close>

definition digit_char :: "nat \<Rightarrow> char" where
  "digit_char d = ''0123456789'' ! d"

function nat_to_string :: "nat \<Rightarrow> string" where
  "nat_to_string n =
     (if n < 10 then [digit_char n]
      else nat_to_string (n div 10) @ [digit_char (n mod 10)])"
  by pat_completeness auto

termination
  by (relation "measure id") auto

declare nat_to_string.simps [simp del]

text \<open>\<open>String(n)\<close> for an integer-valued Number, as the template literal applies it.\<close>

definition number_to_string :: "int \<Rightarrow> string" where
  "number_to_string i =
     (if i < 0 then CHR ''-'' # nat_to_string (nat (- i)) else nat_to_string (nat i))"

definition is_space :: "char \<Rightarrow> bool" where
  "is_space c = (c \<in> set [CHR '' '', CHR 0x09, CHR 0x0A, CHR 0x0B, CHR 0x0C, CHR 0x0D])"

text \<open>The value of a digit in a radix up to 16, \<open>None\<close> for any other character.\<close>

definition digit_value :: "char \<Rightarrow> nat option" where
  "digit_value c =
     map_of (zip ''0123456789abcdef'' [0..<16] @ zip ''ABCDEF'' [10..<16]) c"

definition is_digit :: "nat \<Rightarrow> char \<Rightarrow> bool" where
  "is_digit radix c = (case digit_value c of None \<Rightarrow> False | Some v \<Rightarrow> v < radix)"

definition digits_value :: "nat \<Rightarrow> string \<Rightarrow> nat" where
  "digits_value radix ds = foldl (\<lambda>acc c. acc * radix + the (digit_value c)) 0 ds"

text \<open>
  \<open>parseInt(s)\<close> with no radix argument: leading white space is skipped, one sign is
  read, a \<open>0x\<close>/\<open>0X\<close> prefix selects radix 16, and the longest run of digits is
  converted; anything after it is ignored.  \<open>None\<close> is NaN (no digit was found).
\<close>

definition has_hex_prefix :: "string \<Rightarrow> bool" where
  "has_hex_prefix s =
     (case s of c0 # c1 # _ \<Rightarrow> c0 = CHR ''0'' \<and> (c1 = CHR ''x'' \<or> c1 = CHR ''X'') | _ \<Rightarrow> False)"

definition parse_digits :: "nat \<Rightarrow> string \<Rightarrow> nat option" where
  "parse_digits radix s =
     (let ds = takeWhile (is_digit radix) s
      in if ds = [] then None else Some (digits_value radix ds))"

definition parseInt :: "string \<Rightarrow> int option" where
  "parseInt s =
     (let s1 = dropWhile is_space s;
          neg = (s1 \<noteq> [] \<and> hd s1 = CHR ''-'');
          s2 = (if s1 \<noteq> [] \<and> (hd s1 = CHR ''-'' \<or> hd s1 = CHR ''+'') then tl s1 else s1);
          mag = (if has_hex_prefix s2 then parse_digits 16 (drop 2 s2) else parse_digits 10 s2)
      in case mag of
           None \<Rightarrow> None
         | Some m \<Rightarrow> Some (if neg then - int m else int m))"

section \<open>DOM elements\<close>

text \<open>
  An element carries its class list, its attributes and its inline style.  The style
  getter answers the empty string for a property that is not set, and assigning the
  empty string removes the property.
\<close>

record element =
  classList :: "string list"
  attributes :: "(string \<times> string) list"
  style :: "(string \<times> string) list"
  offsetWidth :: int

definition classList_add :: "string \<Rightarrow> element \<Rightarrow> element" where
  "classList_add c el =
     (if c \<in> set (classList el) then el else el\<lparr>classList := classList el @ [c]\<rparr>)"

definition classList_remove :: "string \<Rightarrow> element \<Rightarrow> element" where
  "classList_remove c el = el\<lparr>classList := removeAll c (classList el)\<rparr>"

definition setAttribute :: "string \<Rightarrow> string \<Rightarrow> element \<Rightarrow> element" where
  "setAttribute k v el = el\<lparr>attributes := AList.update k v (attributes el)\<rparr>"

definition getAttribute :: "string \<Rightarrow> element \<Rightarrow> string option" where
  "getAttribute k el = map_of (attributes el) k"

definition style_set :: "string \<Rightarrow> string \<Rightarrow> element \<Rightarrow> element" where
  "style_set k v el =
     (if v = [] then el\<lparr>style := AList.delete k (style el)\<rparr>
      else el\<lparr>style := AList.update k v (style el)\<rparr>)"

definition style_get :: "string \<Rightarrow> element \<Rightarrow> string" where
  "style_get k el = (case map_of (style el) k of None \<Rightarrow> [] | Some v \<Rightarrow> v)"

text \<open>
  A JavaScript Number as the swipe handler computes it: the quotient of two integers is
  a rational, an infinity (division of a non-zero value by zero) or NaN (zero by zero,
  or an operand that is \<open>undefined\<close>).  Pixel coordinates and millisecond time stamps
  are integers of magnitude far below \<open>2^50\<close>, where the comparison of the rounded
  quotient with the literal \<open>0.3\<close> agrees with the comparison of the exact quotient
  with \<open>3/10\<close>.
\<close>

datatype jsnum = Finite rat | PosInfinity | NegInfinity | NaN

definition js_div :: "int \<Rightarrow> int option \<Rightarrow> jsnum" where
  "js_div a b =
     (case b of
        None \<Rightarrow> NaN
      | Some d \<Rightarrow>
          if d = 0 then (if a > 0 then PosInfinity else if a < 0 then NegInfinity else NaN)
          else Finite (of_int a / of_int d))"

fun js_gt :: "jsnum \<Rightarrow> rat \<Rightarrow> bool" where
  "js_gt (Finite q) r = (q > r)"
| "js_gt PosInfinity r = True"
| "js_gt NegInfinity r = False"
| "js_gt NaN r = False"

section \<open>The navigation drawer\<close>

subsection \<open>State\<close>

text \<open>The module-level object \<open>MobileMenu\<close>; \<open>touchStartTime\<close> is undefined until the
  first \<open>touchstart\<close> on the panel.\<close>

record MobileMenu =
  isOpen :: bool
  isAnimating :: bool
  touchStartX :: int
  touchStartY :: int
  swipeThreshold :: int
  menuWidth :: int
  lastScrollPosition :: int
  touchStartTime :: "int option"

definition MobileMenu_initial :: MobileMenu where
  "MobileMenu_initial =
     \<lparr>isOpen = False, isAnimating = False, touchStartX = 0, touchStartY = 0,
      swipeThreshold = 50, menuWidth = 0, lastScrollPosition = 0, touchStartTime = None\<rparr>"

text \<open>The element ids the drawer looks up with \<open>getElementById\<close>.\<close>

datatype node = MobileMenuToggle | MobileCloseBtn | MobileMenuOverlay | MobileOverlay | MobileNav

datatype focus = FocusBody | FocusNode node | FocusLink nat

text \<open>The two completion callbacks passed to \<open>setTimeout\<close>, with their delay in
  milliseconds.\<close>

datatype timer_callback = OpenDone | CloseDone

datatype timer = Timer timer_callback nat

text \<open>
  The page as the drawer sees it: the \<open>MobileMenu\<close> object, the elements found by id
  (\<open>None\<close> is the \<open>null\<close> of \<open>getElementById\<close>), the body, the number of
  \<open>.mobile-nav-link\<close> elements, the window's scroll offset and width, the pending
  animation timers in the order they were set, the hrefs of the pending 400 ms callbacks
  of \<open>handleAnchorLinkClick\<close> in the order they were set, the focused element, how
  many times each group of listeners has been registered, and the number of
  \<open>console.warn\<close> calls.
\<close>

record page =
  menu :: MobileMenu
  dom :: "node \<Rightarrow> element option"
  body :: element
  navLinks :: nat
  scrollY :: int
  innerWidth :: int
  timers :: "timer list"
  anchorTimers :: "string list"
  activeElement :: focus
  menuListeners :: nat
  swipeListeners :: nat
  keyboardListeners :: nat
  resizeListener :: bool
  outsideClickListener :: bool
  warnings :: nat

definition initial_page :: "(node \<Rightarrow> element option) \<Rightarrow> element \<Rightarrow> nat \<Rightarrow> int \<Rightarrow> int \<Rightarrow> page" where
  "initial_page d b links y width =
     \<lparr>menu = MobileMenu_initial, dom = d, body = b, navLinks = links, scrollY = y,
      innerWidth = width, timers = [], anchorTimers = [], activeElement = FocusBody,
      menuListeners = 0,
      swipeListeners = 0, keyboardListeners = 0, resizeListener = False,
      outsideClickListener = False, warnings = 0\<rparr>"

text \<open>\<open>if (x) x.f()\<close> on an element looked up by id: nothing happens when it is null.\<close>

definition update_element :: "node \<Rightarrow> (element \<Rightarrow> element) \<Rightarrow> page \<Rightarrow> page" where
  "update_element n f p =
     (case dom p n of None \<Rightarrow> p | Some el \<Rightarrow> p\<lparr>dom := (dom p)(n \<mapsto> f el)\<rparr>)"

text \<open>
  \<open>getElementById('mobileMenuOverlay') || getElementById('mobileOverlay')\<close>, and the
  overlay created and appended to the body when both are missing.
\<close>

definition overlay_node :: "page \<Rightarrow> node option" where
  "overlay_node p =
     (if dom p MobileMenuOverlay \<noteq> None then Some MobileMenuOverlay
      else if dom p MobileOverlay \<noteq> None then Some MobileOverlay
      else None)"

definition created_overlay :: element where
  "created_overlay =
     \<lparr>classList = [''mobile-menu-overlay''], attributes = [(''aria-hidden'', ''true'')],
      style = [], offsetWidth = 0\<rparr>"

definition ensureOverlay :: "page \<Rightarrow> node \<times> page" where
  "ensureOverlay p =
     (case overlay_node p of
        Some n \<Rightarrow> (n, p)
      | None \<Rightarrow> (MobileMenuOverlay, p\<lparr>dom := (dom p)(MobileMenuOverlay \<mapsto> created_overlay)\<rparr>))"

text \<open>The labels \<open>Zakryt' menyu navigatsii\<close> and \<open>Otkryt' menyu navigatsii\<close>, in UTF-8.\<close>

definition label_close_menu :: string where
  "label_close_menu =
     [CHR 0xD0, CHR 0x97, CHR 0xD0, CHR 0xB0, CHR 0xD0, CHR 0xBA, CHR 0xD1, CHR 0x80, CHR 0xD1,
      CHR 0x8B, CHR 0xD1, CHR 0x82, CHR 0xD1, CHR 0x8C, CHR 0x20, CHR 0xD0, CHR 0xBC, CHR 0xD0,
      CHR 0xB5, CHR 0xD0, CHR 0xBD, CHR 0xD1, CHR 0x8E, CHR 0x20, CHR 0xD0, CHR 0xBD, CHR 0xD0,
      CHR 0xB0, CHR 0xD0, CHR 0xB2, CHR 0xD0, CHR 0xB8, CHR 0xD0, CHR 0xB3, CHR 0xD0, CHR 0xB0,
      CHR 0xD1, CHR 0x86, CHR 0xD0, CHR 0xB8, CHR 0xD0, CHR 0xB8]"

definition label_open_menu :: string where
  "label_open_menu =
     [CHR 0xD0, CHR 0x9E, CHR 0xD1, CHR 0x82, CHR 0xD0, CHR 0xBA, CHR 0xD1, CHR 0x80, CHR 0xD1,
      CHR 0x8B, CHR 0xD1, CHR 0x82, CHR 0xD1, CHR 0x8C, CHR 0x20, CHR 0xD0, CHR 0xBC, CHR 0xD0,
      CHR 0xB5, CHR 0xD0, CHR 0xBD, CHR 0xD1, CHR 0x8E, CHR 0x20, CHR 0xD0, CHR 0xBD, CHR 0xD0,
      CHR 0xB0, CHR 0xD0, CHR 0xB2, CHR 0xD0, CHR 0xB8, CHR 0xD0, CHR 0xB3, CHR 0xD0, CHR 0xB0,
      CHR 0xD1, CHR 0x86, CHR 0xD0, CHR 0xB8, CHR 0xD0, CHR 0xB8]"

subsection \<open>Scroll lock\<close>

text \<open>
  \<open>window.scrollTo(0, y)\<close>: a NaN coordinate counts as 0 and a negative one is clamped
  to the top of the document.  The document is taken to be tall enough for the offsets
  used, so no upper clamp is applied.
\<close>

definition window_scrollTo :: "int option \<Rightarrow> page \<Rightarrow> page" where
  "window_scrollTo y p = p\<lparr>scrollY := (case y of None \<Rightarrow> 0 | Some v \<Rightarrow> max 0 v)\<rparr>"

definition disableBodyScroll :: "page \<Rightarrow> page" where
  "disableBodyScroll p =
     (let scrollY0 = scrollY p;
          b1 = style_set ''position'' ''fixed'' (body p);
          b2 = style_set ''top'' (''-'' @ number_to_string scrollY0 @ ''px'') b1;
          b3 = style_set ''width'' ''100%'' b2;
          b4 = style_set ''overflow'' ''hidden'' b3;
          b5 = style_set ''touchAction'' ''none'' b4;
          b6 = style_set ''webkitOverflowScrolling'' ''none'' b5
      in p\<lparr>body := b6\<rparr>)"

definition enableBodyScroll :: "page \<Rightarrow> page" where
  "enableBodyScroll p =
     (let top = style_get ''top'' (body p);
          scrollY1 = map_option (\<lambda>v. v * (- 1)) (parseInt (if top = [] then ''0'' else top));
          b1 = style_set ''position'' [] (body p);
          b2 = style_set ''top'' [] b1;
          b3 = style_set ''width'' [] b2;
          b4 = style_set ''overflow'' [] b3;
          b5 = style_set ''touchAction'' [] b4;
          b6 = style_set ''webkitOverflowScrolling'' [] b5
      in window_scrollTo scrollY1 (p\<lparr>body := b6\<rparr>))"

subsection \<open>Opening and closing\<close>

text \<open>
  Both functions return at once when the drawer is already in the requested state or
  the animating flag is set.  Otherwise they set the flags,
  make sure the overlay exists, change classes and ARIA attributes on the elements that
  exist, lock or release the scroll, and set the 350 ms completion timer.  The custom
  events \<open>mobilemenu:open\<close> and \<open>mobilemenu:close\<close> have no listener in the repository.
\<close>

definition openMobileMenu :: "page \<Rightarrow> page" where
  "openMobileMenu p =
     (if isOpen (menu p) \<or> isAnimating (menu p) then p
      else
        let p1 = p\<lparr>menu := (menu p)\<lparr>isAnimating := True, isOpen := True\<rparr>\<rparr>;
            (ov, p2) = ensureOverlay p1;
            p3 = p2\<lparr>menu := (menu p2)\<lparr>lastScrollPosition := scrollY p2\<rparr>\<rparr>;
            p4 = update_element MobileMenuToggle (classList_add ''active'') p3;
            p5 = update_element ov (classList_add ''active'') p4;
            p6 = update_element MobileNav (classList_add ''active'') p5;
            p7 = p6\<lparr>body := classList_add ''menu-open'' (body p6)\<rparr>;
            p8 = update_element MobileMenuToggle
                   (setAttribute ''aria-label'' label_close_menu \<circ> setAttribute ''aria-expanded'' ''true'') p7;
            p9 = update_element MobileNav (setAttribute ''aria-hidden'' ''false'') p8;
            p10 = disableBodyScroll p9
        in p10\<lparr>timers := timers p10 @ [Timer OpenDone 350]\<rparr>)"

definition closeMobileMenu :: "page \<Rightarrow> page" where
  "closeMobileMenu p =
     (if \<not> isOpen (menu p) \<or> isAnimating (menu p) then p
      else
        let p1 = p\<lparr>menu := (menu p)\<lparr>isAnimating := True\<rparr>\<rparr>;
            (ov, p2) = ensureOverlay p1;
            p4 = update_element MobileMenuToggle (classList_remove ''active'') p2;
            p5 = update_element ov (classList_remove ''active'') p4;
            p6 = update_element MobileNav (classList_remove ''active'') p5;
            p7 = p6\<lparr>body := classList_remove ''menu-open'' (body p6)\<rparr>;
            p8 = update_element MobileMenuToggle
                   (setAttribute ''aria-label'' label_open_menu \<circ> setAttribute ''aria-expanded'' ''false'') p7;
            p9 = update_element MobileNav (setAttribute ''aria-hidden'' ''true'') p8;
            p10 = enableBodyScroll p9
        in p10\<lparr>timers := timers p10 @ [Timer CloseDone 350]\<rparr>)"

text \<open>The bodies of the two \<open>setTimeout\<close> callbacks.\<close>

fun run_timer :: "timer_callback \<Rightarrow> page \<Rightarrow> page" where
  "run_timer OpenDone p =
     (let p1 = (if dom p MobileCloseBtn \<noteq> None then p\<lparr>activeElement := FocusNode MobileCloseBtn\<rparr> else p)
      in p1\<lparr>menu := (menu p1)\<lparr>isAnimating := False\<rparr>\<rparr>)"
| "run_timer CloseDone p =
     (let p1 = (if dom p MobileMenuToggle \<noteq> None then p\<lparr>activeElement := FocusNode MobileMenuToggle\<rparr> else p)
      in p1\<lparr>menu := (menu p1)\<lparr>isOpen := False, isAnimating := False\<rparr>\<rparr>)"

subsection \<open>Listeners\<close>

text \<open>The click listener of the burger button.\<close>

definition toggle_click :: "page \<Rightarrow> page" where
  "toggle_click p =
     (if isAnimating (menu p) then p
      else if isOpen (menu p) then closeMobileMenu p
      else openMobileMenu p)"

text \<open>The click listener of the overlay, for a click whose target is the overlay.\<close>

definition overlay_click :: "page \<Rightarrow> page" where
  "overlay_click p = (if isOpen (menu p) then closeMobileMenu p else p)"

text \<open>The \<open>keydown\<close> listener of the document, for the key \<open>Escape\<close>.\<close>

definition escape_keydown :: "page \<Rightarrow> page" where
  "escape_keydown p = (if isOpen (menu p) then closeMobileMenu p else p)"

text \<open>\<open>touchstart\<close> on the panel, at client position \<open>(x, y)\<close> and time \<open>now\<close>.\<close>

definition nav_touchstart :: "int \<Rightarrow> int \<Rightarrow> int \<Rightarrow> page \<Rightarrow> page" where
  "nav_touchstart x y now p =
     p\<lparr>menu := (menu p)\<lparr>touchStartX := x, touchStartY := y, touchStartTime := Some now\<rparr>\<rparr>"

text \<open>
  \<open>touchend\<close> on the panel, released at client x \<open>touchEndX\<close> and time \<open>now\<close>.  The
  listener writes to the panel it was registered on; \<open>None\<close> is the TypeError of a
  write through a null reference.
\<close>

definition nav_touchend :: "int \<Rightarrow> int \<Rightarrow> page \<Rightarrow> page option" where
  "nav_touchend touchEndX now p =
     (if \<not> isOpen (menu p) \<or> isAnimating (menu p) then Some p
      else
        let deltaX = touchEndX - touchStartX (menu p);
            deltaTime = map_option (\<lambda>t. now - t) (touchStartTime (menu p));
            velocity = js_div deltaX deltaTime
        in case dom p MobileNav of
             None \<Rightarrow> None
           | Some nav \<Rightarrow>
               let p1 = p\<lparr>dom := (dom p)(MobileNav \<mapsto> style_set ''transform'' [] nav)\<rparr>
               in Some (if deltaX > swipeThreshold (menu p1) \<or> js_gt velocity (3 / 10)
                        then closeMobileMenu p1 else p1))"

text \<open>\<open>touchstart\<close> and \<open>touchend\<close> on the overlay.\<close>

definition overlay_touchstart :: "int \<Rightarrow> int \<Rightarrow> page \<Rightarrow> page" where
  "overlay_touchstart x y p = p\<lparr>menu := (menu p)\<lparr>touchStartX := x, touchStartY := y\<rparr>\<rparr>"

definition overlay_touchend :: "int \<Rightarrow> page \<Rightarrow> page" where
  "overlay_touchend touchEndX p =
     (let deltaX = touchEndX - touchStartX (menu p)
      in if deltaX > swipeThreshold (menu p) then closeMobileMenu p else p)"

text \<open>
  The focus trap: the \<open>keydown\<close> listener of \<open>setupKeyboardNavigation\<close> for the key
  \<open>Tab\<close>.  \<open>firstElement\<close> is the first link (undefined when there is none),
  \<open>lastElement\<close> is the close button (null when it is missing); \<open>focus()\<close> on either
  is called without a check.
\<close>

definition focus_trap_keydown :: "bool \<Rightarrow> page \<Rightarrow> page option" where
  "focus_trap_keydown shiftKey p =
     (if \<not> isOpen (menu p) then Some p
      else if shiftKey then
        (if navLinks p > 0 \<and> activeElement p = FocusLink 0 then
           (case dom p MobileCloseBtn of
              None \<Rightarrow> None
            | Some _ \<Rightarrow> Some (p\<lparr>activeElement := FocusNode MobileCloseBtn\<rparr>))
         else Some p)
      else
        (if dom p MobileCloseBtn \<noteq> None \<and> activeElement p = FocusNode MobileCloseBtn then
           (if navLinks p = 0 then None else Some (p\<lparr>activeElement := FocusLink 0\<rparr>))
         else Some p))"

text \<open>
  \<open>handleAnchorLinkClick(link, href)\<close>: the drawer is asked to close and a callback
  is set to run 400 ms later.
\<close>

definition handleAnchorLinkClick :: "string \<Rightarrow> page \<Rightarrow> page" where
  "handleAnchorLinkClick href p =
     (let p1 = closeMobileMenu p in p1\<lparr>anchorTimers := anchorTimers p1 @ [href]\<rparr>)"

text \<open>
  The click listener of a link of the panel; \<open>href\<close> is the link's attribute,
  \<open>None\<close> when it has none.  \<open>href && href.startsWith('#')\<close> holds for a
  non-empty string whose first character is \<open>#\<close>.
\<close>

definition link_click :: "string option \<Rightarrow> page \<Rightarrow> page" where
  "link_click href p =
     (case href of
        None \<Rightarrow> closeMobileMenu p
      | Some h \<Rightarrow>
          if h \<noteq> [] \<and> hd h = CHR ''#'' then handleAnchorLinkClick h p else closeMobileMenu p)"

text \<open>
  What \<open>document.querySelector(href)\<close> comes to when the callback runs: a SyntaxError
  for a \<open>href\<close> that is not a valid selector, \<open>null\<close>, or an element.  For an
  element the callback reads the top of its bounding rectangle and the \<open>offsetHeight\<close>
  of the \<open>.header\<close> element (\<open>None\<close> when the page has no header).
\<close>

datatype query = InvalidSelector | NoElement | Element int "int option"

text \<open>
  The callback of \<open>handleAnchorLinkClick\<close>.  The call of \<open>querySelector\<close> is not
  guarded: the \<open>href\<close> \<open>#\<close> is not a valid selector, and for it, as for any
  other invalid selector, the callback raises (\<open>None\<close>).  For an element that was
  found the window is scrolled to its position less the height of the header; the entry
  pushed on the history is not part of the page recorded here.
\<close>

definition anchor_callback :: "string \<Rightarrow> query \<Rightarrow> page \<Rightarrow> page option" where
  "anchor_callback href q p =
     (if href = ''#'' then None
      else case q of
             InvalidSelector \<Rightarrow> None
           | NoElement \<Rightarrow> Some p
           | Element rectTop header \<Rightarrow>
               let headerHeight = (case header of None \<Rightarrow> 80 | Some h \<Rightarrow> h);
                   offset = (if innerWidth p < 768 then headerHeight - 10 else headerHeight);
                   targetPosition = rectTop + scrollY p - offset
               in Some (window_scrollTo (Some targetPosition) p))"

definition handleMenuResize :: "page \<Rightarrow> page" where
  "handleMenuResize p =
     (let p1 = (case dom p MobileNav of
                  None \<Rightarrow> p
                | Some nav \<Rightarrow> p\<lparr>menu := (menu p)\<lparr>menuWidth := offsetWidth nav\<rparr>\<rparr>)
      in if innerWidth p1 > 768 \<and> isOpen (menu p1) then closeMobileMenu p1 else p1)"

text \<open>\<open>handleOutsideClick\<close>; the two flags say whether the panel, respectively the
  burger button, contains the click target.\<close>

definition handleOutsideClick :: "bool \<Rightarrow> bool \<Rightarrow> page \<Rightarrow> page" where
  "handleOutsideClick inNav inToggle p =
     (if isOpen (menu p) \<and> dom p MobileNav \<noteq> None \<and> \<not> inNav
         \<and> dom p MobileMenuToggle \<noteq> None \<and> \<not> inToggle
      then closeMobileMenu p else p)"

text \<open>The device classes of \<open>detectDeviceCapabilities\<close>, by window width.\<close>

definition isMobile :: "int \<Rightarrow> bool" where
  "isMobile viewportWidth = (viewportWidth \<le> 768)"

definition isTablet :: "int \<Rightarrow> bool" where
  "isTablet viewportWidth = (viewportWidth > 768 \<and> viewportWidth \<le> 1024)"

definition isDesktop :: "int \<Rightarrow> bool" where
  "isDesktop viewportWidth = (viewportWidth > 1024)"

text \<open>The public object \<open>window.mobileMenu\<close>.\<close>

definition api_toggle :: "page \<Rightarrow> page" where
  "api_toggle p = (if isOpen (menu p) then closeMobileMenu p else openMobileMenu p)"

definition api_isOpen :: "page \<Rightarrow> bool" where
  "api_isOpen p = isOpen (menu p)"

definition api_isAnimating :: "page \<Rightarrow> bool" where
  "api_isAnimating p = isAnimating (menu p)"

subsection \<open>Initialisation\<close>

text \<open>
  The three setup functions register listeners.  \<open>addEventListener\<close> and
  \<open>offsetWidth\<close> on a null reference raise a TypeError, which is the value \<open>None\<close>.
  A group of listeners is counted once per registration, since \<open>initMobileMenu\<close> is
  scheduled from two places of the script and anonymous listeners are not merged;
  the named handlers \<open>handleMenuResize\<close> and \<open>handleOutsideClick\<close> are registered
  at most once.  \<open>syncLanguageSwitchers\<close> returns when a switch is missing and
  \<open>animateMenuItems\<close> iterates over the links; neither writes to what the page records.
\<close>

definition setupMenuEventListeners :: "page \<Rightarrow> page option" where
  "setupMenuEventListeners p0 =
     (let (ov, p) = ensureOverlay p0 in
      if dom p MobileMenuToggle = None \<or> dom p MobileNav = None
      then Some (p\<lparr>warnings := warnings p + 1\<rparr>)
      else do {
        _ \<leftarrow> dom p MobileMenuToggle;
        _ \<leftarrow> dom p MobileNav;
        Some (p\<lparr>menuListeners := menuListeners p + 1\<rparr>)
      })"

definition setupSwipeGestures :: "page \<Rightarrow> page option" where
  "setupSwipeGestures p0 =
     (let (ov, p) = ensureOverlay p0 in
      if dom p MobileNav = None then Some p
      else do {
        _ \<leftarrow> dom p MobileNav;
        _ \<leftarrow> dom p ov;
        Some (p\<lparr>swipeListeners := swipeListeners p + 1\<rparr>)
      })"

definition setupKeyboardNavigation :: "page \<Rightarrow> page option" where
  "setupKeyboardNavigation p =
     do {
       _ \<leftarrow> dom p MobileMenuToggle;
       Some (p\<lparr>keyboardListeners := keyboardListeners p + 1\<rparr>)
     }"

definition initMobileMenu :: "page \<Rightarrow> page option" where
  "initMobileMenu p0 =
     (let (ov, p) = ensureOverlay p0 in
      if dom p MobileMenuToggle = None \<or> dom p MobileNav = None
      then Some (p\<lparr>warnings := warnings p + 1\<rparr>)
      else do {
        nav \<leftarrow> dom p MobileNav;
        let p1 = p\<lparr>menu := (menu p)\<lparr>menuWidth :=
                       (if offsetWidth nav = 0 then 300 else offsetWidth nav)\<rparr>\<rparr>;
        p2 \<leftarrow> setupMenuEventListeners p1;
        p3 \<leftarrow> setupSwipeGestures p2;
        p4 \<leftarrow> setupKeyboardNavigation p3;
        Some (p4\<lparr>resizeListener := True,
                 outsideClickListener := (outsideClickListener p4 \<or> innerWidth p4 > 768)\<rparr>)
      })"

subsection \<open>Events\<close>

text \<open>
  What reaches the drawer: the 100 ms timer that runs \<open>initMobileMenu\<close>, the
  user's triggers, the firing of the oldest pending
  completion timer, a resize to a new window width (with the panel's new width), the
  debounced second call of the resize handler, the public API, a scroll of the
  document, the Tab key, a click on a link with a given \<open>href\<close>, and the firing of
  the oldest pending callback of \<open>handleAnchorLinkClick\<close>, with what its query
  comes to.  \<open>LinkClick\<close> is a click on a link whose \<open>href\<close> is missing or does
  not begin with \<open>#\<close>.  The drag feedback of \<open>touchmove\<close>, the 100 ms focus
  timers and the accessibility observer write only to \<open>style.transform\<close>,
  \<open>style.opacity\<close>, the focus and ARIA attributes, never to the flags or the timers,
  and are left out.
\<close>

datatype event =
    InitTimerFires
  | ToggleClick
  | OverlayClick
  | CloseButtonClick
  | LinkClick
  | EscapeKey
  | OutsideClick
  | TouchStart int int int
  | SwipeRelease int int
  | OverlayTouchStart int int
  | OverlaySwipeRelease int
  | TimerFires
  | Resize int int
  | ResizeDebounced
  | ApiOpen
  | ApiClose
  | ApiToggle
  | Scroll int
  | TabKey bool
  | LinkClickHref string
  | AnchorTimerFires query

text \<open>A listener registered \<open>n\<close> times runs \<open>n\<close> times, one run after the other.\<close>

fun run_listeners :: "nat \<Rightarrow> (page \<Rightarrow> page option) \<Rightarrow> page \<Rightarrow> page option" where
  "run_listeners 0 h p = Some p"
| "run_listeners (Suc n) h p = (case h p of None \<Rightarrow> None | Some p' \<Rightarrow> run_listeners n h p')"

text \<open>
  The dispatch of one event.  An event on an element that does not exist cannot occur
  and leaves the page as it is.  The burger's listener stops the propagation of its
  click; a click on the overlay bubbles to the document, where \<open>handleOutsideClick\<close>
  runs when it was registered; the close button and the links lie inside the panel.
  The completion timers (350 ms) and the callbacks of \<open>handleAnchorLinkClick\<close>
  (400 ms) are kept apart, each kind in the order it was set, since a completion timer
  set after such a callback can fire before it.  The listener that \<open>main.js\<close>
  registers on the links whose \<open>href\<close> begins with \<open>#\<close> belongs to the smooth
  scrolling of the page, not to the drawer; where it calls
  \<open>window.mobileMenu.close()\<close> it is the event \<open>ApiClose\<close>.
\<close>

fun dispatch :: "event \<Rightarrow> page \<Rightarrow> page option" where
  "dispatch InitTimerFires p = initMobileMenu p"
| "dispatch ToggleClick p =
     (if dom p MobileMenuToggle = None then Some p
      else run_listeners (menuListeners p) (Some \<circ> toggle_click) p)"
| "dispatch OverlayClick p =
     (if overlay_node p = None then Some p
      else case run_listeners (menuListeners p) (Some \<circ> overlay_click) p of
             None \<Rightarrow> None
           | Some p1 \<Rightarrow>
               Some (if outsideClickListener p1 then handleOutsideClick False False p1 else p1))"
| "dispatch CloseButtonClick p =
     (if dom p MobileCloseBtn = None then Some p
      else run_listeners (menuListeners p) (Some \<circ> closeMobileMenu) p)"
| "dispatch LinkClick p =
     (if navLinks p = 0 then Some p
      else run_listeners (menuListeners p) (Some \<circ> closeMobileMenu) p)"
| "dispatch EscapeKey p = run_listeners (menuListeners p) (Some \<circ> escape_keydown) p"
| "dispatch OutsideClick p =
     Some (if outsideClickListener p then handleOutsideClick False False p else p)"
| "dispatch (TouchStart x y now) p =
     (if dom p MobileNav = None then Some p
      else run_listeners (swipeListeners p) (Some \<circ> nav_touchstart x y now) p)"
| "dispatch (SwipeRelease touchEndX now) p =
     (if dom p MobileNav = None then Some p
      else run_listeners (swipeListeners p) (nav_touchend touchEndX now) p)"
| "dispatch (OverlayTouchStart x y) p =
     (if overlay_node p = None then Some p
      else run_listeners (swipeListeners p) (Some \<circ> overlay_touchstart x y) p)"
| "dispatch (OverlaySwipeRelease touchEndX) p =
     (if overlay_node p = None then Some p
      else run_listeners (swipeListeners p) (Some \<circ> overlay_touchend touchEndX) p)"
| "dispatch TimerFires p =
     (case timers p of
        [] \<Rightarrow> Some p
      | Timer cb _ # ts \<Rightarrow> Some (run_timer cb (p\<lparr>timers := ts\<rparr>)))"
| "dispatch (Resize width navWidth) p =
     (let p1 = update_element MobileNav (\<lambda>el. el\<lparr>offsetWidth := navWidth\<rparr>) (p\<lparr>innerWidth := width\<rparr>)
      in Some (if resizeListener p1 then handleMenuResize p1 else p1))"
| "dispatch ResizeDebounced p = Some (handleMenuResize p)"
| "dispatch ApiOpen p = Some (openMobileMenu p)"
| "dispatch ApiClose p = Some (closeMobileMenu p)"
| "dispatch ApiToggle p = Some (api_toggle p)"
| "dispatch (Scroll y) p = Some (p\<lparr>scrollY := y\<rparr>)"
| "dispatch (TabKey shiftKey) p = run_listeners (keyboardListeners p) (focus_trap_keydown shiftKey) p"
| "dispatch (LinkClickHref href) p =
     (if navLinks p = 0 then Some p
      else run_listeners (menuListeners p) (Some \<circ> link_click (Some href)) p)"
| "dispatch (AnchorTimerFires q) p =
     (case anchorTimers p of
        [] \<Rightarrow> Some p
      | href # hs \<Rightarrow> anchor_callback href q (p\<lparr>anchorTimers := hs\<rparr>))"

fun run :: "event list \<Rightarrow> page \<Rightarrow> page option" where
  "run [] p = Some p"
| "run (e # es) p = (case dispatch e p of None \<Rightarrow> None | Some p' \<Rightarrow> run es p')"

text \<open>
  The four phases of the drawer, read off the two flags and, while the animating flag
  is set, off the completion timer that is pending.
\<close>

datatype phase = Closed | Opening | Open | Closing

definition phase_of :: "page \<Rightarrow> phase" where
  "phase_of p =
     (if isAnimating (menu p) then
        (case timers p of Timer CloseDone _ # _ \<Rightarrow> Closing | _ \<Rightarrow> Opening)
      else if isOpen (menu p) then Open else Closed)"

subsection \<open>Invariants of the reachable pages\<close>

text \<open>
  The flags and the pending timers agree: the animating flag is set exactly while one
  completion timer of 350 ms is pending, and then the open flag is set too.
\<close>

definition flags_consistent :: "page \<Rightarrow> bool" where
  "flags_consistent p =
     (if isAnimating (menu p)
      then isOpen (menu p) \<and> (timers p = [Timer OpenDone 350] \<or> timers p = [Timer CloseDone 350])
      else timers p = [])"

text \<open>Listeners were only ever registered on a page that has the burger button, the
  panel and an overlay.\<close>

definition listeners_bound :: "page \<Rightarrow> bool" where
  "listeners_bound p =
     (if menuListeners p > 0 \<or> swipeListeners p > 0 \<or> keyboardListeners p > 0
      then dom p MobileMenuToggle \<noteq> None \<and> dom p MobileNav \<noteq> None \<and> overlay_node p \<noteq> None
      else True)"

definition drawer_inv :: "page \<Rightarrow> bool" where
  "drawer_inv p = (flags_consistent p \<and> listeners_bound p)"

text \<open>The Tab key, which the focus trap handles, set apart from the other events.\<close>

fun is_tab :: "event \<Rightarrow> bool" where
  "is_tab (TabKey _) = True"
| "is_tab _ = False"

fun is_anchor_timer :: "event \<Rightarrow> bool" where
  "is_anchor_timer (AnchorTimerFires _) = True"
| "is_anchor_timer _ = False"



text \<open>The page after a run of \<open>initMobileMenu\<close> that found the burger button and the
  panel: \<open>menuWidth\<close> is stored and every group of listeners is registered once more.\<close>

definition init_registered :: "page \<Rightarrow> page" where
  "init_registered q =
     q\<lparr>menu := (menu q)\<lparr>menuWidth :=
            (if offsetWidth (the (dom q MobileNav)) = 0 then 300 else offsetWidth (the (dom q MobileNav)))\<rparr>,
       menuListeners := menuListeners q + 1,
       swipeListeners := swipeListeners q + 1,
       keyboardListeners := keyboardListeners q + 1,
       resizeListener := True,
       outsideClickListener := (outsideClickListener q \<or> innerWidth q > 768)\<rparr>"

text \<open>While the animating flag is set, a listener leaves the flags and the timers alone.\<close>

definition frozen :: "page \<Rightarrow> page \<Rightarrow> bool" where
  "frozen p q =
     (isOpen (menu q) = isOpen (menu p) \<and> isAnimating (menu q) \<and> timers q = timers p)"

text \<open>The triggers that ask the drawer to open or to close and do nothing else: clicks on
  the burger button, the overlay, the close button and a link (one whose \<open>href\<close> is
  missing or does not begin with \<open>#\<close>), the Escape key, a click outside, and the
  release of a swipe on the panel or on the overlay.\<close>

fun is_trigger :: "event \<Rightarrow> bool" where
  "is_trigger ToggleClick = True"
| "is_trigger OverlayClick = True"
| "is_trigger CloseButtonClick = True"
| "is_trigger LinkClick = True"
| "is_trigger EscapeKey = True"
| "is_trigger OutsideClick = True"
| "is_trigger (SwipeRelease _ _) = True"
| "is_trigger (OverlaySwipeRelease _) = True"
| "is_trigger _ = False"

text \<open>The page after a resize, before \<open>handleMenuResize\<close> decides whether to close:
  the new window width, the new width of the panel, and \<open>menuWidth\<close> updated.\<close>

definition resized :: "int \<Rightarrow> int \<Rightarrow> page \<Rightarrow> page" where
  "resized width navWidth p =
     (let p1 = update_element MobileNav (\<lambda>el. el\<lparr>offsetWidth := navWidth\<rparr>) (p\<lparr>innerWidth := width\<rparr>)
      in case dom p1 MobileNav of
           None \<Rightarrow> p1
         | Some nav \<Rightarrow> p1\<lparr>menu := (menu p1)\<lparr>menuWidth := offsetWidth nav\<rparr>\<rparr>)"

section \<open>The fleet client and renderer\<close>

text \<open>
  A value produced by \<open>JSON.parse\<close>.  An object is its list of members in source
  order; a later member with the same key wins.
\<close>

datatype json = JNull | JBool bool | JNum int | JStr string | JArr "json list"
  | JObj "(string \<times> json) list"

text \<open>
  What one \<open>fetch\<close> comes to: the promise rejects (network error), or it resolves
  with a status and a body that parses as JSON (\<open>Some\<close>) or does not (\<open>None\<close>).
\<close>

datatype fetch_outcome = NetworkError | Response nat "json option"

datatype js_error = FetchFailed | ApiError nat | JsonSyntaxError | TypeError

text \<open>\<open>getJson\<close> of \<open>api.js\<close>: \<open>res.ok\<close> is a status from 200 to 299.\<close>

definition getJson :: "fetch_outcome \<Rightarrow> js_error + json" where
  "getJson out =
     (case out of
        NetworkError \<Rightarrow> Inl FetchFailed
      | Response status parsed \<Rightarrow>
          if \<not> (200 \<le> status \<and> status \<le> 299) then Inl (ApiError status)
          else (case parsed of None \<Rightarrow> Inl JsonSyntaxError | Some j \<Rightarrow> Inr j))"

text \<open>
  The \<open>innerHTML\<close> of \<open>#carsGrid\<close>, the element that \<open>init\<close> has found: a
  literal markup string, or the cards rendered by \<open>createCarCard\<close> from a non-empty
  list of cars and the categories (the markup of a card, which begins with
  \<open><div class="car-card">\<close>, is not spelled out).
\<close>

datatype grid = Markup string | Cards "json list" json

text \<open>The texts \<open>Ne udalos' zagruzit' avtomobili\<close>, \<open>Avtomobili ne naydeny\<close> and
  \<open>Zagruzka...\<close>, in UTF-8.\<close>

definition text_load_failed :: string where
  "text_load_failed =
     [CHR 0xD0, CHR 0x9D, CHR 0xD0, CHR 0xB5, CHR 0x20, CHR 0xD1, CHR 0x83, CHR 0xD0, CHR 0xB4,
      CHR 0xD0, CHR 0xB0, CHR 0xD0, CHR 0xBB, CHR 0xD0, CHR 0xBE, CHR 0xD1, CHR 0x81, CHR 0xD1,
      CHR 0x8C, CHR 0x20, CHR 0xD0, CHR 0xB7, CHR 0xD0, CHR 0xB0, CHR 0xD0, CHR 0xB3, CHR 0xD1,
      CHR 0x80, CHR 0xD1, CHR 0x83, CHR 0xD0, CHR 0xB7, CHR 0xD0, CHR 0xB8, CHR 0xD1, CHR 0x82,
      CHR 0xD1, CHR 0x8C, CHR 0x20, CHR 0xD0, CHR 0xB0, CHR 0xD0, CHR 0xB2, CHR 0xD1, CHR 0x82,
      CHR 0xD0, CHR 0xBE, CHR 0xD0, CHR 0xBC, CHR 0xD0, CHR 0xBE, CHR 0xD0, CHR 0xB1, CHR 0xD0,
      CHR 0xB8, CHR 0xD0, CHR 0xBB, CHR 0xD0, CHR 0xB8]"

definition text_no_cars :: string where
  "text_no_cars =
     [CHR 0xD0, CHR 0x90, CHR 0xD0, CHR 0xB2, CHR 0xD1, CHR 0x82, CHR 0xD0, CHR 0xBE, CHR 0xD0,
      CHR 0xBC, CHR 0xD0, CHR 0xBE, CHR 0xD0, CHR 0xB1, CHR 0xD0, CHR 0xB8, CHR 0xD0, CHR 0xBB,
      CHR 0xD0, CHR 0xB8, CHR 0x20, CHR 0xD0, CHR 0xBD, CHR 0xD0, CHR 0xB5, CHR 0x20, CHR 0xD0,
      CHR 0xBD, CHR 0xD0, CHR 0xB0, CHR 0xD0, CHR 0xB9, CHR 0xD0, CHR 0xB4, CHR 0xD0, CHR 0xB5,
      CHR 0xD0, CHR 0xBD, CHR 0xD1, CHR 0x8B]"

definition text_loading :: string where
  "text_loading =
     [CHR 0xD0, CHR 0x97, CHR 0xD0, CHR 0xB0, CHR 0xD0, CHR 0xB3, CHR 0xD1, CHR 0x80, CHR 0xD1,
      CHR 0x83, CHR 0xD0, CHR 0xB7, CHR 0xD0, CHR 0xBA, CHR 0xD0, CHR 0xB0, CHR 0x2E, CHR 0x2E,
      CHR 0x2E]"

text \<open>
  A request of \<open>fetchCars\<close> that has been issued and not yet answered: its number in
  the order of issue, its category (\<open>None\<close> is \<open>'all'\<close>), and whether it went to
  \<open>window.carAPI\<close> or waits for the 400 ms timer of the local branch.  The numbers
  exist in the model only, to tell the requests apart; the code keeps none.
\<close>

datatype request = Request nat "int option" bool

fun request_id :: "request \<Rightarrow> nat" where
  "request_id (Request n _ _) = n"

record FleetManager =
  carsGrid :: grid
  currentCategoryId :: "int option"
  cars :: "json list"
  categories :: json
  isLoading :: bool
  carAPI :: bool
  pending :: "request list"
  issued :: nat
  errors_logged :: nat

text \<open>The constructor, for a page with or without \<open>window.carAPI\<close>.\<close>

definition FleetManager_new :: "bool \<Rightarrow> FleetManager" where
  "FleetManager_new api =
     \<lparr>carsGrid = Markup [], currentCategoryId = None, cars = [], categories = JArr [],
      isLoading = False, carAPI = api, pending = [], issued = 0, errors_logged = 0\<rparr>"

definition createNoCarsMessage :: string where
  "createNoCarsMessage = ''<div class=\"no-cars\">'' @ text_no_cars @ ''</div>''"

text \<open>
  The own members that \<open>JSON.parse\<close> gives a value, \<open>None\<close> being
  \<open>undefined\<close>: the members of an object (the last one with a key wins), the
  elements and the length of an array.  A canonical array index is a decimal numeral
  without leading zero.  The members that a value takes from the built-in prototypes,
  and the characters and the length of a string (a primitive value, read through a
  wrapper object of the runtime), are not among them.
\<close>

definition array_index :: "string \<Rightarrow> nat option" where
  "array_index key =
     (if key \<noteq> [] \<and> list_all (is_digit 10) key \<and> (key = ''0'' \<or> hd key \<noteq> CHR ''0'')
      then Some (digits_value 10 key) else None)"

definition own_member :: "json \<Rightarrow> string \<Rightarrow> json option" where
  "own_member v key =
     (case v of
        JObj members \<Rightarrow> map_of (rev members) key
      | JArr xs \<Rightarrow>
          (if key = ''length'' then Some (JNum (int (length xs)))
           else case array_index key of
                  Some i \<Rightarrow> (if i < length xs then Some (xs ! i) else None)
                | None \<Rightarrow> None)
      | _ \<Rightarrow> None)"

text \<open>
  \<open>createCarCard\<close> reads the members \<open>id\<close>, \<open>category_id\<close>,
  \<open>daily_price\<close>, \<open>images\<close>, \<open>brand\<close>, \<open>model\<close>, \<open>year\<close>,
  \<open>seats\<close>, \<open>transmission\<close>, \<open>fuel_type\<close> and \<open>name\<close>.  No built-in
  prototype defines a member of one of these names, so that the read \<open>v.name\<close> is the
  own member of \<open>v\<close> for an object or an array and \<open>undefined\<close> for a string, a
  number or a boolean; on \<open>null\<close> the read raises a TypeError.

  \<open>a === b\<close> on two values read from two parsed payloads: two primitive values are
  equal when they are the same value, \<open>undefined\<close> equals \<open>undefined\<close>, and an
  object or an array of one payload is never identical to one of another.
\<close>

fun strict_equal :: "json option \<Rightarrow> json option \<Rightarrow> bool" where
  "strict_equal None None = True"
| "strict_equal (Some JNull) (Some JNull) = True"
| "strict_equal (Some (JBool a)) (Some (JBool b)) = (a = b)"
| "strict_equal (Some (JNum a)) (Some (JNum b)) = (a = b)"
| "strict_equal (Some (JStr a)) (Some (JStr b)) = (a = b)"
| "strict_equal _ _ = False"

text \<open>
  \<open>this.categories.find(c => c.id === car.category_id)\<close> on an array of categories:
  the elements are visited in order up to the first match; the callback reads
  \<open>c.id\<close> and \<open>car.category_id\<close> and raises when \<open>c\<close> or \<open>car\<close> is
  \<open>null\<close>.
\<close>

fun categories_find :: "json list \<Rightarrow> json \<Rightarrow> js_error + json option" where
  "categories_find [] car = Inr None"
| "categories_find (c # cs) car =
     (if c = JNull \<or> car = JNull then Inl TypeError
      else if strict_equal (own_member c ''id'') (own_member car ''category_id'') then Inr (Some c)
      else categories_find cs car)"

text \<open>
  The values that cannot be converted to a string or to a number.  The conversion of an
  object calls its \<open>toString\<close> and \<open>valueOf\<close>; a parsed object inherits both, and
  the inherited \<open>toString\<close> answers a string, unless the object has an own member
  named \<open>toString\<close>, which is a parsed value and not a function: then neither
  method yields a primitive value and the conversion raises a TypeError.  The
  conversion of an array joins the conversions of its elements, \<open>null\<close> counting as
  the empty string.
\<close>

fun unprintable :: "json \<Rightarrow> bool" where
  "unprintable (JObj members) = (map_of members ''toString'' \<noteq> None)"
| "unprintable (JArr xs) = list_ex unprintable xs"
| "unprintable _ = False"

definition unprintable_member :: "json \<Rightarrow> string \<Rightarrow> bool" where
  "unprintable_member v key = (case own_member v key of None \<Rightarrow> False | Some x \<Rightarrow> unprintable x)"

text \<open>
  \<open>getCarImage\<close>: \<open>api.js\<close> defines no \<open>getCarImageUrl\<close>, so the call goes on
  to \<open>car.images?.[0]?.startsWith('http')\<close>.  The optional chain stops at an
  \<open>images\<close> or a first element that is \<open>undefined\<close> or \<open>null\<close>; the first
  element of a string is a string; \<open>startsWith\<close> exists on a string and on no other
  parsed value, and the call of a missing method raises a TypeError.  A call that does
  not raise returns a string.
\<close>

definition getCarImage_raises :: "json \<Rightarrow> bool" where
  "getCarImage_raises car =
     (case own_member car ''images'' of
        None \<Rightarrow> False
      | Some (JStr s) \<Rightarrow> False
      | Some images \<Rightarrow>
          (case own_member images ''0'' of
             None \<Rightarrow> False
           | Some JNull \<Rightarrow> False
           | Some (JStr s) \<Rightarrow> False
           | Some _ \<Rightarrow> True))"

text \<open>
  \<open>createCarCard(car)\<close>, as far as it decides whether the call returns a card or
  raises.  \<open>find\<close> is a method of arrays only, so the call raises when the stored
  categories are not an array.  The price is converted to a number, and the name of
  the category, the brand, the model, the year, the seats, the transmission (as a
  member name), the fuel type and the id are converted to strings; the defaults that
  \<open>||\<close> puts in the place of a missing value are numbers and strings.
\<close>

definition createCarCard_raises :: "json \<Rightarrow> json \<Rightarrow> bool" where
  "createCarCard_raises cats car =
     (case cats of
        JArr cs \<Rightarrow>
          (case categories_find cs car of
             Inl e \<Rightarrow> True
           | Inr cat \<Rightarrow>
               car = JNull
               \<or> unprintable_member car ''daily_price''
               \<or> getCarImage_raises car
               \<or> (case cat of None \<Rightarrow> False | Some c \<Rightarrow> unprintable_member c ''name'')
               \<or> list_ex (unprintable_member car)
                    [''brand'', ''model'', ''year'', ''seats'', ''transmission'', ''fuel_type'', ''id''])
      | _ \<Rightarrow> True)"

text \<open>
  \<open>renderCars\<close>: the message for an empty list, or the cards of all cars; when the
  rendering of one card raises, so does \<open>renderCars\<close>, before it has written to the
  grid.
\<close>

definition renderCars :: "FleetManager \<Rightarrow> js_error + FleetManager" where
  "renderCars fm =
     (if cars fm = [] then Inr (fm\<lparr>carsGrid := Markup createNoCarsMessage\<rparr>)
      else if list_ex (createCarCard_raises (categories fm)) (cars fm) then Inl TypeError
      else Inr (fm\<lparr>carsGrid := Cards (cars fm) (categories fm)\<rparr>))"

definition showError :: "string \<Rightarrow> FleetManager \<Rightarrow> FleetManager" where
  "showError msg fm = fm\<lparr>carsGrid := Markup (''<div class=\"error\">'' @ msg @ ''</div>'')\<rparr>"

definition showSkeleton :: "FleetManager \<Rightarrow> FleetManager" where
  "showSkeleton fm =
     fm\<lparr>carsGrid := Markup (concat (replicate 4 (''<div class=\"skeleton\">'' @ text_loading @ ''</div>'')))\<rparr>"

text \<open>The fallback categories \<open>Ekonom\<close>, \<open>Komfort\<close> and \<open>SUV\<close>, names and icons in
  UTF-8.\<close>

definition name_economy :: string where
  "name_economy =
     [CHR 0xD0, CHR 0xAD, CHR 0xD0, CHR 0xBA, CHR 0xD0, CHR 0xBE, CHR 0xD0, CHR 0xBD, CHR 0xD0,
      CHR 0xBE, CHR 0xD0, CHR 0xBC]"

definition name_comfort :: string where
  "name_comfort =
     [CHR 0xD0, CHR 0x9A, CHR 0xD0, CHR 0xBE, CHR 0xD0, CHR 0xBC, CHR 0xD1, CHR 0x84, CHR 0xD0,
      CHR 0xBE, CHR 0xD1, CHR 0x80, CHR 0xD1, CHR 0x82]"

definition getMockCategories :: json where
  "getMockCategories =
     JArr [JObj [(''id'', JNum 1), (''name'', JStr name_economy), (''slug'', JStr ''economy''),
                 (''icon'', JStr [CHR 0xF0, CHR 0x9F, CHR 0x92, CHR 0xB0])],
           JObj [(''id'', JNum 2), (''name'', JStr name_comfort), (''slug'', JStr ''comfort''),
                 (''icon'', JStr [CHR 0xF0, CHR 0x9F, CHR 0x9A, CHR 0x97])],
           JObj [(''id'', JNum 5), (''name'', JStr ''SUV''), (''slug'', JStr ''suv''),
                 (''icon'', JStr [CHR 0xF0, CHR 0x9F, CHR 0x9A, CHR 0x99])]]"

text \<open>
  \<open>loadCategories\<close>, from its call to the end of its \<open>await\<close>: the argument is what the
  fetch of \<open>/api/categories\<close> comes to.  The payload of a successful call is stored as
  it is.
\<close>

definition loadCategories :: "fetch_outcome \<Rightarrow> FleetManager \<Rightarrow> FleetManager" where
  "loadCategories out fm =
     (if carAPI fm then
        (case getJson out of
           Inr j \<Rightarrow> fm\<lparr>categories := j\<rparr>
         | Inl e \<Rightarrow> fm\<lparr>categories := getMockCategories\<rparr>)
      else fm\<lparr>categories := getMockCategories\<rparr>)"

text \<open>
  \<open>fetchCars\<close> runs in two steps.  The call sets the busy flag and issues the request;
  the answer (or the elapsed 400 ms of the local branch, whose database is empty)
  resumes it: the payload is stored when it is an array, the empty list otherwise, and
  rendered.  A rejected request, and likewise a rendering that raises after the list
  was stored, ends in the \<open>catch\<close> block, where the error is logged and shown with
  \<open>showError\<close>; the busy flag is cleared in every case.
\<close>

definition fetchCars_call :: "int option \<Rightarrow> FleetManager \<Rightarrow> FleetManager" where
  "fetchCars_call categoryId fm =
     fm\<lparr>isLoading := True,
        pending := pending fm @ [Request (issued fm) categoryId (carAPI fm)],
        issued := issued fm + 1\<rparr>"

definition fetchCars_resume :: "request \<Rightarrow> fetch_outcome \<Rightarrow> FleetManager \<Rightarrow> FleetManager" where
  "fetchCars_resume r out fm =
     (case r of Request n categoryId api \<Rightarrow>
        (case (if api then getJson out else Inr (JArr [])) of
           Inr j \<Rightarrow>
             (let fm1 = fm\<lparr>cars := (case j of JArr xs \<Rightarrow> xs | _ \<Rightarrow> [])\<rparr>
              in case renderCars fm1 of
                   Inr fm2 \<Rightarrow> fm2\<lparr>isLoading := False\<rparr>
                 | Inl e \<Rightarrow> (showError text_load_failed (fm1\<lparr>errors_logged := errors_logged fm1 + 1\<rparr>))
                              \<lparr>isLoading := False\<rparr>)
         | Inl e \<Rightarrow> (showError text_load_failed (fm\<lparr>errors_logged := errors_logged fm + 1\<rparr>))
                      \<lparr>isLoading := False\<rparr>))"

definition loadAllCars :: "FleetManager \<Rightarrow> FleetManager" where
  "loadAllCars fm = fetchCars_call None (showSkeleton fm)"

text \<open>\<open>onFilterClick\<close>; the highlighting of the clicked button is left out.\<close>

definition onFilterClick :: "int option \<Rightarrow> FleetManager \<Rightarrow> FleetManager" where
  "onFilterClick categoryId fm =
     (if isLoading fm then fm
      else fetchCars_call categoryId (showSkeleton (fm\<lparr>currentCategoryId := categoryId\<rparr>)))"

text \<open>
  The events of the fleet manager: a click on a filter button, a direct call of the
  public method \<open>fetchCars\<close>, and the answer to the request with a given number (an
  answer to a request that is not pending cannot occur and changes nothing).
\<close>

datatype fleet_event = FilterClick "int option" | DirectFetch "int option" | Answer nat fetch_outcome

fun fleet_step :: "fleet_event \<Rightarrow> FleetManager \<Rightarrow> FleetManager" where
  "fleet_step (FilterClick c) fm = onFilterClick c fm"
| "fleet_step (DirectFetch c) fm = fetchCars_call c fm"
| "fleet_step (Answer n out) fm =
     (case find (\<lambda>r. request_id r = n) (pending fm) of
        None \<Rightarrow> fm
      | Some r \<Rightarrow> fetchCars_resume r out (fm\<lparr>pending := remove1 r (pending fm)\<rparr>))"

fun fleet_run :: "fleet_event list \<Rightarrow> FleetManager \<Rightarrow> FleetManager" where
  "fleet_run [] fm = fm"
| "fleet_run (e # es) fm = fleet_run es (fleet_step e fm)"

fun is_direct :: "fleet_event \<Rightarrow> bool" where
  "is_direct (DirectFetch _) = True"
| "is_direct _ = False"

text \<open>The requests are serialized: the busy flag is set exactly while one request, the
  one issued last, is pending.\<close>

definition serialized :: "FleetManager \<Rightarrow> bool" where
  "serialized fm =
     (if isLoading fm
      then issued fm > 0 \<and> map request_id (pending fm) = [issued fm - 1]
      else pending fm = [])"

text \<open>
  What the grid shows after the answer \<open>out\<close> to a request sent to the API, with the
  categories \<open>cats\<close> stored: the error markup for a rejected request, the cards of a
  non-empty array (the error markup when one of the cards cannot be rendered), and the
  message for no cars in every other case.
\<close>

definition render_of :: "fetch_outcome \<Rightarrow> json \<Rightarrow> grid" where
  "render_of out cats =
     (case getJson out of
        Inl e \<Rightarrow> Markup (''<div class=\"error\">'' @ text_load_failed @ ''</div>'')
      | Inr (JArr (x # xs)) \<Rightarrow>
          if list_ex (createCarCard_raises cats) (x # xs)
          then Markup (''<div class=\"error\">'' @ text_load_failed @ ''</div>'')
          else Cards (x # xs) cats
      | Inr _ \<Rightarrow> Markup createNoCarsMessage)"

text \<open>The answers that make \<open>getJson\<close> reject: a network error, a status outside
  200..299, or a body that is not JSON.\<close>

definition fetch_fails :: "fetch_outcome \<Rightarrow> bool" where
  "fetch_fails out =
     (case out of
        NetworkError \<Rightarrow> True
      | Response status parsed \<Rightarrow> status < 200 \<or> 299 < status \<or> parsed = None)"

text \<open>The names of the categories of a list, in order.\<close>

definition category_names :: "json \<Rightarrow> json option list" where
  "category_names cats = (case cats of JArr xs \<Rightarrow> map (\<lambda>c. own_member c ''name'') xs | _ \<Rightarrow> [])"

section \<open>The language switcher\<close>

text \<open>\<open>path.split('.')\<close>: the pieces between the dots; the empty string gives one
  empty piece.\<close>

fun split_on :: "char \<Rightarrow> string \<Rightarrow> string list" where
  "split_on c [] = [[]]"
| "split_on c (x # xs) =
     (if x = c then [] # split_on c xs
      else (case split_on c xs of
              [] \<Rightarrow> [[x]]
            | w # ws \<Rightarrow> (x # w) # ws))"

text \<open>The truthiness of a parsed JSON value.\<close>

fun truthy :: "json \<Rightarrow> bool" where
  "truthy JNull = False"
| "truthy (JBool b) = b"
| "truthy (JNum n) = (n \<noteq> 0)"
| "truthy (JStr s) = (s \<noteq> [])"
| "truthy (JArr _) = True"
| "truthy (JObj _) = True"

text \<open>
  The values that a lookup can reach.  \<open>get\<close> starts at the dictionary, a parsed
  value, but \<open>acc[key]\<close> is the property access of JavaScript: beyond the own members
  of parsed objects and arrays it finds the characters and the length of a string and
  every member that a value inherits from the built-in prototypes (\<open>constructor\<close>,
  \<open>toString\<close>, \<open>__proto__\<close> and so on).  The values of these members are
  functions, prototype objects and numbers that no parsed value stands for: host
  values, of the type \<open>'h\<close>; a string is always a parsed value.  Some inherited
  members are accessors that raise.

  The built-in library is not part of the repository; it is a parameter of the
  lookup.  \<open>rt_member rt v key\<close> is \<open>v[key]\<close> for a value \<open>v\<close> that has no own
  member \<open>key\<close>, and \<open>rt_truthy\<close> tells whether a host value is truthy.
\<close>

datatype 'h jsvalue = Data json | Host 'h

datatype 'h access = Raises | Undefined | Value "'h jsvalue"

record 'h runtime =
  rt_member :: "'h jsvalue \<Rightarrow> string \<Rightarrow> 'h access"
  rt_truthy :: "'h \<Rightarrow> bool"

text \<open>\<open>v[key]\<close>: an own member hides a member of the same name that is inherited.\<close>

definition js_property :: "'h runtime \<Rightarrow> 'h jsvalue \<Rightarrow> string \<Rightarrow> 'h access" where
  "js_property rt v key =
     (case v of
        Data j \<Rightarrow> (case own_member j key of Some x \<Rightarrow> Value (Data x) | None \<Rightarrow> rt_member rt v key)
      | Host h \<Rightarrow> rt_member rt v key)"

definition js_truthy :: "'h runtime \<Rightarrow> 'h jsvalue \<Rightarrow> bool" where
  "js_truthy rt v = (case v of Data j \<Rightarrow> truthy j | Host h \<Rightarrow> rt_truthy rt h)"

text \<open>
  \<open>get(obj, path)\<close>: the reduction over the pieces of the path.  A step answers
  \<open>acc[key]\<close> when \<open>acc\<close> is truthy, and \<open>undefined\<close> otherwise; a read that
  raises ends the whole lookup.
\<close>

definition get_step :: "'h runtime \<Rightarrow> 'h access \<Rightarrow> string \<Rightarrow> 'h access" where
  "get_step rt acc key =
     (case acc of
        Raises \<Rightarrow> Raises
      | Undefined \<Rightarrow> Undefined
      | Value a \<Rightarrow> if js_truthy rt a then js_property rt a key else Undefined)"

definition get :: "'h runtime \<Rightarrow> json \<Rightarrow> string \<Rightarrow> 'h access" where
  "get rt obj path = foldl (get_step rt) (Value (Data obj)) (split_on CHR ''.'' path)"

text \<open>
  An element that the switcher may touch: whether it is a \<open>title\<close> element, its
  \<open>data-i18n\<close> and \<open>data-i18n-placeholder\<close> attributes (\<open>None\<close> when absent),
  its text content and its \<open>placeholder\<close> attribute.  The document is the list of
  these elements in document order, with the \<open>lang\<close> attribute of the root.  The
  flagged elements are taken not to contain one another, and the \<open>title\<close> elements
  to be those of HTML (no flagged \<open>title\<close> inside an SVG drawing).
\<close>

record i18n_element =
  is_title :: bool
  data_i18n :: "string option"
  data_i18n_placeholder :: "string option"
  textContent :: string
  placeholder :: "string option"

record i18n_document =
  elements :: "i18n_element list"
  html_lang :: "string option"

text \<open>The module state of \<open>lang-switcher.js\<close>, with \<open>localStorage['lang']\<close>, the
  language of the button marked active, and the number of logged errors.\<close>

record i18n_state =
  dictionary :: "json option"
  currentLang :: string
  stored_lang :: "string option"
  active_button :: "string option"
  document :: i18n_document
  i18n_errors :: nat

text \<open>
  \<open>forEach\<close> on the list of selected elements: the callback runs on the elements in
  order; when it raises (\<open>None\<close>) the loop ends there, and what the earlier runs have
  written stays written.  The result is the list and whether the loop raised.
\<close>

fun forEach :: "('a \<Rightarrow> 'a option) \<Rightarrow> 'a list \<Rightarrow> 'a list \<times> bool" where
  "forEach f [] = ([], False)"
| "forEach f (x # xs) =
     (case f x of
        None \<Rightarrow> (x # xs, True)
      | Some y \<Rightarrow> (let (ys, raised) = forEach f xs in (y # ys, raised)))"

text \<open>The two callbacks; an element without the attribute is not selected and stays
  as it is.\<close>

definition translate_text :: "'h runtime \<Rightarrow> json \<Rightarrow> i18n_element \<Rightarrow> i18n_element option" where
  "translate_text rt dict el =
     (case data_i18n el of
        None \<Rightarrow> Some el
      | Some key \<Rightarrow>
          (case get rt dict key of
             Raises \<Rightarrow> None
           | Value (Data (JStr val)) \<Rightarrow> Some (el\<lparr>textContent := val\<rparr>)
           | _ \<Rightarrow> Some el))"

definition translate_placeholder :: "'h runtime \<Rightarrow> json \<Rightarrow> i18n_element \<Rightarrow> i18n_element option" where
  "translate_placeholder rt dict el =
     (case data_i18n_placeholder el of
        None \<Rightarrow> Some el
      | Some key \<Rightarrow>
          (case get rt dict key of
             Raises \<Rightarrow> None
           | Value (Data (JStr val)) \<Rightarrow> Some (el\<lparr>placeholder := Some val\<rparr>)
           | _ \<Rightarrow> Some el))"

text \<open>
  The title block: \<open>querySelector('title[data-i18n]')\<close> finds the first
  \<open>title\<close> element that has the attribute, and \<open>document.title = val\<close> replaces
  the text of the first \<open>title\<close> element of the document.
\<close>

definition title_key :: "i18n_element list \<Rightarrow> string option" where
  "title_key els =
     (case find (\<lambda>el. is_title el \<and> data_i18n el \<noteq> None) els of
        None \<Rightarrow> None
      | Some t \<Rightarrow> data_i18n t)"

fun set_title :: "string \<Rightarrow> i18n_element list \<Rightarrow> i18n_element list" where
  "set_title val [] = []"
| "set_title val (el # els) =
     (if is_title el then el\<lparr>textContent := val\<rparr> # els else el # set_title val els)"

definition translate_title :: "'h runtime \<Rightarrow> json \<Rightarrow> i18n_element list \<Rightarrow> i18n_element list option" where
  "translate_title rt dict els =
     (case title_key els of
        None \<Rightarrow> Some els
      | Some key \<Rightarrow>
          (case get rt dict key of
             Raises \<Rightarrow> None
           | Value (Data (JStr val)) \<Rightarrow> Some (set_title val els)
           | _ \<Rightarrow> Some els))"

text \<open>
  \<open>applyTranslations\<close>: nothing happens without a (truthy) dictionary; otherwise the
  first loop rewrites the text of the elements with \<open>data-i18n\<close>, the second loop
  rewrites placeholders, the title block assigns \<open>document.title\<close>, and the
  \<open>lang\<close> attribute of the root is set.  A lookup that raises ends the function at
  that point.  The result is the state and whether the function raised.
\<close>

definition applyTranslations :: "'h runtime \<Rightarrow> i18n_state \<Rightarrow> i18n_state \<times> bool" where
  "applyTranslations rt st =
     (case dictionary st of
        None \<Rightarrow> (st, False)
      | Some dict \<Rightarrow>
          if \<not> truthy dict then (st, False)
          else
            let doc = document st;
                (els1, raised1) = forEach (translate_text rt dict) (elements doc)
            in if raised1 then (st\<lparr>document := doc\<lparr>elements := els1\<rparr>\<rparr>, True)
               else
                 let (els2, raised2) = forEach (translate_placeholder rt dict) els1
                 in if raised2 then (st\<lparr>document := doc\<lparr>elements := els2\<rparr>\<rparr>, True)
                    else
                      (case translate_title rt dict els2 of
                         None \<Rightarrow> (st\<lparr>document := doc\<lparr>elements := els2\<rparr>\<rparr>, True)
                       | Some els3 \<Rightarrow>
                           (st\<lparr>document := doc\<lparr>elements := els3,
                                                  html_lang := Some (currentLang st)\<rparr>\<rparr>, False)))"

text \<open>\<open>loadDictionary\<close>: the fetch of the locale file rejects, or answers with a status
  that is not ok, or with a body that does or does not parse.\<close>

definition loadDictionary :: "fetch_outcome \<Rightarrow> js_error + json" where
  "loadDictionary out =
     (case out of
        NetworkError \<Rightarrow> Inl FetchFailed
      | Response status parsed \<Rightarrow>
          if \<not> (200 \<le> status \<and> status \<le> 299) then Inl (ApiError status)
          else (case parsed of None \<Rightarrow> Inl JsonSyntaxError | Some j \<Rightarrow> Inr j))"

text \<open>
  \<open>setLanguage(lang)\<close>, from its call to the end of its \<open>await\<close>; \<open>out\<close> is what
  the fetch of the locale file comes to.  The \<open>catch\<close> block logs a dictionary that
  cannot be loaded and likewise an \<open>applyTranslations\<close> that raises.
\<close>

definition setLanguage :: "'h runtime \<Rightarrow> string \<Rightarrow> fetch_outcome \<Rightarrow> i18n_state \<Rightarrow> i18n_state" where
  "setLanguage rt lang out st =
     (let st1 = st\<lparr>currentLang := lang, stored_lang := Some lang, active_button := Some lang\<rparr>
      in case loadDictionary out of
           Inr dict \<Rightarrow>
             (let (st2, raised) = applyTranslations rt (st1\<lparr>dictionary := Some dict\<rparr>)
              in if raised then st2\<lparr>i18n_errors := i18n_errors st2 + 1\<rparr> else st2)
         | Inl e \<Rightarrow> st1\<lparr>i18n_errors := i18n_errors st1 + 1\<rparr>)"



section \<open>Concrete pages, answers and dictionaries\<close>

text \<open>The inputs at which the theorems below are instantiated.\<close>

definition example_element :: element where
  "example_element = \<lparr>classList = [], attributes = [], style = [], offsetWidth = 280\<rparr>"

definition example_page :: page where
  "example_page = initial_page (\<lambda>n. Some example_element) example_element 3 120 390"

definition example_opening :: page where
  "example_opening = openMobileMenu example_page"

definition example_open :: page where
  "example_open = run_timer OpenDone (example_opening\<lparr>timers := []\<rparr>)"

definition example_closing :: page where
  "example_closing = closeMobileMenu example_open"

definition example_scrolled :: page where
  "example_scrolled = initial_page (\<lambda>n. Some example_element) example_element 3 1205 390"

definition example_overscrolled :: page where
  "example_overscrolled = initial_page (\<lambda>n. Some example_element) example_element 3 (- 5) 390"

definition example_overscrolled_after :: page where
  "example_overscrolled_after =
     closeMobileMenu
       ((run_timer OpenDone ((openMobileMenu example_overscrolled)\<lparr>timers := []\<rparr>))\<lparr>scrollY := 0\<rparr>)"

definition example_touched :: page where
  "example_touched = (nav_touchstart 100 300 1000 example_open)\<lparr>swipeListeners := 2\<rparr>"

definition example_mobile_open :: page where
  "example_mobile_open = example_open\<lparr>resizeListener := True\<rparr>"

definition example_after_resize :: page where
  "example_after_resize = closeMobileMenu (resized 1280 280 example_mobile_open)"







definition example_economy_car :: json where
  "example_economy_car =
     JObj [(''id'', JNum 11), (''brand'', JStr ''Kia''), (''model'', JStr ''Rio''),
           (''category_id'', JNum 1)]"

definition example_suv_car :: json where
  "example_suv_car =
     JObj [(''id'', JNum 12), (''brand'', JStr ''Kia''), (''model'', JStr ''Sorento''),
           (''category_id'', JNum 5)]"

definition example_fleet_loading :: FleetManager where
  "example_fleet_loading = loadAllCars (FleetManager_new True)"

definition example_answer_all :: fetch_outcome where
  "example_answer_all = Response 200 (Some (JArr [example_economy_car, example_suv_car]))"

definition example_answer_suv :: fetch_outcome where
  "example_answer_suv = Response 200 (Some (JArr [example_suv_car]))"

text \<open>Two overlapping direct calls of \<open>fetchCars\<close>, answered in the reverse order.\<close>

definition example_overlap :: FleetManager where
  "example_overlap =
     fleet_run [DirectFetch None, DirectFetch (Some 5), Answer 1 example_answer_suv,
                Answer 0 example_answer_all] (FleetManager_new True)"

definition example_after_failure :: FleetManager where
  "example_after_failure =
     fleet_run [Answer 0 example_answer_all, FilterClick (Some 5), Answer 1 (Response 500 None)]
       example_fleet_loading"

definition example_dictionary :: json where
  "example_dictionary =
     JObj [(''nav'', JObj [(''about'', JStr ''About us'')]), (''title'', JStr ''Car rental'')]"


text \<open>
  An excerpt of the built-in library, in which the host values are named by strings:
  every parsed object inherits the member \<open>constructor\<close>, the function \<open>Object\<close>;
  the \<open>name\<close> of that function is the string \<open>Object\<close>; its member \<open>caller\<close>
  is an accessor that raises a TypeError.
\<close>

definition example_runtime :: "string runtime" where
  "example_runtime =
     \<lparr>rt_member = (\<lambda>v key.
        case v of
          Data (JObj members) \<Rightarrow> if key = ''constructor'' then Value (Host ''Object'') else Undefined
        | Host h \<Rightarrow>
            if h = ''Object'' \<and> key = ''name'' then Value (Data (JStr ''Object''))
            else if h = ''Object'' \<and> key = ''caller'' then Raises
            else Undefined
        | _ \<Rightarrow> Undefined),
      rt_truthy = (\<lambda>h. True)\<rparr>"

text \<open>A dictionary with an entry that is the empty string, and a page with one element
  whose key names an inherited member.\<close>

definition example_blank_dictionary :: json where
  "example_blank_dictionary =
     JObj [(''nav'', JObj [(''home'', JStr []), (''about'', JStr ''About us'')])]"

definition example_i18n_page :: i18n_state where
  "example_i18n_page =
     \<lparr>dictionary = None, currentLang = ''ru'', stored_lang = None, active_button = None,
      document =
        \<lparr>elements =
           [\<lparr>is_title = False, data_i18n = Some ''nav.home'', data_i18n_placeholder = None,
             textContent = ''Glavnaya'', placeholder = None\<rparr>,
            \<lparr>is_title = False, data_i18n = Some ''constructor.name'', data_i18n_placeholder = None,
             textContent = ''AvtoRend'', placeholder = None\<rparr>],
         html_lang = Some ''ru''\<rparr>,
      i18n_errors = 0\<rparr>"

text \<open>A page whose second element has a key that ends in an accessor that raises.\<close>

definition example_i18n_raising :: i18n_state where
  "example_i18n_raising =
     \<lparr>dictionary = None, currentLang = ''ru'', stored_lang = None, active_button = None,
      document =
        \<lparr>elements =
           [\<lparr>is_title = False, data_i18n = Some ''nav.about'', data_i18n_placeholder = None,
             textContent = ''O nas'', placeholder = None\<rparr>,
            \<lparr>is_title = False, data_i18n = Some ''constructor.caller'', data_i18n_placeholder = None,
             textContent = ''AvtoRend'', placeholder = None\<rparr>,
            \<lparr>is_title = False, data_i18n = Some ''nav.about'', data_i18n_placeholder = None,
             textContent = ''O nas'', placeholder = None\<rparr>],
         html_lang = Some ''ru''\<rparr>,
      i18n_errors = 0\<rparr>"

section \<open>Proofs: numbers and strings\<close>

lemma digit_value_digit_char: "d < 10 \<Longrightarrow> digit_value (digit_char d) = Some d"
proof -
  assume "d < 10"
  then have "d \<in> {0,1,2,3,4,5,6,7,8,9}" by auto
  then show ?thesis
    by (auto simp: digit_value_def digit_char_def upt_rec)
qed

lemma is_digit_digit_char: "d < 10 \<Longrightarrow> is_digit 10 (digit_char d)"
  by (simp add: is_digit_def digit_value_digit_char)

lemma nat_to_string_digits: "\<forall>c \<in> set (nat_to_string n). is_digit 10 c"
proof (induction n rule: nat_to_string.induct)
  case (1 n)
  show ?case
  proof (cases "n < 10")
    case True
    then show ?thesis by (subst nat_to_string.simps) (simp add: is_digit_digit_char)
  next
    case False
    with 1 show ?thesis
      by (subst nat_to_string.simps) (simp add: is_digit_digit_char)
  qed
qed

lemma digits_value_snoc: "digits_value r (ds @ [c]) = digits_value r ds * r + the (digit_value c)"
  by (simp add: digits_value_def)

lemma digits_value_nat_to_string: "digits_value 10 (nat_to_string n) = n"
proof (induction n rule: nat_to_string.induct)
  case (1 n)
  show ?case
  proof (cases "n < 10")
    case True
    then show ?thesis
      by (subst nat_to_string.simps) (simp add: digits_value_def digit_value_digit_char)
  next
    case False
    with 1 have "digits_value 10 (nat_to_string (n div 10)) = n div 10" by simp
    with False show ?thesis
      by (subst nat_to_string.simps) (simp add: digits_value_snoc digit_value_digit_char)
  qed
qed

lemma nat_to_string_nonempty: "nat_to_string n \<noteq> []"
  by (subst nat_to_string.simps) simp

lemma not_digit_p: "\<not> is_digit 10 CHR ''p''"
  by (simp add: is_digit_def digit_value_def upt_rec)

lemma takeWhile_digits_px: "takeWhile (is_digit 10) (nat_to_string n @ ''px'') = nat_to_string n"
proof -
  have "takeWhile (is_digit 10) (nat_to_string n @ ''px'') = nat_to_string n @ takeWhile (is_digit 10) ''px''"
    using nat_to_string_digits [of n] by (simp add: takeWhile_append2)
  then show ?thesis by (simp add: not_digit_p)
qed

lemma is_digit_not_x: "is_digit 10 c \<Longrightarrow> c \<noteq> CHR ''x'' \<and> c \<noteq> CHR ''X''"
  by (auto simp: is_digit_def digit_value_def upt_rec)

lemma no_hex_prefix_px: "\<not> has_hex_prefix (nat_to_string n @ ''px'')"
proof (cases "nat_to_string n")
  case Nil
  then show ?thesis using nat_to_string_nonempty by simp
next
  case (Cons c0 cs)
  show ?thesis
  proof (cases cs)
    case Nil
    with Cons show ?thesis by (simp add: has_hex_prefix_def)
  next
    case (Cons c1 cs')
    with \<open>nat_to_string n = c0 # cs\<close> have "c1 \<in> set (nat_to_string n)" by simp
    then have "is_digit 10 c1" using nat_to_string_digits by blast
    then show ?thesis using Cons \<open>nat_to_string n = c0 # cs\<close>
      by (simp add: has_hex_prefix_def is_digit_not_x)
  qed
qed

lemma parse_digits_px: "parse_digits 10 (nat_to_string n @ ''px'') = Some n"
  by (simp add: parse_digits_def takeWhile_digits_px nat_to_string_nonempty digits_value_nat_to_string)

lemma parseInt_minus_px: "parseInt (''-'' @ nat_to_string n @ ''px'') = Some (- int n)"
  by (simp add: parseInt_def is_space_def no_hex_prefix_px parse_digits_px)

lemma parseInt_top_roundtrip:
  "0 \<le> y \<Longrightarrow> parseInt (''-'' @ number_to_string y @ ''px'') = Some (- y)"
  using parseInt_minus_px [of "nat y"] by (simp add: number_to_string_def)

section \<open>Proofs: the drawer\<close>

lemma style_get_set: "style_get k (style_set k v el) = v"
  by (simp add: style_get_def style_set_def update_conv' delete_conv' split: option.splits)

lemma update_element_frame [simp]:
  "menu (update_element n f p) = menu p"
  "body (update_element n f p) = body p"
  "navLinks (update_element n f p) = navLinks p"
  "scrollY (update_element n f p) = scrollY p"
  "innerWidth (update_element n f p) = innerWidth p"
  "timers (update_element n f p) = timers p"
  "anchorTimers (update_element n f p) = anchorTimers p"
  "activeElement (update_element n f p) = activeElement p"
  "menuListeners (update_element n f p) = menuListeners p"
  "swipeListeners (update_element n f p) = swipeListeners p"
  "keyboardListeners (update_element n f p) = keyboardListeners p"
  "resizeListener (update_element n f p) = resizeListener p"
  "outsideClickListener (update_element n f p) = outsideClickListener p"
  "warnings (update_element n f p) = warnings p"
  by (simp_all add: update_element_def split: option.splits)

lemma update_element_present [simp]:
  "(dom (update_element n f p) m = None) = (dom p m = None)"
  by (simp add: update_element_def split: option.splits)

lemma ensureOverlay_frame [simp]:
  "menu (snd (ensureOverlay p)) = menu p"
  "body (snd (ensureOverlay p)) = body p"
  "navLinks (snd (ensureOverlay p)) = navLinks p"
  "scrollY (snd (ensureOverlay p)) = scrollY p"
  "innerWidth (snd (ensureOverlay p)) = innerWidth p"
  "timers (snd (ensureOverlay p)) = timers p"
  "anchorTimers (snd (ensureOverlay p)) = anchorTimers p"
  "activeElement (snd (ensureOverlay p)) = activeElement p"
  "menuListeners (snd (ensureOverlay p)) = menuListeners p"
  "swipeListeners (snd (ensureOverlay p)) = swipeListeners p"
  "keyboardListeners (snd (ensureOverlay p)) = keyboardListeners p"
  "resizeListener (snd (ensureOverlay p)) = resizeListener p"
  "outsideClickListener (snd (ensureOverlay p)) = outsideClickListener p"
  "warnings (snd (ensureOverlay p)) = warnings p"
  by (simp_all add: ensureOverlay_def split: option.splits)

lemma ensureOverlay_present:
  "dom p m \<noteq> None \<Longrightarrow> dom (snd (ensureOverlay p)) m \<noteq> None"
  by (simp add: ensureOverlay_def split: option.splits)

lemma ensureOverlay_present_iff:
  "m \<noteq> MobileMenuOverlay \<Longrightarrow> (dom (snd (ensureOverlay p)) m = None) = (dom p m = None)"
  by (simp add: ensureOverlay_def split: option.splits)

lemma ensureOverlay_overlay:
  "dom (snd (ensureOverlay p)) (fst (ensureOverlay p)) \<noteq> None"
  by (auto simp: ensureOverlay_def overlay_node_def split: option.splits if_splits)

lemma ensureOverlay_overlay_node:
  "overlay_node (snd (ensureOverlay p)) = Some (fst (ensureOverlay p))"
  by (auto simp: ensureOverlay_def overlay_node_def split: option.splits if_splits)

lemma disableBodyScroll_frame [simp]:
  "menu (disableBodyScroll p) = menu p"
  "dom (disableBodyScroll p) = dom p"
  "navLinks (disableBodyScroll p) = navLinks p"
  "scrollY (disableBodyScroll p) = scrollY p"
  "innerWidth (disableBodyScroll p) = innerWidth p"
  "timers (disableBodyScroll p) = timers p"
  "anchorTimers (disableBodyScroll p) = anchorTimers p"
  "activeElement (disableBodyScroll p) = activeElement p"
  "menuListeners (disableBodyScroll p) = menuListeners p"
  "swipeListeners (disableBodyScroll p) = swipeListeners p"
  "keyboardListeners (disableBodyScroll p) = keyboardListeners p"
  "resizeListener (disableBodyScroll p) = resizeListener p"
  "outsideClickListener (disableBodyScroll p) = outsideClickListener p"
  "warnings (disableBodyScroll p) = warnings p"
  by (simp_all add: disableBodyScroll_def Let_def)

lemma enableBodyScroll_frame [simp]:
  "menu (enableBodyScroll p) = menu p"
  "dom (enableBodyScroll p) = dom p"
  "navLinks (enableBodyScroll p) = navLinks p"
  "innerWidth (enableBodyScroll p) = innerWidth p"
  "timers (enableBodyScroll p) = timers p"
  "anchorTimers (enableBodyScroll p) = anchorTimers p"
  "activeElement (enableBodyScroll p) = activeElement p"
  "menuListeners (enableBodyScroll p) = menuListeners p"
  "swipeListeners (enableBodyScroll p) = swipeListeners p"
  "keyboardListeners (enableBodyScroll p) = keyboardListeners p"
  "resizeListener (enableBodyScroll p) = resizeListener p"
  "outsideClickListener (enableBodyScroll p) = outsideClickListener p"
  "warnings (enableBodyScroll p) = warnings p"
  by (simp_all add: enableBodyScroll_def window_scrollTo_def Let_def)

lemma openMobileMenu_guard: "isOpen (menu p) \<or> isAnimating (menu p) \<Longrightarrow> openMobileMenu p = p"
  by (simp add: openMobileMenu_def)

lemma closeMobileMenu_guard: "\<not> isOpen (menu p) \<or> isAnimating (menu p) \<Longrightarrow> closeMobileMenu p = p"
  by (simp add: closeMobileMenu_def)

lemma openMobileMenu_menu:
  "\<not> isOpen (menu p) \<Longrightarrow> \<not> isAnimating (menu p) \<Longrightarrow>
   menu (openMobileMenu p) = (menu p)\<lparr>isAnimating := True, isOpen := True, lastScrollPosition := scrollY p\<rparr>"
  by (simp add: openMobileMenu_def Let_def case_prod_beta)

lemma openMobileMenu_timers:
  "\<not> isOpen (menu p) \<Longrightarrow> \<not> isAnimating (menu p) \<Longrightarrow>
   timers (openMobileMenu p) = timers p @ [Timer OpenDone 350]"
  by (simp add: openMobileMenu_def Let_def case_prod_beta)

lemma closeMobileMenu_menu:
  "isOpen (menu p) \<Longrightarrow> \<not> isAnimating (menu p) \<Longrightarrow>
   menu (closeMobileMenu p) = (menu p)\<lparr>isAnimating := True\<rparr>"
  by (simp add: closeMobileMenu_def Let_def case_prod_beta)

lemma closeMobileMenu_timers:
  "isOpen (menu p) \<Longrightarrow> \<not> isAnimating (menu p) \<Longrightarrow>
   timers (closeMobileMenu p) = timers p @ [Timer CloseDone 350]"
  by (simp add: closeMobileMenu_def Let_def case_prod_beta)

lemma openMobileMenu_listeners [simp]:
  "menuListeners (openMobileMenu p) = menuListeners p"
  "swipeListeners (openMobileMenu p) = swipeListeners p"
  "keyboardListeners (openMobileMenu p) = keyboardListeners p"
  "resizeListener (openMobileMenu p) = resizeListener p"
  "outsideClickListener (openMobileMenu p) = outsideClickListener p"
  "navLinks (openMobileMenu p) = navLinks p"
  "innerWidth (openMobileMenu p) = innerWidth p"
  "warnings (openMobileMenu p) = warnings p"
  "anchorTimers (openMobileMenu p) = anchorTimers p"
  by (simp_all add: openMobileMenu_def Let_def case_prod_beta)

lemma closeMobileMenu_listeners [simp]:
  "menuListeners (closeMobileMenu p) = menuListeners p"
  "swipeListeners (closeMobileMenu p) = swipeListeners p"
  "keyboardListeners (closeMobileMenu p) = keyboardListeners p"
  "resizeListener (closeMobileMenu p) = resizeListener p"
  "outsideClickListener (closeMobileMenu p) = outsideClickListener p"
  "navLinks (closeMobileMenu p) = navLinks p"
  "innerWidth (closeMobileMenu p) = innerWidth p"
  "warnings (closeMobileMenu p) = warnings p"
  "anchorTimers (closeMobileMenu p) = anchorTimers p"
  by (simp_all add: closeMobileMenu_def Let_def case_prod_beta)

lemma openMobileMenu_present:
  "dom p m \<noteq> None \<Longrightarrow> dom (openMobileMenu p) m \<noteq> None"
  by (simp add: openMobileMenu_def Let_def case_prod_beta ensureOverlay_present del: not_None_eq)

lemma closeMobileMenu_present:
  "dom p m \<noteq> None \<Longrightarrow> dom (closeMobileMenu p) m \<noteq> None"
  by (simp add: closeMobileMenu_def Let_def case_prod_beta ensureOverlay_present del: not_None_eq)

lemma flags_open:
  assumes "flags_consistent p" shows "flags_consistent (openMobileMenu p)"
proof (cases "isOpen (menu p) \<or> isAnimating (menu p)")
  case True
  then show ?thesis using assms by (simp add: openMobileMenu_guard)
next
  case False
  then have "timers p = []" using assms by (simp add: flags_consistent_def)
  with False show ?thesis
    by (simp add: flags_consistent_def openMobileMenu_menu openMobileMenu_timers)
qed

lemma flags_close:
  assumes "flags_consistent p" shows "flags_consistent (closeMobileMenu p)"
proof (cases "\<not> isOpen (menu p) \<or> isAnimating (menu p)")
  case True
  then show ?thesis using assms by (simp add: closeMobileMenu_guard)
next
  case False
  then have "timers p = []" using assms by (simp add: flags_consistent_def)
  with False show ?thesis
    by (simp add: flags_consistent_def closeMobileMenu_menu closeMobileMenu_timers)
qed

lemma overlay_node_open: "overlay_node p \<noteq> None \<Longrightarrow> overlay_node (openMobileMenu p) \<noteq> None"
  unfolding overlay_node_def
  using openMobileMenu_present [of p MobileMenuOverlay] openMobileMenu_present [of p MobileOverlay]
  by (auto split: if_splits)

lemma overlay_node_close: "overlay_node p \<noteq> None \<Longrightarrow> overlay_node (closeMobileMenu p) \<noteq> None"
  unfolding overlay_node_def
  using closeMobileMenu_present [of p MobileMenuOverlay] closeMobileMenu_present [of p MobileOverlay]
  by (auto split: if_splits)

lemma bound_open: "listeners_bound p \<Longrightarrow> listeners_bound (openMobileMenu p)"
  unfolding listeners_bound_def
  using openMobileMenu_present [of p MobileMenuToggle] openMobileMenu_present [of p MobileNav]
    overlay_node_open [of p]
  by (auto split: if_splits)

lemma bound_close: "listeners_bound p \<Longrightarrow> listeners_bound (closeMobileMenu p)"
  unfolding listeners_bound_def
  using closeMobileMenu_present [of p MobileMenuToggle] closeMobileMenu_present [of p MobileNav]
    overlay_node_close [of p]
  by (auto split: if_splits)

lemma inv_open: "drawer_inv p \<Longrightarrow> drawer_inv (openMobileMenu p)"
  by (simp add: drawer_inv_def flags_open bound_open)

lemma inv_close: "drawer_inv p \<Longrightarrow> drawer_inv (closeMobileMenu p)"
  by (simp add: drawer_inv_def flags_close bound_close)

lemma inv_frame:
  assumes "drawer_inv p"
    and "isOpen (menu q) = isOpen (menu p)" and "isAnimating (menu q) = isAnimating (menu p)"
    and "timers q = timers p" and "menuListeners q = menuListeners p"
    and "swipeListeners q = swipeListeners p" and "keyboardListeners q = keyboardListeners p"
    and "\<And>m. dom p m \<noteq> None \<Longrightarrow> dom q m \<noteq> None"
  shows "drawer_inv q"
proof -
  have "overlay_node p \<noteq> None \<Longrightarrow> overlay_node q \<noteq> None"
    unfolding overlay_node_def using assms(8) [of MobileMenuOverlay] assms(8) [of MobileOverlay]
    by (auto split: if_splits)
  then show ?thesis
    using assms(1-7) assms(8) [of MobileMenuToggle] assms(8) [of MobileNav]
    unfolding drawer_inv_def flags_consistent_def listeners_bound_def
    by (auto split: if_splits)
qed

lemma inv_toggle_click: "drawer_inv p \<Longrightarrow> drawer_inv (toggle_click p)"
  by (simp add: toggle_click_def inv_open inv_close)

lemma inv_overlay_click: "drawer_inv p \<Longrightarrow> drawer_inv (overlay_click p)"
  by (simp add: overlay_click_def inv_close)

lemma inv_escape: "drawer_inv p \<Longrightarrow> drawer_inv (escape_keydown p)"
  by (simp add: escape_keydown_def inv_close)

lemma inv_api_toggle: "drawer_inv p \<Longrightarrow> drawer_inv (api_toggle p)"
  by (simp add: api_toggle_def inv_open inv_close)

lemma inv_outside: "drawer_inv p \<Longrightarrow> drawer_inv (handleOutsideClick a b p)"
  by (simp add: handleOutsideClick_def inv_close)

lemma inv_overlay_touchend: "drawer_inv p \<Longrightarrow> drawer_inv (overlay_touchend x p)"
  by (simp add: overlay_touchend_def Let_def inv_close)

lemma inv_nav_touchstart: "drawer_inv p \<Longrightarrow> drawer_inv (nav_touchstart x y t p)"
  by (rule inv_frame) (simp_all add: nav_touchstart_def)

lemma inv_overlay_touchstart: "drawer_inv p \<Longrightarrow> drawer_inv (overlay_touchstart x y p)"
  by (rule inv_frame) (simp_all add: overlay_touchstart_def)

lemma inv_resize: "drawer_inv p \<Longrightarrow> drawer_inv (handleMenuResize p)"
proof -
  assume a: "drawer_inv p"
  have "drawer_inv (case dom p MobileNav of None \<Rightarrow> p
          | Some nav \<Rightarrow> p\<lparr>menu := (menu p)\<lparr>menuWidth := offsetWidth nav\<rparr>\<rparr>)"
    by (rule inv_frame [OF a]) (simp_all split: option.splits)
  then show ?thesis by (simp add: handleMenuResize_def Let_def inv_close)
qed

lemma inv_nav_touchend:
  assumes "drawer_inv p" and "dom p MobileNav \<noteq> None"
  shows "\<exists>q. nav_touchend x t p = Some q \<and> drawer_inv q \<and> dom q MobileNav \<noteq> None"
proof (cases "\<not> isOpen (menu p) \<or> isAnimating (menu p)")
  case True
  then show ?thesis using assms by (simp add: nav_touchend_def)
next
  case False
  from assms(2) obtain nav where nav: "dom p MobileNav = Some nav" by auto
  let ?p1 = "p\<lparr>dom := (dom p)(MobileNav \<mapsto> style_set ''transform'' [] nav)\<rparr>"
  have inv1: "drawer_inv ?p1" by (rule inv_frame [OF assms(1)]) simp_all
  have pres: "dom ?p1 MobileNav \<noteq> None" by simp
  have "nav_touchend x t p = Some ?p1 \<or> nav_touchend x t p = Some (closeMobileMenu ?p1)"
    using False nav by (simp add: nav_touchend_def Let_def)
  then show ?thesis
    using inv1 pres inv_close [OF inv1] closeMobileMenu_present [OF pres] by auto
qed

lemma inv_link_click: "drawer_inv p \<Longrightarrow> drawer_inv (link_click href p)"
proof -
  assume a: "drawer_inv p"
  have "drawer_inv (handleAnchorLinkClick h p)" for h
    unfolding handleAnchorLinkClick_def Let_def
    by (rule inv_frame [OF inv_close [OF a]]) simp_all
  then show ?thesis using a by (simp add: link_click_def inv_close split: option.splits)
qed

lemma inv_anchor_callback:
  "drawer_inv p \<Longrightarrow> anchor_callback href q (p\<lparr>anchorTimers := hs\<rparr>) = Some r \<Longrightarrow> drawer_inv r"
proof -
  assume a: "drawer_inv p" and b: "anchor_callback href q (p\<lparr>anchorTimers := hs\<rparr>) = Some r"
  from b have "\<exists>z. r = p\<lparr>anchorTimers := hs\<rparr> \<or> r = p\<lparr>anchorTimers := hs, scrollY := z\<rparr>"
    by (auto simp: anchor_callback_def window_scrollTo_def Let_def split: if_splits query.splits)
  then obtain z where "r = p\<lparr>anchorTimers := hs\<rparr> \<or> r = p\<lparr>anchorTimers := hs, scrollY := z\<rparr>" by blast
  then show ?thesis using inv_frame [OF a, of r] by auto
qed

lemma run_listeners_total:
  assumes "\<And>q. P q \<Longrightarrow> P (f q)" and "P p"
  shows "\<exists>q. run_listeners n (Some \<circ> f) p = Some q \<and> P q"
  using assms(2)
proof (induction n arbitrary: p)
  case 0
  then show ?case by simp
next
  case (Suc n)
  from Suc.prems have "P (f p)" by (rule assms(1))
  from Suc.IH [OF this] show ?case by simp
qed

lemma run_listeners_partial:
  assumes "\<And>q. P q \<Longrightarrow> \<exists>q'. h q = Some q' \<and> P q'" and "P p"
  shows "\<exists>q. run_listeners n h p = Some q \<and> P q"
  using assms(2)
proof (induction n arbitrary: p)
  case 0
  then show ?case by simp
next
  case (Suc n)
  from assms(1) [OF Suc.prems] obtain q' where q': "h p = Some q'" "P q'" by blast
  from Suc.IH [OF q'(2)] q'(1) show ?case by simp
qed

lemma inv_run_timer:
  assumes "drawer_inv p" and "timers p = Timer cb d # ts"
  shows "drawer_inv (run_timer cb (p\<lparr>timers := ts\<rparr>))"
proof -
  from assms have an: "isAnimating (menu p)" and op: "isOpen (menu p)"
    and ts: "ts = []" and lb: "listeners_bound p"
    by (auto simp: drawer_inv_def flags_consistent_def split: if_splits)
  have lb': "listeners_bound (run_timer cb (p\<lparr>timers := ts\<rparr>))"
    using lb by (cases cb) (auto simp: listeners_bound_def overlay_node_def Let_def split: if_splits)
  have "flags_consistent (run_timer cb (p\<lparr>timers := ts\<rparr>))"
    using ts by (cases cb) (auto simp: flags_consistent_def Let_def)
  with lb' show ?thesis by (simp add: drawer_inv_def)
qed

lemma overlay_node_dom: "dom q = dom p \<Longrightarrow> overlay_node q = overlay_node p"
  by (simp add: overlay_node_def)

lemma ensureOverlay_idem: "overlay_node p = Some ov \<Longrightarrow> ensureOverlay p = (ov, p)"
  by (simp add: ensureOverlay_def)

lemma setupMenuEventListeners_ok:
  assumes "overlay_node q \<noteq> None" and "dom q MobileMenuToggle \<noteq> None" and "dom q MobileNav \<noteq> None"
  shows "setupMenuEventListeners q = Some (q\<lparr>menuListeners := menuListeners q + 1\<rparr>)"
proof -
  from assms(1) obtain ov where "overlay_node q = Some ov" by auto
  then have "ensureOverlay q = (ov, q)" by (rule ensureOverlay_idem)
  then show ?thesis using assms(2,3) by (auto simp: setupMenuEventListeners_def)
qed

lemma setupSwipeGestures_ok:
  assumes "overlay_node q \<noteq> None" and "dom q MobileNav \<noteq> None"
  shows "setupSwipeGestures q = Some (q\<lparr>swipeListeners := swipeListeners q + 1\<rparr>)"
proof -
  from assms(1) obtain ov where ov: "overlay_node q = Some ov" by auto
  then have e: "ensureOverlay q = (ov, q)" by (rule ensureOverlay_idem)
  from ov have "dom q ov \<noteq> None" by (auto simp: overlay_node_def split: if_splits)
  then show ?thesis using assms(2) e by (auto simp: setupSwipeGestures_def)
qed

lemma setupKeyboardNavigation_ok:
  assumes "dom q MobileMenuToggle \<noteq> None"
  shows "setupKeyboardNavigation q = Some (q\<lparr>keyboardListeners := keyboardListeners q + 1\<rparr>)"
  using assms by (auto simp: setupKeyboardNavigation_def)

lemma initMobileMenu_result:
  "initMobileMenu p =
     (let q = snd (ensureOverlay p) in
      if dom q MobileMenuToggle = None \<or> dom q MobileNav = None
      then Some (q\<lparr>warnings := warnings q + 1\<rparr>)
      else Some (init_registered q))"
proof -
  define q where "q = snd (ensureOverlay p)"
  show ?thesis
  proof (cases "dom q MobileMenuToggle = None \<or> dom q MobileNav = None")
    case True
    then show ?thesis by (auto simp: initMobileMenu_def case_prod_beta q_def)
  next
    case False
    then obtain tg nav where tg: "dom q MobileMenuToggle = Some tg" and nav: "dom q MobileNav = Some nav"
      by auto
    define p1 where "p1 = q\<lparr>menu := (menu q)\<lparr>menuWidth := (if offsetWidth nav = 0 then 300 else offsetWidth nav)\<rparr>\<rparr>"
    define p2 where "p2 = p1\<lparr>menuListeners := menuListeners p1 + 1\<rparr>"
    define p3 where "p3 = p2\<lparr>swipeListeners := swipeListeners p2 + 1\<rparr>"
    define p4 where "p4 = p3\<lparr>keyboardListeners := keyboardListeners p3 + 1\<rparr>"
    have d1: "dom p1 = dom q" by (simp add: p1_def)
    have d2: "dom p2 = dom q" by (simp add: p2_def d1)
    have d3: "dom p3 = dom q" by (simp add: p3_def d2)
    have ovq: "overlay_node q \<noteq> None"
      using ensureOverlay_overlay_node [of p] by (simp add: q_def)
    have s1: "setupMenuEventListeners p1 = Some p2"
      unfolding p2_def
      by (rule setupMenuEventListeners_ok) (simp_all add: overlay_node_dom [OF d1] ovq d1 tg nav)
    have s2: "setupSwipeGestures p2 = Some p3"
      unfolding p3_def
      by (rule setupSwipeGestures_ok) (simp_all add: overlay_node_dom [OF d2] ovq d2 nav)
    have s3: "setupKeyboardNavigation p3 = Some p4"
      unfolding p4_def
      by (rule setupKeyboardNavigation_ok) (simp add: d3 tg)
    have "initMobileMenu p =
            Some (p4\<lparr>resizeListener := True,
                      outsideClickListener := (outsideClickListener p4 \<or> innerWidth p4 > 768)\<rparr>)"
      using tg nav s1 s2 s3
      by (simp add: initMobileMenu_def case_prod_beta q_def [symmetric] p1_def [symmetric])
    moreover have "p4\<lparr>resizeListener := True,
                      outsideClickListener := (outsideClickListener p4 \<or> innerWidth p4 > 768)\<rparr>
                   = init_registered q"
      by (simp add: init_registered_def p4_def p3_def p2_def p1_def nav)
    ultimately show ?thesis using tg nav by (simp add: q_def [symmetric])
  qed
qed

lemma initMobileMenu_total: "\<exists>q. initMobileMenu p = Some q"
  by (simp add: initMobileMenu_result Let_def)

lemma inv_init:
  assumes "drawer_inv p" and "initMobileMenu p = Some q"
  shows "drawer_inv q"
proof -
  define r where "r = snd (ensureOverlay p)"
  have ovr: "overlay_node r \<noteq> None"
    using ensureOverlay_overlay_node [of p] by (simp add: r_def)
  have invr: "drawer_inv r"
    by (rule inv_frame [OF assms(1)]) (simp_all add: r_def ensureOverlay_present del: not_None_eq)
  show ?thesis
  proof (cases "dom r MobileMenuToggle = None \<or> dom r MobileNav = None")
    case True
    then have "q = r\<lparr>warnings := warnings r + 1\<rparr>"
      using assms(2) by (simp add: initMobileMenu_result r_def [symmetric])
    then show ?thesis using invr by (simp add: inv_frame [OF invr])
  next
    case False
    then have q: "q = init_registered r"
      using assms(2) by (auto simp: initMobileMenu_result r_def [symmetric])
    have "overlay_node q \<noteq> None"
      using ovr overlay_node_dom [of q r] by (simp add: q init_registered_def)
    then show ?thesis
      using invr False
      by (auto simp: q init_registered_def drawer_inv_def flags_consistent_def listeners_bound_def)
  qed
qed

lemma dispatch_inv:
  assumes "drawer_inv p" and "\<not> is_tab e" and "\<not> is_anchor_timer e"
  shows "\<exists>q. dispatch e p = Some q \<and> drawer_inv q"
proof (cases e)
  case InitTimerFires
  then show ?thesis using initMobileMenu_total [of p] inv_init [OF assms(1)] by auto
next
  case ToggleClick
  then show ?thesis
    using run_listeners_total [of drawer_inv toggle_click p] assms(1) inv_toggle_click by auto
next
  case OverlayClick
  obtain q where q: "run_listeners (menuListeners p) (Some \<circ> overlay_click) p = Some q" "drawer_inv q"
    using run_listeners_total [of drawer_inv overlay_click p] assms(1) inv_overlay_click by blast
  then show ?thesis using OverlayClick assms(1) inv_outside [of q] by auto
next
  case CloseButtonClick
  then show ?thesis
    using run_listeners_total [of drawer_inv closeMobileMenu p] assms(1) inv_close by auto
next
  case LinkClick
  then show ?thesis
    using run_listeners_total [of drawer_inv closeMobileMenu p] assms(1) inv_close by auto
next
  case EscapeKey
  then show ?thesis
    using run_listeners_total [of drawer_inv escape_keydown p] assms(1) inv_escape by auto
next
  case OutsideClick
  then show ?thesis using assms(1) inv_outside [of p] by auto
next
  case (TouchStart x y t)
  then show ?thesis
    using run_listeners_total [of drawer_inv "nav_touchstart x y t" p] assms(1) inv_nav_touchstart
    by auto
next
  case (SwipeRelease x t)
  show ?thesis
  proof (cases "dom p MobileNav = None")
    case True
    then show ?thesis using SwipeRelease assms(1) by simp
  next
    case False
    let ?P = "\<lambda>q. drawer_inv q \<and> dom q MobileNav \<noteq> None"
    have "\<exists>q. run_listeners (swipeListeners p) (nav_touchend x t) p = Some q \<and> ?P q"
      by (rule run_listeners_partial [of ?P]) (use inv_nav_touchend assms(1) False in auto)
    then show ?thesis using SwipeRelease False by auto
  qed
next
  case (OverlayTouchStart x y)
  then show ?thesis
    using run_listeners_total [of drawer_inv "overlay_touchstart x y" p] assms(1)
      inv_overlay_touchstart by auto
next
  case (OverlaySwipeRelease x)
  then show ?thesis
    using run_listeners_total [of drawer_inv "overlay_touchend x" p] assms(1)
      inv_overlay_touchend by auto
next
  case TimerFires
  show ?thesis
  proof (cases "timers p")
    case Nil
    then show ?thesis using TimerFires assms(1) by simp
  next
    case (Cons t ts)
    obtain cb d where t: "t = Timer cb d" by (cases t)
    with Cons TimerFires inv_run_timer [OF assms(1), of cb d ts] show ?thesis by simp
  qed
next
  case (Resize w nw)
  let ?p1 = "update_element MobileNav (\<lambda>el. el\<lparr>offsetWidth := nw\<rparr>) (p\<lparr>innerWidth := w\<rparr>)"
  have "drawer_inv ?p1"
    by (rule inv_frame [OF assms(1)]) (simp_all del: not_None_eq)
  then show ?thesis using Resize inv_resize [of ?p1] by (auto simp: Let_def)
next
  case ResizeDebounced
  then show ?thesis using assms(1) inv_resize by simp
next
  case ApiOpen
  then show ?thesis using assms(1) inv_open by simp
next
  case ApiClose
  then show ?thesis using assms(1) inv_close by simp
next
  case ApiToggle
  then show ?thesis using assms(1) inv_api_toggle by simp
next
  case (Scroll y)
  have "drawer_inv (p\<lparr>scrollY := y\<rparr>)" by (rule inv_frame [OF assms(1)]) simp_all
  then show ?thesis using Scroll by simp
next
  case (TabKey b)
  then show ?thesis using assms(2) by simp
next
  case (LinkClickHref h)
  then show ?thesis
    using run_listeners_total [of drawer_inv "link_click (Some h)" p] assms(1) inv_link_click
    by auto
next
  case (AnchorTimerFires q)
  then show ?thesis using assms(3) by simp
qed

lemma run_inv:
  assumes "drawer_inv p" and "\<forall>e \<in> set es. \<not> is_tab e \<and> \<not> is_anchor_timer e"
  shows "\<exists>q. run es p = Some q \<and> drawer_inv q"
  using assms
proof (induction es arbitrary: p)
  case Nil
  then show ?case by simp
next
  case (Cons e es)
  then obtain q where q: "dispatch e p = Some q" "drawer_inv q"
    using dispatch_inv [of p e] by auto
  with Cons.IH [of q] Cons.prems show ?case by simp
qed

lemma inv_initial_page: "drawer_inv (initial_page d b links y width)"
  by (simp add: drawer_inv_def flags_consistent_def listeners_bound_def initial_page_def
      MobileMenu_initial_def)

lemma frozen_refl: "isAnimating (menu p) \<Longrightarrow> frozen p p"
  by (simp add: frozen_def)

lemma frozen_open: "frozen p q \<Longrightarrow> frozen p (openMobileMenu q)"
  by (simp add: frozen_def openMobileMenu_guard)

lemma frozen_close: "frozen p q \<Longrightarrow> frozen p (closeMobileMenu q)"
  by (simp add: frozen_def closeMobileMenu_guard)

lemma frozen_toggle_click: "frozen p q \<Longrightarrow> frozen p (toggle_click q)"
  by (simp add: frozen_def toggle_click_def)

lemma frozen_overlay_click: "frozen p q \<Longrightarrow> frozen p (overlay_click q)"
  by (simp add: overlay_click_def frozen_close)

lemma frozen_escape: "frozen p q \<Longrightarrow> frozen p (escape_keydown q)"
  by (simp add: escape_keydown_def frozen_close)

lemma frozen_api_toggle: "frozen p q \<Longrightarrow> frozen p (api_toggle q)"
  by (simp add: api_toggle_def frozen_close frozen_open)

lemma frozen_outside: "frozen p q \<Longrightarrow> frozen p (handleOutsideClick a b q)"
  by (simp add: handleOutsideClick_def frozen_close)

lemma frozen_overlay_touchend: "frozen p q \<Longrightarrow> frozen p (overlay_touchend x q)"
  by (simp add: overlay_touchend_def Let_def frozen_close)

lemma frozen_nav_touchstart: "frozen p q \<Longrightarrow> frozen p (nav_touchstart x y t q)"
  by (simp add: frozen_def nav_touchstart_def)

lemma frozen_overlay_touchstart: "frozen p q \<Longrightarrow> frozen p (overlay_touchstart x y q)"
  by (simp add: frozen_def overlay_touchstart_def)

lemma frozen_nav_touchend: "frozen p q \<Longrightarrow> nav_touchend x t q = Some q' \<Longrightarrow> frozen p q'"
  by (auto simp: frozen_def nav_touchend_def)

lemma frozen_focus_trap: "frozen p q \<Longrightarrow> focus_trap_keydown b q = Some q' \<Longrightarrow> frozen p q'"
  by (auto simp: frozen_def focus_trap_keydown_def split: if_splits option.splits)

lemma frozen_resize: "frozen p q \<Longrightarrow> frozen p (handleMenuResize q)"
proof -
  assume a: "frozen p q"
  have "frozen p (case dom q MobileNav of None \<Rightarrow> q
          | Some nav \<Rightarrow> q\<lparr>menu := (menu q)\<lparr>menuWidth := offsetWidth nav\<rparr>\<rparr>)"
    using a by (simp add: frozen_def split: option.splits)
  then show ?thesis by (simp add: handleMenuResize_def Let_def frozen_close)
qed

lemma frozen_link_click: "frozen p q \<Longrightarrow> frozen p (link_click href q)"
  by (simp add: link_click_def handleAnchorLinkClick_def Let_def frozen_def closeMobileMenu_guard
      split: option.splits)

lemma frozen_anchor_callback:
  "frozen p q \<Longrightarrow> anchor_callback href x (q\<lparr>anchorTimers := hs\<rparr>) = Some q' \<Longrightarrow> frozen p q'"
  by (auto simp: anchor_callback_def window_scrollTo_def Let_def frozen_def
      split: if_splits query.splits)

lemma frozen_init: "frozen p q \<Longrightarrow> initMobileMenu q = Some q' \<Longrightarrow> frozen p q'"
  by (auto simp: initMobileMenu_result Let_def frozen_def init_registered_def split: if_splits)

lemma run_listeners_pres:
  assumes "\<And>q q'. P q \<Longrightarrow> h q = Some q' \<Longrightarrow> P q'" and "P p" and "run_listeners n h p = Some r"
  shows "P r"
  using assms(2,3)
proof (induction n arbitrary: p)
  case 0
  then show ?case by simp
next
  case (Suc n)
  then obtain q' where q': "h p = Some q'" "run_listeners n h q' = Some r"
    by (auto split: option.splits)
  from assms(1) [OF Suc.prems(1) q'(1)] have "P q'" .
  from Suc.IH [OF this q'(2)] show ?case .
qed

lemma frozen_dispatch:
  assumes "isAnimating (menu p)" and "e \<noteq> TimerFires" and "dispatch e p = Some q"
  shows "frozen p q"
proof -
  have r: "frozen p p" using assms(1) by (rule frozen_refl)
  have tot: "\<And>f n r. (\<And>q. frozen p q \<Longrightarrow> frozen p (f q)) \<Longrightarrow>
      run_listeners n (Some \<circ> f) p = Some r \<Longrightarrow> frozen p r"
  proof -
    fix f n r
    assume f: "\<And>q. frozen p q \<Longrightarrow> frozen p (f q)" and rn: "run_listeners n (Some \<circ> f) p = Some r"
    show "frozen p r"
      by (rule run_listeners_pres [of "frozen p" "Some \<circ> f", OF _ r rn]) (use f in auto)
  qed
  show ?thesis
  proof (cases e)
    case InitTimerFires
    then show ?thesis using assms(3) frozen_init [OF r] by simp
  next
    case ToggleClick
    then show ?thesis using assms(3) r tot [of toggle_click] frozen_toggle_click
      by (auto split: if_splits)
  next
    case OverlayClick
    then show ?thesis using assms(3) r tot [of overlay_click] frozen_overlay_click frozen_outside
      by (auto split: if_splits option.splits)
  next
    case CloseButtonClick
    then show ?thesis using assms(3) r tot [of closeMobileMenu] frozen_close
      by (auto split: if_splits)
  next
    case LinkClick
    then show ?thesis using assms(3) r tot [of closeMobileMenu] frozen_close
      by (auto split: if_splits)
  next
    case EscapeKey
    then show ?thesis using assms(3) tot [of escape_keydown] frozen_escape by auto
  next
    case OutsideClick
    then show ?thesis using assms(3) r frozen_outside [OF r] by (auto split: if_splits)
  next
    case (TouchStart x y t)
    then show ?thesis using assms(3) r tot [of "nav_touchstart x y t"] frozen_nav_touchstart
      by (auto split: if_splits)
  next
    case (SwipeRelease x t)
    have "\<And>n r'. run_listeners n (nav_touchend x t) p = Some r' \<Longrightarrow> frozen p r'"
    proof -
      fix n r' assume rn: "run_listeners n (nav_touchend x t) p = Some r'"
      show "frozen p r'"
        by (rule run_listeners_pres [of "frozen p" "nav_touchend x t", OF _ r rn])
          (use frozen_nav_touchend in blast)
    qed
    then show ?thesis using SwipeRelease assms(3) r by (auto split: if_splits)
  next
    case (OverlayTouchStart x y)
    then show ?thesis using assms(3) r tot [of "overlay_touchstart x y"] frozen_overlay_touchstart
      by (auto split: if_splits)
  next
    case (OverlaySwipeRelease x)
    then show ?thesis using assms(3) r tot [of "overlay_touchend x"] frozen_overlay_touchend
      by (auto split: if_splits)
  next
    case TimerFires
    then show ?thesis using assms(2) by simp
  next
    case (Resize w nw)
    let ?p1 = "update_element MobileNav (\<lambda>el. el\<lparr>offsetWidth := nw\<rparr>) (p\<lparr>innerWidth := w\<rparr>)"
    have "frozen p ?p1" using assms(1) by (simp add: frozen_def)
    then show ?thesis using Resize assms(3) frozen_resize [of p ?p1]
      by (auto simp: Let_def split: if_splits)
  next
    case ResizeDebounced
    then show ?thesis using assms(3) frozen_resize [OF r] by auto
  next
    case ApiOpen
    then show ?thesis using assms(3) frozen_open [OF r] by auto
  next
    case ApiClose
    then show ?thesis using assms(3) frozen_close [OF r] by auto
  next
    case ApiToggle
    then show ?thesis using assms(3) frozen_api_toggle [OF r] by auto
  next
    case (Scroll y)
    then show ?thesis using assms(1,3) by (auto simp: frozen_def)
  next
    case (TabKey b)
    have "\<And>n r'. run_listeners n (focus_trap_keydown b) p = Some r' \<Longrightarrow> frozen p r'"
    proof -
      fix n r' assume rn: "run_listeners n (focus_trap_keydown b) p = Some r'"
      show "frozen p r'"
        by (rule run_listeners_pres [of "frozen p" "focus_trap_keydown b", OF _ r rn])
          (use frozen_focus_trap in blast)
    qed
    then show ?thesis using TabKey assms(3) by auto
  next
    case (LinkClickHref h)
    then show ?thesis using assms(3) r tot [of "link_click (Some h)"] frozen_link_click
      by (auto split: if_splits)
  next
    case (AnchorTimerFires x)
    then show ?thesis using assms(3) r frozen_anchor_callback [OF r]
      by (auto split: list.splits)
  qed
qed

lemma inv_focus_trap: "drawer_inv p \<Longrightarrow> focus_trap_keydown b p = Some q \<Longrightarrow> drawer_inv q"
proof -
  assume a: "drawer_inv p" and b: "focus_trap_keydown b p = Some q"
  from b have "q = p \<or> (\<exists>f. q = p\<lparr>activeElement := f\<rparr>)"
    by (auto simp: focus_trap_keydown_def split: if_splits option.splits)
  then show ?thesis
  proof
    assume "q = p" then show ?thesis using a by simp
  next
    assume "\<exists>f. q = p\<lparr>activeElement := f\<rparr>"
    then obtain f where "q = p\<lparr>activeElement := f\<rparr>" by blast
    then show ?thesis using inv_frame [OF a, of q] by simp
  qed
qed

lemma dispatch_pres:
  assumes "drawer_inv p" and "dispatch e p = Some q"
  shows "drawer_inv q"
proof (cases "is_tab e \<or> is_anchor_timer e")
  case False
  then show ?thesis using dispatch_inv [OF assms(1), of e] assms(2) by auto
next
  case True
  then show ?thesis
  proof
    assume "is_tab e"
    then obtain b where e: "e = TabKey b" by (cases e) auto
    show ?thesis
      by (rule run_listeners_pres [of drawer_inv "focus_trap_keydown b" p "keyboardListeners p"])
        (use inv_focus_trap assms e in auto)
  next
    assume "is_anchor_timer e"
    then obtain x where e: "e = AnchorTimerFires x" by (cases e) auto
    show ?thesis
    proof (cases "anchorTimers p")
      case Nil
      then show ?thesis using assms e by simp
    next
      case (Cons h hs)
      then show ?thesis using assms e inv_anchor_callback [OF assms(1), of h x hs q] by simp
    qed
  qed
qed

lemma run_pres:
  assumes "drawer_inv p" and "run es p = Some q"
  shows "drawer_inv q"
  using assms
proof (induction es arbitrary: p)
  case Nil
  then show ?case by simp
next
  case (Cons e es)
  then obtain r where r: "dispatch e p = Some r" "run es r = Some q"
    by (auto split: option.splits)
  from dispatch_pres [OF Cons.prems(1) r(1)] Cons.IH r(2) show ?case by blast
qed

lemma run_listeners_id: "h p = Some p \<Longrightarrow> run_listeners n h p = Some p"
  by (induction n) simp_all

lemma trigger_noop:
  assumes "isAnimating (menu p)" and "is_trigger e"
  shows "dispatch e p = Some p"
proof -
  have c: "closeMobileMenu p = p" using assms(1) by (simp add: closeMobileMenu_guard)
  have l: "\<And>f n. f p = p \<Longrightarrow> run_listeners n (Some \<circ> f) p = Some p"
    by (rule run_listeners_id) simp
  show ?thesis
  proof (cases e)
    case ToggleClick
    then show ?thesis using assms(1) l [of toggle_click] by (simp add: toggle_click_def)
  next
    case OverlayClick
    then show ?thesis using c l [of overlay_click]
      by (simp add: overlay_click_def handleOutsideClick_def)
  next
    case CloseButtonClick
    then show ?thesis using c l [of closeMobileMenu] by simp
  next
    case LinkClick
    then show ?thesis using c l [of closeMobileMenu] by simp
  next
    case EscapeKey
    then show ?thesis using c l [of escape_keydown] by (simp add: escape_keydown_def)
  next
    case OutsideClick
    then show ?thesis using c by (simp add: handleOutsideClick_def)
  next
    case (SwipeRelease x t)
    have "nav_touchend x t p = Some p" using assms(1) by (simp add: nav_touchend_def)
    then show ?thesis using SwipeRelease by (simp add: run_listeners_id)
  next
    case (OverlaySwipeRelease x)
    then show ?thesis using c l [of "overlay_touchend x"] by (simp add: overlay_touchend_def Let_def)
  qed (use assms(2) in simp_all)
qed

lemma frozen_trans: "frozen p q \<Longrightarrow> frozen q r \<Longrightarrow> frozen p r"
  by (simp add: frozen_def)

lemma frozen_run:
  assumes "isAnimating (menu p)" and "TimerFires \<notin> set es" and "run es p = Some q"
  shows "frozen p q"
  using assms
proof (induction es arbitrary: p)
  case Nil
  then show ?case by (simp add: frozen_def)
next
  case (Cons e es)
  then obtain r where r: "dispatch e p = Some r" "run es r = Some q"
    by (auto split: option.splits)
  from Cons.prems have "e \<noteq> TimerFires" by auto
  from frozen_dispatch [OF Cons.prems(1) this r(1)] have f: "frozen p r" .
  then have "isAnimating (menu r)" by (simp add: frozen_def)
  from Cons.IH [OF this _ r(2)] Cons.prems(2) have "frozen r q" by simp
  with f show ?case by (rule frozen_trans)
qed

lemma frozen_phase:
  "isAnimating (menu p) \<Longrightarrow> frozen p q \<Longrightarrow> phase_of q = phase_of p \<and> api_isOpen q = api_isOpen p"
  by (simp add: frozen_def phase_of_def api_isOpen_def)

lemma reachable_inv:
  "run es (initial_page d b links y width) = Some p \<Longrightarrow> drawer_inv p"
  using run_pres [OF inv_initial_page] by blast

text \<open>
  C1.  In every page reached from the initial page by any sequence of events, an
  animation is in flight (a completion timer is pending) exactly when the animating
  flag is set, and then exactly one timer is pending; \<open>openMobileMenu\<close> and
  \<open>closeMobileMenu\<close> return the page unchanged (flags, classes, ARIA attributes, body
  style and scroll offset included); every trigger (burger click, overlay click, close
  button, link that is not an anchor link, Escape, outside click, swipe release) leaves
  the page unchanged; and no sequence of events without the firing of the timer, clicks
  on anchor links and the callbacks they set included, changes the flags or the pending
  timer.
\<close>

theorem drawer_no_transition_while_animating:
  assumes "run es (initial_page d b links y width) = Some p"
    and "timers p \<noteq> [] \<or> isAnimating (menu p)"
  shows "isAnimating (menu p) \<and> length (timers p) = 1
         \<and> openMobileMenu p = p \<and> closeMobileMenu p = p
         \<and> (\<forall>e. is_trigger e \<longrightarrow> dispatch e p = Some p)
         \<and> (\<forall>es' q. TimerFires \<notin> set es' \<longrightarrow> run es' p = Some q \<longrightarrow> frozen p q)"
proof -
  have inv: "drawer_inv p" using assms(1) by (rule reachable_inv)
  then have an: "isAnimating (menu p)"
    using assms(2) by (auto simp: drawer_inv_def flags_consistent_def split: if_splits)
  have one: "length (timers p) = 1"
    using inv an by (auto simp: drawer_inv_def flags_consistent_def split: if_splits)
  have o: "openMobileMenu p = p" using an by (simp add: openMobileMenu_guard)
  have c: "closeMobileMenu p = p" using an by (simp add: closeMobileMenu_guard)
  show ?thesis using an one o c trigger_noop [OF an] frozen_run [OF an] by blast
qed

lemma example_page_closed:
  "\<not> isOpen (menu example_page)" "\<not> isAnimating (menu example_page)" "timers example_page = []"
  by (simp_all add: example_page_def initial_page_def MobileMenu_initial_def)

theorem drawer_no_transition_while_animating_witness:
  "run [ApiOpen] example_page = Some example_opening
   \<and> isAnimating (menu example_opening) \<and> length (timers example_opening) = 1
   \<and> openMobileMenu example_opening = example_opening
   \<and> closeMobileMenu example_opening = example_opening
   \<and> dispatch ToggleClick example_opening = Some example_opening
   \<and> dispatch (SwipeRelease 400 1000) example_opening = Some example_opening"
proof -
  have r: "run [ApiOpen] (initial_page (\<lambda>n. Some example_element) example_element 3 120 390)
           = Some example_opening"
    by (simp add: example_opening_def example_page_def)
  have a: "isAnimating (menu example_opening)"
    by (simp add: example_opening_def openMobileMenu_menu example_page_closed)
  note th = drawer_no_transition_while_animating [OF r disjI2 [OF a]]
  have t1: "dispatch ToggleClick example_opening = Some example_opening"
    using th by (meson is_trigger.simps(1))
  have t2: "dispatch (SwipeRelease 400 1000) example_opening = Some example_opening"
    using th by (meson is_trigger.simps(7))
  have r': "run [ApiOpen] example_page = Some example_opening"
    using r by (simp only: example_page_def)
  from th t1 t2 r' show ?thesis by blast
qed

lemma phase_of_Open: "(phase_of p = Open) = (isOpen (menu p) \<and> \<not> isAnimating (menu p))"
  by (auto simp: phase_of_def split: list.splits timer.splits timer_callback.splits)

lemma phase_of_Closed: "(phase_of p = Closed) = (\<not> isOpen (menu p) \<and> \<not> isAnimating (menu p))"
  by (auto simp: phase_of_def split: list.splits timer.splits timer_callback.splits)

lemma phase_open_from_closed:
  assumes "phase_of p = Closed" and "timers p = []"
  shows "api_isOpen (openMobileMenu p) \<and> phase_of (openMobileMenu p) = Opening
         \<and> timers (openMobileMenu p) = [Timer OpenDone 350]"
proof -
  from assms(1) have c: "\<not> isOpen (menu p)" "\<not> isAnimating (menu p)"
    by (auto simp: phase_of_def split: if_splits list.splits timer.splits timer_callback.splits)
  show ?thesis
    using assms(2) by (simp add: api_isOpen_def phase_of_def openMobileMenu_menu [OF c] openMobileMenu_timers [OF c])
qed

lemma phase_close_from_open:
  assumes "phase_of p = Open" and "timers p = []"
  shows "api_isOpen (closeMobileMenu p) \<and> phase_of (closeMobileMenu p) = Closing
         \<and> timers (closeMobileMenu p) = [Timer CloseDone 350]"
proof -
  from assms(1) have c: "isOpen (menu p)" "\<not> isAnimating (menu p)"
    by (auto simp: phase_of_def split: if_splits list.splits timer.splits timer_callback.splits)
  show ?thesis
    using assms(2) c(1)
    by (simp add: api_isOpen_def phase_of_def closeMobileMenu_menu [OF c] closeMobileMenu_timers [OF c])
qed

lemma timer_fires_closing:
  assumes "timers p = [Timer CloseDone 350]"
  shows "\<exists>q. dispatch TimerFires p = Some q \<and> \<not> api_isOpen q \<and> phase_of q = Closed \<and> timers q = []"
  using assms by (simp add: Let_def api_isOpen_def phase_of_def)

lemma timer_fires_opening:
  assumes "timers p = [Timer OpenDone 350]" and "isOpen (menu p)"
  shows "\<exists>q. dispatch TimerFires p = Some q \<and> api_isOpen q \<and> phase_of q = Open \<and> timers q = []"
  using assms by (simp add: Let_def api_isOpen_def phase_of_def)

lemma inv_phase:
  assumes "drawer_inv p"
  shows "api_isOpen p = (phase_of p \<noteq> Closed)"
    and "phase_of p = Closed \<or> phase_of p = Open \<Longrightarrow> timers p = []"
    and "phase_of p = Closing \<Longrightarrow> isAnimating (menu p) \<and> timers p = [Timer CloseDone 350]"
    and "phase_of p = Opening \<Longrightarrow> isAnimating (menu p) \<and> isOpen (menu p) \<and> timers p = [Timer OpenDone 350]"
  using assms
  by (auto simp: drawer_inv_def flags_consistent_def phase_of_def api_isOpen_def split: if_splits)

text \<open>
  C10.  In every page reached from the initial page, \<open>window.mobileMenu.isOpen()\<close> is
  true exactly in the phases Opening, Open and Closing.  It is true as soon as
  \<open>openMobileMenu\<close> has run on a closed drawer, before the 350 ms timer fires; it is
  still true after \<open>closeMobileMenu\<close> has run on an open drawer, which leaves a
  350 ms timer pending; while the drawer is closing, \<open>openMobileMenu\<close> returns the
  page unchanged, no sequence of events without the firing of that timer changes the
  phase or the answer of \<open>isOpen()\<close>, and the firing of the timer makes it false.
\<close>

theorem isOpen_true_until_close_timer_fires:
  assumes "run es (initial_page d b links y width) = Some p"
  shows "api_isOpen p = (phase_of p \<noteq> Closed)
         \<and> (phase_of p = Closed \<longrightarrow>
              api_isOpen (openMobileMenu p) \<and> phase_of (openMobileMenu p) = Opening
              \<and> timers (openMobileMenu p) = [Timer OpenDone 350])
         \<and> (phase_of p = Open \<longrightarrow>
              api_isOpen (closeMobileMenu p) \<and> phase_of (closeMobileMenu p) = Closing
              \<and> timers (closeMobileMenu p) = [Timer CloseDone 350])
         \<and> (phase_of p = Closing \<longrightarrow>
              openMobileMenu p = p
              \<and> (\<forall>es' q. TimerFires \<notin> set es' \<longrightarrow> run es' p = Some q \<longrightarrow>
                    api_isOpen q \<and> phase_of q = Closing \<and> openMobileMenu q = q)
              \<and> (\<exists>q. dispatch TimerFires p = Some q \<and> \<not> api_isOpen q \<and> phase_of q = Closed))"
proof -
  have inv: "drawer_inv p" using assms by (rule reachable_inv)
  have a: "api_isOpen p = (phase_of p \<noteq> Closed)" using inv by (rule inv_phase(1))
  have b: "phase_of p = Closed \<longrightarrow>
              api_isOpen (openMobileMenu p) \<and> phase_of (openMobileMenu p) = Opening
              \<and> timers (openMobileMenu p) = [Timer OpenDone 350]"
    using phase_open_from_closed inv_phase(2) [OF inv] by blast
  have c: "phase_of p = Open \<longrightarrow>
              api_isOpen (closeMobileMenu p) \<and> phase_of (closeMobileMenu p) = Closing
              \<and> timers (closeMobileMenu p) = [Timer CloseDone 350]"
    using phase_close_from_open inv_phase(2) [OF inv] by blast
  have d: "phase_of p = Closing \<longrightarrow>
              openMobileMenu p = p
              \<and> (\<forall>es' q. TimerFires \<notin> set es' \<longrightarrow> run es' p = Some q \<longrightarrow>
                    api_isOpen q \<and> phase_of q = Closing \<and> openMobileMenu q = q)
              \<and> (\<exists>q. dispatch TimerFires p = Some q \<and> \<not> api_isOpen q \<and> phase_of q = Closed)"
  proof
    assume cl: "phase_of p = Closing"
    from inv_phase(3) [OF inv cl] have an: "isAnimating (menu p)"
      and ts: "timers p = [Timer CloseDone 350]" by simp_all
    have o: "openMobileMenu p = p" using an by (simp add: openMobileMenu_guard)
    have s: "\<forall>es' q. TimerFires \<notin> set es' \<longrightarrow> run es' p = Some q \<longrightarrow>
                    api_isOpen q \<and> phase_of q = Closing \<and> openMobileMenu q = q"
    proof (intro allI impI)
      fix es' q
      assume "TimerFires \<notin> set es'" and "run es' p = Some q"
      then have f: "frozen p q" using frozen_run [OF an] by blast
      then have "isAnimating (menu q)" by (simp add: frozen_def)
      then have "openMobileMenu q = q" by (simp add: openMobileMenu_guard)
      moreover have "api_isOpen q" using frozen_phase [OF an f] a cl by simp
      moreover have "phase_of q = Closing" using frozen_phase [OF an f] cl by simp
      ultimately show "api_isOpen q \<and> phase_of q = Closing \<and> openMobileMenu q = q" by simp
    qed
    from timer_fires_closing [OF ts] o s
    show "openMobileMenu p = p
              \<and> (\<forall>es' q. TimerFires \<notin> set es' \<longrightarrow> run es' p = Some q \<longrightarrow>
                    api_isOpen q \<and> phase_of q = Closing \<and> openMobileMenu q = q)
              \<and> (\<exists>q. dispatch TimerFires p = Some q \<and> \<not> api_isOpen q \<and> phase_of q = Closed)"
      by blast
  qed
  from a b c d show ?thesis by blast
qed

lemma example_page_phase: "phase_of example_page = Closed"
  by (simp add: phase_of_def example_page_closed)

lemma example_opening_facts:
  "api_isOpen example_opening" "phase_of example_opening = Opening"
  "timers example_opening = [Timer OpenDone 350]"
  using phase_open_from_closed [OF example_page_phase example_page_closed(3)]
  by (simp_all add: example_opening_def)

lemma example_open_facts:
  "run [ApiOpen, TimerFires] example_page = Some example_open"
  "phase_of example_open = Open" "timers example_open = []"
  using example_opening_facts
  by (simp_all add: example_open_def example_opening_def [symmetric] Let_def phase_of_def api_isOpen_def)

lemma example_closing_facts:
  "run [ApiOpen, TimerFires, ApiClose] example_page = Some example_closing"
  "phase_of example_closing = Closing"
  using example_open_facts phase_close_from_open [OF example_open_facts(2,3)]
  by (simp_all add: example_closing_def split: option.splits)

theorem isOpen_true_until_close_timer_fires_witness:
  "phase_of example_page = Closed \<and> \<not> api_isOpen example_page
   \<and> api_isOpen (openMobileMenu example_page)
   \<and> phase_of example_open = Open \<and> api_isOpen example_open
   \<and> api_isOpen (closeMobileMenu example_open)
   \<and> phase_of example_closing = Closing \<and> api_isOpen example_closing
   \<and> openMobileMenu example_closing = example_closing
   \<and> (case run [ToggleClick, ApiOpen, EscapeKey] example_closing of
        None \<Rightarrow> False | Some q \<Rightarrow> api_isOpen q \<and> phase_of q = Closing)
   \<and> (case dispatch TimerFires example_closing of
        None \<Rightarrow> False | Some q \<Rightarrow> \<not> api_isOpen q \<and> phase_of q = Closed)"
proof -
  have r0: "run [] (initial_page (\<lambda>n. Some example_element) example_element 3 120 390)
            = Some example_page"
    by (simp add: example_page_def)
  have r1: "run [ApiOpen, TimerFires] (initial_page (\<lambda>n. Some example_element) example_element 3 120 390)
            = Some example_open"
    using example_open_facts(1) by (simp only: example_page_def)
  have r2: "run [ApiOpen, TimerFires, ApiClose]
              (initial_page (\<lambda>n. Some example_element) example_element 3 120 390)
            = Some example_closing"
    using example_closing_facts(1) by (simp only: example_page_def)
  note t0 = isOpen_true_until_close_timer_fires [OF r0]
  note t1 = isOpen_true_until_close_timer_fires [OF r1]
  note t2 = isOpen_true_until_close_timer_fires [OF r2]
  have c0: "phase_of example_page = Closed" by (rule example_page_phase)
  have c1: "phase_of example_open = Open" by (rule example_open_facts(2))
  have c2: "phase_of example_closing = Closing" by (rule example_closing_facts(2))
  have n: "TimerFires \<notin> set [ToggleClick, ApiOpen, EscapeKey]" by simp
  obtain q where q: "run [ToggleClick, ApiOpen, EscapeKey] example_closing = Some q"
    using run_inv [of example_closing "[ToggleClick, ApiOpen, EscapeKey]"]
      reachable_inv [OF r2] by auto
  with t2 c2 n have q': "api_isOpen q \<and> phase_of q = Closing" by blast
  from t2 c2 obtain q2 where q2: "dispatch TimerFires example_closing = Some q2"
    "\<not> api_isOpen q2" "phase_of q2 = Closed" by blast
  from t0 c0 have a0: "\<not> api_isOpen example_page" "api_isOpen (openMobileMenu example_page)"
    by simp_all
  from t1 c1 have a1: "api_isOpen example_open" "api_isOpen (closeMobileMenu example_open)"
    by simp_all
  from t2 c2 have a2: "api_isOpen example_closing" "openMobileMenu example_closing = example_closing"
    by simp_all
  show ?thesis using c0 c1 c2 a0 a1 a2 q q' q2 by simp
qed

lemma style_get_set_other: "k' \<noteq> k \<Longrightarrow> style_get k' (style_set k v el) = style_get k' el"
  by (simp add: style_get_def style_set_def update_conv' delete_conv')

lemma style_get_classList [simp]:
  "style_get k (classList_add c el) = style_get k el"
  "style_get k (classList_remove c el) = style_get k el"
  by (simp_all add: style_get_def classList_add_def classList_remove_def)

lemma disableBodyScroll_style:
  "style_get ''top'' (body (disableBodyScroll p)) = ''-'' @ number_to_string (scrollY p) @ ''px''"
  "style_get ''position'' (body (disableBodyScroll p)) = ''fixed''"
  by (simp_all add: disableBodyScroll_def Let_def style_get_set style_get_set_other)

lemma enableBodyScroll_scrollY:
  "scrollY (enableBodyScroll p) =
     (case parseInt (if style_get ''top'' (body p) = [] then ''0'' else style_get ''top'' (body p)) of
        None \<Rightarrow> 0 | Some v \<Rightarrow> max 0 (- v))"
  by (simp add: enableBodyScroll_def window_scrollTo_def Let_def split: option.splits)

lemma enableBodyScroll_style:
  "style_get ''top'' (body (enableBodyScroll p)) = []"
  "style_get ''position'' (body (enableBodyScroll p)) = []"
  by (simp_all add: enableBodyScroll_def window_scrollTo_def Let_def style_get_set style_get_set_other)

lemma openMobileMenu_body:
  assumes "\<not> isOpen (menu p)" and "\<not> isAnimating (menu p)"
  shows "style_get ''top'' (body (openMobileMenu p)) = ''-'' @ number_to_string (scrollY p) @ ''px''"
    and "style_get ''position'' (body (openMobileMenu p)) = ''fixed''"
    and "scrollY (openMobileMenu p) = scrollY p"
  using assms
  by (simp_all add: openMobileMenu_def Let_def case_prod_beta disableBodyScroll_style)

lemma closeMobileMenu_scroll:
  assumes "isOpen (menu p)" and "\<not> isAnimating (menu p)"
  shows "scrollY (closeMobileMenu p) =
     (case parseInt (if style_get ''top'' (body p) = [] then ''0'' else style_get ''top'' (body p)) of
        None \<Rightarrow> 0 | Some v \<Rightarrow> max 0 (- v))"
    and "style_get ''top'' (body (closeMobileMenu p)) = []"
    and "style_get ''position'' (body (closeMobileMenu p)) = []"
  using assms
  by (simp_all add: closeMobileMenu_def Let_def case_prod_beta enableBodyScroll_scrollY
      enableBodyScroll_style)

lemma parseInt_double_minus:
  "parseInt (''-'' @ number_to_string y @ ''px'') = None" if "y < 0"
proof -
  have "\<not> is_digit 10 CHR ''-''" by (simp add: is_digit_def digit_value_def upt_rec)
  then show ?thesis using that
    by (simp add: parseInt_def number_to_string_def is_space_def has_hex_prefix_def
        parse_digits_def split: list.splits)
qed

text \<open>The page after \<open>open()\<close>, the firing of its timer, a scroll to \<open>z\<close> and \<open>close()\<close>.\<close>

lemma open_scroll_close:
  assumes "phase_of p = Closed" and "timers p = []"
  shows "\<exists>q. run [ApiOpen, TimerFires, Scroll z, ApiClose] p = Some q
           \<and> scrollY q = (case parseInt (''-'' @ number_to_string (scrollY p) @ ''px'') of
                            None \<Rightarrow> 0 | Some v \<Rightarrow> max 0 (- v))
           \<and> phase_of q = Closing
           \<and> style_get ''top'' (body q) = [] \<and> style_get ''position'' (body q) = []"
proof -
  from assms(1) have c: "\<not> isOpen (menu p)" "\<not> isAnimating (menu p)"
    by (auto simp: phase_of_def split: if_splits list.splits timer.splits timer_callback.splits)
  define q1 where "q1 = openMobileMenu p"
  define q2 where "q2 = run_timer OpenDone (q1\<lparr>timers := []\<rparr>)"
  define q3 where "q3 = q2\<lparr>scrollY := z\<rparr>"
  have t1: "timers q1 = [Timer OpenDone 350]"
    using openMobileMenu_timers [OF c] assms(2) by (simp add: q1_def)
  have m1: "isOpen (menu q1)" using openMobileMenu_menu [OF c] by (simp add: q1_def)
  have top1: "style_get ''top'' (body q1) = ''-'' @ number_to_string (scrollY p) @ ''px''"
    using openMobileMenu_body(1) [OF c] by (simp add: q1_def)
  have o3: "isOpen (menu q3)" "\<not> isAnimating (menu q3)" "timers q3 = []"
    using m1 by (simp_all add: q3_def q2_def Let_def)
  have top3: "style_get ''top'' (body q3) = ''-'' @ number_to_string (scrollY p) @ ''px''"
    using top1 by (simp add: q3_def q2_def Let_def)
  have d1: "dispatch ApiOpen p = Some q1" by (simp add: q1_def)
  have d2: "dispatch TimerFires q1 = Some q2" using t1 by (simp add: q2_def)
  have d3: "dispatch (Scroll z) q2 = Some q3" by (simp add: q3_def)
  have d4: "dispatch ApiClose q3 = Some (closeMobileMenu q3)" by simp
  have r: "run [ApiOpen, TimerFires, Scroll z, ApiClose] p = Some (closeMobileMenu q3)"
    by (simp only: run.simps d1 d2 d3 d4 option.case)
  have ph: "phase_of (closeMobileMenu q3) = Closing"
    using o3 by (simp add: phase_of_def closeMobileMenu_menu closeMobileMenu_timers)
  show ?thesis
    using r ph closeMobileMenu_scroll [OF o3(1,2)] top3 by simp
qed

text \<open>
  C3, as the code has it.  For a closed drawer and a scroll offset \<open>y \<ge> 0\<close> of the
  document: after
  \<open>open()\<close> (which fixes the body and writes \<open>-ypx\<close> into its \<open>top\<close>), the end of
  the opening animation, any displacement \<open>z\<close> of the scroll offset while the body is
  fixed, and \<open>close()\<close>, the \<open>position\<close> and \<open>top\<close> of the body are released and
  the scroll offset of the document is \<open>y\<close> again.
\<close>

theorem open_close_restores_scroll_offset:
  assumes "phase_of p = Closed" and "timers p = []" and "0 \<le> scrollY p"
  shows "style_get ''top'' (body (openMobileMenu p)) = ''-'' @ number_to_string (scrollY p) @ ''px''
         \<and> style_get ''position'' (body (openMobileMenu p)) = ''fixed''
         \<and> (\<exists>q. run [ApiOpen, TimerFires, Scroll z, ApiClose] p = Some q
                \<and> scrollY q = scrollY p
                \<and> style_get ''top'' (body q) = [] \<and> style_get ''position'' (body q) = [])"
proof -
  from assms(1) have c: "\<not> isOpen (menu p)" "\<not> isAnimating (menu p)"
    by (auto simp: phase_of_def split: if_splits list.splits timer.splits timer_callback.splits)
  from open_scroll_close [OF assms(1,2), of z] obtain q where
    q: "run [ApiOpen, TimerFires, Scroll z, ApiClose] p = Some q"
      "scrollY q = (case parseInt (''-'' @ number_to_string (scrollY p) @ ''px'') of
                            None \<Rightarrow> 0 | Some v \<Rightarrow> max 0 (- v))"
      "style_get ''top'' (body q) = []" "style_get ''position'' (body q) = []"
    by blast
  have "scrollY q = scrollY p"
    using q(2) assms(3) parseInt_top_roundtrip [of "scrollY p"] by simp
  with q openMobileMenu_body(1,2) [OF c] show ?thesis by blast
qed

theorem open_close_restores_scroll_offset_witness:
  "phase_of example_scrolled = Closed \<and> timers example_scrolled = []
   \<and> (0::int) \<le> scrollY example_scrolled \<and> scrollY example_scrolled = 1205
   \<and> style_get ''top'' (body (openMobileMenu example_scrolled)) = ''-1205px''
   \<and> (case run [ApiOpen, TimerFires, Scroll 0, ApiClose] example_scrolled of
        None \<Rightarrow> False | Some q \<Rightarrow> scrollY q = 1205)"
proof -
  have h: "phase_of example_scrolled = Closed" "timers example_scrolled = []"
    "0 \<le> scrollY example_scrolled" "scrollY example_scrolled = 1205"
    by (simp_all add: example_scrolled_def initial_page_def MobileMenu_initial_def phase_of_def)
  have n: "number_to_string 1205 = ''1205''"
    by (simp add: number_to_string_def nat_to_string.simps digit_char_def)
  from open_close_restores_scroll_offset [OF h(1-3), of 0] h n show ?thesis
    by auto
qed

lemma open_scroll_close_run:
  assumes "phase_of p = Closed" and "timers p = []"
  shows "run [ApiOpen, TimerFires, Scroll z, ApiClose] p
         = Some (closeMobileMenu
                  ((run_timer OpenDone ((openMobileMenu p)\<lparr>timers := []\<rparr>))\<lparr>scrollY := z\<rparr>))"
proof -
  from assms(1) have c: "\<not> isOpen (menu p)" "\<not> isAnimating (menu p)"
    by (simp_all add: phase_of_Closed)
  define q1 where "q1 = openMobileMenu p"
  define q2 where "q2 = run_timer OpenDone (q1\<lparr>timers := []\<rparr>)"
  define q3 where "q3 = q2\<lparr>scrollY := z\<rparr>"
  have t1: "timers q1 = [Timer OpenDone 350]"
    using openMobileMenu_timers [OF c] assms(2) by (simp add: q1_def)
  have d1: "dispatch ApiOpen p = Some q1" by (simp add: q1_def)
  have d2: "dispatch TimerFires q1 = Some q2" using t1 by (simp add: q2_def)
  have d3: "dispatch (Scroll z) q2 = Some q3" by (simp add: q3_def)
  have d4: "dispatch ApiClose q3 = Some (closeMobileMenu q3)" by simp
  have "run [ApiOpen, TimerFires, Scroll z, ApiClose] p = Some (closeMobileMenu q3)"
    by (simp only: run.simps d1 d2 d3 d4 option.case)
  then show ?thesis by (simp only: q3_def q2_def q1_def)
qed

text \<open>
  C3 as stated fails for a negative offset: at the offset \<open>-5\<close> the body gets the
  \<open>top\<close> \<open>--5px\<close>, which \<open>parseInt\<close> reads as NaN, and after \<open>open()\<close> and
  \<open>close()\<close> the document is at offset 0.
\<close>

theorem negative_offset_is_not_restored:
  "scrollY example_overscrolled = - 5
   \<and> style_get ''top'' (body (openMobileMenu example_overscrolled)) = ''--5px''
   \<and> parseInt ''--5px'' = None
   \<and> run [ApiOpen, TimerFires, Scroll 0, ApiClose] example_overscrolled
       = Some example_overscrolled_after
   \<and> scrollY example_overscrolled_after = 0
   \<and> scrollY example_overscrolled_after \<noteq> scrollY example_overscrolled"
proof -
  have h: "phase_of example_overscrolled = Closed" "timers example_overscrolled = []"
    "scrollY example_overscrolled = - 5"
    by (simp_all add: example_overscrolled_def initial_page_def MobileMenu_initial_def phase_of_def)
  have c: "\<not> isOpen (menu example_overscrolled)" "\<not> isAnimating (menu example_overscrolled)"
    using h(1) by (simp_all add: phase_of_Closed)
  have n: "number_to_string (- 5) = ''-5''"
    by (simp add: number_to_string_def nat_to_string.simps digit_char_def)
  have top: "style_get ''top'' (body (openMobileMenu example_overscrolled)) = ''--5px''"
    using openMobileMenu_body(1) [OF c] by (simp add: h(3) n)
  have pi: "parseInt ''--5px'' = None"
    using parseInt_double_minus [of "- 5"] by (simp add: n)
  have r: "run [ApiOpen, TimerFires, Scroll 0, ApiClose] example_overscrolled
       = Some example_overscrolled_after"
    unfolding example_overscrolled_after_def by (rule open_scroll_close_run [OF h(1,2)])
  from open_scroll_close [OF h(1,2), of 0] r
  have "scrollY example_overscrolled_after
          = (case parseInt (''-'' @ number_to_string (scrollY example_overscrolled) @ ''px'') of
               None \<Rightarrow> 0 | Some v \<Rightarrow> max 0 (- v))"
    by auto
  then have z: "scrollY example_overscrolled_after = 0"
    using pi by (simp add: h(3) n)
  from h(3) top pi r z show ?thesis by simp
qed

text \<open>The same for every negative offset: the text \<open>--Npx\<close> is read back as NaN and
  the document is scrolled to the top.\<close>

lemma negative_offset_scrolls_to_top:
  assumes "phase_of p = Closed" and "timers p = []" and "scrollY p < 0"
  shows "\<exists>q. run [ApiOpen, TimerFires, Scroll z, ApiClose] p = Some q \<and> scrollY q = 0"
proof -
  from open_scroll_close [OF assms(1,2), of z] obtain q where
    q: "run [ApiOpen, TimerFires, Scroll z, ApiClose] p = Some q"
      "scrollY q = (case parseInt (''-'' @ number_to_string (scrollY p) @ ''px'') of
                            None \<Rightarrow> 0 | Some v \<Rightarrow> max 0 (- v))"
    by blast
  have "scrollY q = 0"
    using q(2) parseInt_double_minus [OF assms(3)] by simp
  with q(1) show ?thesis by blast
qed

lemma style_set_empty_idem: "style_set k [] (style_set k [] el) = style_set k [] el"
  by (simp add: style_set_def delete_idem)

lemma nav_touchend_open:
  assumes "isOpen (menu p)" and "\<not> isAnimating (menu p)" and "dom p MobileNav = Some nav"
  shows "nav_touchend x now p =
     Some (if x - touchStartX (menu p) > swipeThreshold (menu p)
              \<or> js_gt (js_div (x - touchStartX (menu p))
                         (map_option (\<lambda>t. now - t) (touchStartTime (menu p)))) (3 / 10)
           then closeMobileMenu (p\<lparr>dom := (dom p)(MobileNav \<mapsto> style_set ''transform'' [] nav)\<rparr>)
           else p\<lparr>dom := (dom p)(MobileNav \<mapsto> style_set ''transform'' [] nav)\<rparr>)"
  using assms by (simp add: nav_touchend_def Let_def)

lemma nav_touchend_idem:
  assumes "nav_touchend x now p = Some q"
  shows "nav_touchend x now q = Some q"
proof (cases "\<not> isOpen (menu p) \<or> isAnimating (menu p)")
  case True
  then show ?thesis using assms by (auto simp: nav_touchend_def)
next
  case False
  then have o: "isOpen (menu p)" "\<not> isAnimating (menu p)" by simp_all
  from assms o obtain nav where nav: "dom p MobileNav = Some nav"
    by (auto simp: nav_touchend_def Let_def split: option.splits)
  define p1 where "p1 = p\<lparr>dom := (dom p)(MobileNav \<mapsto> style_set ''transform'' [] nav)\<rparr>"
  define c where "c = (x - touchStartX (menu p) > swipeThreshold (menu p)
              \<or> js_gt (js_div (x - touchStartX (menu p))
                         (map_option (\<lambda>t. now - t) (touchStartTime (menu p)))) (3 / 10))"
  have q: "q = (if c then closeMobileMenu p1 else p1)"
    using assms nav_touchend_open [OF o nav, of x now] by (auto simp: p1_def c_def)
  have o1: "isOpen (menu p1)" "\<not> isAnimating (menu p1)"
    "dom p1 MobileNav = Some (style_set ''transform'' [] nav)" "menu p1 = menu p"
    using o by (simp_all add: p1_def)
  show ?thesis
  proof (cases c)
    case True
    then have "isAnimating (menu q)" using q o1 by (simp add: closeMobileMenu_menu)
    then show ?thesis by (simp add: nav_touchend_def)
  next
    case False
    have "p1\<lparr>dom := (dom p1)(MobileNav \<mapsto> style_set ''transform'' [] (style_set ''transform'' [] nav))\<rparr> = p1"
      by (simp add: p1_def style_set_empty_idem)
    then show ?thesis
      using False q nav_touchend_open [OF o1(1,2,3), of x now] o1(4) by (simp add: c_def)
  qed
qed

lemma run_listeners_idem:
  assumes "h p = Some q" and "h q = Some q" and "n > 0"
  shows "run_listeners n h p = Some q"
proof -
  from assms(3) obtain m where "n = Suc m" by (cases n) auto
  then show ?thesis using assms(1) assms(2) run_listeners_id [of h q m] by simp
qed

lemma dispatch_swipe_release:
  assumes "dom p MobileNav \<noteq> None" and "swipeListeners p > 0"
  shows "dispatch (SwipeRelease x now) p = nav_touchend x now p"
proof (cases "nav_touchend x now p")
  case None
  from assms(2) obtain m where "swipeListeners p = Suc m" by (cases "swipeListeners p") auto
  then show ?thesis using None assms(1) by simp
next
  case (Some q)
  from assms(1) obtain nav where "dom p MobileNav = Some nav" by auto
  with run_listeners_idem [OF Some nav_touchend_idem [OF Some] assms(2)] Some
  show ?thesis by simp
qed

text \<open>
  C2.  On an open drawer whose panel has the swipe listeners, with a touch started at
  time \<open>t0\<close>, a release at horizontal displacement \<open>dx\<close> after \<open>dt = now - t0\<close>
  milliseconds: when the velocity \<open>dx/dt\<close> does not exceed 0.3 and \<open>dx\<close> is the
  threshold plus 1, the drawer starts closing and is Closed once the timer fires; when
  the velocity does not exceed 0.3 and \<open>dx\<close> is the threshold minus 1, the page is the
  old page with the transform of the panel reset, still Open, with no timer set; when
  the velocity exceeds 0.3 the drawer closes whatever \<open>dx\<close> is.
\<close>

theorem swipe_release_threshold:
  assumes "phase_of p = Open" and "timers p = []"
    and "dom p MobileNav = Some nav" and "swipeListeners p > 0"
    and "touchStartTime (menu p) = Some t0"
  shows "(\<not> js_gt (js_div (touchEndX - touchStartX (menu p)) (Some (now - t0))) (3 / 10)
          \<and> touchEndX - touchStartX (menu p) = swipeThreshold (menu p) + 1
          \<or> js_gt (js_div (touchEndX - touchStartX (menu p)) (Some (now - t0))) (3 / 10)
          \<longrightarrow> (\<exists>q q'. dispatch (SwipeRelease touchEndX now) p = Some q \<and> phase_of q = Closing
                   \<and> dispatch TimerFires q = Some q' \<and> phase_of q' = Closed))
       \<and> (\<not> js_gt (js_div (touchEndX - touchStartX (menu p)) (Some (now - t0))) (3 / 10)
          \<and> touchEndX - touchStartX (menu p) = swipeThreshold (menu p) - 1
          \<longrightarrow> dispatch (SwipeRelease touchEndX now) p
                = Some (p\<lparr>dom := (dom p)(MobileNav \<mapsto> style_set ''transform'' [] nav)\<rparr>)
              \<and> style_get ''transform'' (style_set ''transform'' [] nav) = []
              \<and> phase_of (p\<lparr>dom := (dom p)(MobileNav \<mapsto> style_set ''transform'' [] nav)\<rparr>) = Open
              \<and> timers (p\<lparr>dom := (dom p)(MobileNav \<mapsto> style_set ''transform'' [] nav)\<rparr>) = [])"
proof -
  from assms(1) have o: "isOpen (menu p)" "\<not> isAnimating (menu p)"
    by (simp_all add: phase_of_Open)
  define p1 where "p1 = p\<lparr>dom := (dom p)(MobileNav \<mapsto> style_set ''transform'' [] nav)\<rparr>"
  define dx where "dx = touchEndX - touchStartX (menu p)"
  define fast where "fast = js_gt (js_div dx (Some (now - t0))) (3 / 10)"
  have d: "dispatch (SwipeRelease touchEndX now) p =
           Some (if dx > swipeThreshold (menu p) \<or> fast then closeMobileMenu p1 else p1)"
    using dispatch_swipe_release [of p touchEndX now] assms(3,4,5)
      nav_touchend_open [OF o assms(3), of touchEndX now]
    by (simp add: p1_def dx_def fast_def)
  have o1: "phase_of p1 = Open" "timers p1 = []"
    using assms(2) o by (simp_all add: p1_def phase_of_Open)
  have cl: "\<exists>q'. phase_of (closeMobileMenu p1) = Closing
              \<and> dispatch TimerFires (closeMobileMenu p1) = Some q' \<and> phase_of q' = Closed"
    using phase_close_from_open [OF o1] timer_fires_closing [of "closeMobileMenu p1"] by blast
  have a: "(\<not> fast \<and> dx = swipeThreshold (menu p) + 1 \<or> fast)
          \<longrightarrow> (\<exists>q q'. dispatch (SwipeRelease touchEndX now) p = Some q \<and> phase_of q = Closing
                   \<and> dispatch TimerFires q = Some q' \<and> phase_of q' = Closed)"
    using d cl by auto
  have b: "\<not> fast \<and> dx = swipeThreshold (menu p) - 1
          \<longrightarrow> dispatch (SwipeRelease touchEndX now) p = Some p1
              \<and> style_get ''transform'' (style_set ''transform'' [] nav) = []
              \<and> phase_of p1 = Open \<and> timers p1 = []"
    using d o1 by (simp add: style_get_set)
  from a b show ?thesis unfolding p1_def dx_def fast_def by blast
qed

lemma example_touched_facts:
  "phase_of example_touched = Open" "timers example_touched = []"
  "dom example_touched MobileNav \<noteq> None"
  "swipeListeners example_touched > 0" "touchStartTime (menu example_touched) = Some 1000"
  "touchStartX (menu example_touched) = 100" "swipeThreshold (menu example_touched) = 50"
proof -
  have m: "swipeThreshold (menu example_open) = 50"
    by (simp add: example_open_def example_opening_def Let_def
        openMobileMenu_menu [OF example_page_closed(1,2)])
      (simp add: example_page_def initial_page_def MobileMenu_initial_def)
  have n: "dom example_open MobileNav \<noteq> None"
    using openMobileMenu_present [of example_page MobileNav]
    by (simp add: example_open_def example_opening_def Let_def)
      (simp add: example_page_def initial_page_def)
  show "phase_of example_touched = Open" "timers example_touched = []"
    "dom example_touched MobileNav \<noteq> None"
    "swipeListeners example_touched > 0" "touchStartTime (menu example_touched) = Some 1000"
    "touchStartX (menu example_touched) = 100" "swipeThreshold (menu example_touched) = 50"
    using example_open_facts(2,3) m n
    by (simp_all add: example_touched_def nav_touchstart_def phase_of_Open)
qed

theorem swipe_release_threshold_witness:
  "phase_of example_touched = Open \<and> swipeThreshold (menu example_touched) = 50
   \<and> \<not> js_gt (js_div (151 - touchStartX (menu example_touched)) (Some (1200 - 1000))) (3 / 10)
   \<and> (case dispatch (SwipeRelease 151 1200) example_touched of
        None \<Rightarrow> False | Some q \<Rightarrow> phase_of q = Closing)
   \<and> \<not> js_gt (js_div (149 - touchStartX (menu example_touched)) (Some (1200 - 1000))) (3 / 10)
   \<and> (case dispatch (SwipeRelease 149 1200) example_touched of
        None \<Rightarrow> False | Some q \<Rightarrow> phase_of q = Open \<and> timers q = [])
   \<and> js_gt (js_div (130 - touchStartX (menu example_touched)) (Some (1050 - 1000))) (3 / 10)
   \<and> (case dispatch (SwipeRelease 130 1050) example_touched of
        None \<Rightarrow> False | Some q \<Rightarrow> phase_of q = Closing)"
proof -
  note f = example_touched_facts
  from f(3) obtain nav where nav: "dom example_touched MobileNav = Some nav" by auto
  note th = swipe_release_threshold [OF f(1) f(2) nav f(4) f(5)]
  have v1: "\<not> js_gt (js_div (151 - touchStartX (menu example_touched)) (Some (1200 - 1000))) (3 / 10)"
    and v2: "\<not> js_gt (js_div (149 - touchStartX (menu example_touched)) (Some (1200 - 1000))) (3 / 10)"
    and v3: "js_gt (js_div (130 - touchStartX (menu example_touched)) (Some (1050 - 1000))) (3 / 10)"
    by (simp_all add: f(6) js_div_def)
  have d1: "151 - touchStartX (menu example_touched) = swipeThreshold (menu example_touched) + 1"
    and d2: "149 - touchStartX (menu example_touched) = swipeThreshold (menu example_touched) - 1"
    by (simp_all add: f(6,7))
  from th [of 151 1200] v1 d1 have c1: "case dispatch (SwipeRelease 151 1200) example_touched of
        None \<Rightarrow> False | Some q \<Rightarrow> phase_of q = Closing" by auto
  from th [of 149 1200] v2 d2 have c2: "case dispatch (SwipeRelease 149 1200) example_touched of
        None \<Rightarrow> False | Some q \<Rightarrow> phase_of q = Open \<and> timers q = []" by auto
  from th [of 130 1050] v3 have c3: "case dispatch (SwipeRelease 130 1050) example_touched of
        None \<Rightarrow> False | Some q \<Rightarrow> phase_of q = Closing" by auto
  from f(1) f(7) v1 v2 v3 c1 c2 c3 show ?thesis by blast
qed

lemma closeMobileMenu_body_released:
  assumes "isOpen (menu p)" and "\<not> isAnimating (menu p)"
  shows "''menu-open'' \<notin> set (classList (body (closeMobileMenu p)))"
proof -
  have e: "\<And>q. classList (body (enableBodyScroll q)) = classList (body q)"
    by (simp add: enableBodyScroll_def window_scrollTo_def Let_def style_set_def)
  show ?thesis using assms
    by (simp add: closeMobileMenu_def Let_def case_prod_beta e classList_remove_def)
qed

lemma resized_frame:
  "isOpen (menu (resized w nw p)) = isOpen (menu p)"
  "isAnimating (menu (resized w nw p)) = isAnimating (menu p)"
  "timers (resized w nw p) = timers p"
  "innerWidth (resized w nw p) = w"
  by (simp_all add: resized_def Let_def split: option.splits)

lemma dispatch_resize:
  assumes "resizeListener p"
  shows "dispatch (Resize w nw) p =
     Some (if w > 768 \<and> isOpen (menu p) then closeMobileMenu (resized w nw p) else resized w nw p)"
  using assms
  by (simp add: handleMenuResize_def resized_def Let_def split: option.splits)

text \<open>
  C9, as the code has it.  With the resize listener registered and a new window width
  above 768 (tablet or desktop class): on an Open drawer the resize runs the ordinary \<open>closeMobileMenu\<close>, so the
  drawer is Closing at once (the body is released, \<open>isOpen()\<close> is still true, the
  350 ms timer is pending) and is Closed when that timer fires; on a drawer whose
  animating flag is set the same guarded call changes neither the flags nor the timers.
\<close>

theorem resize_to_desktop_starts_ordinary_close:
  assumes "resizeListener p" and "isTablet width \<or> isDesktop width"
  shows "(phase_of p = Open \<and> timers p = [] \<longrightarrow>
            dispatch (Resize width navWidth) p = Some (closeMobileMenu (resized width navWidth p))
            \<and> phase_of (closeMobileMenu (resized width navWidth p)) = Closing
            \<and> api_isOpen (closeMobileMenu (resized width navWidth p))
            \<and> timers (closeMobileMenu (resized width navWidth p)) = [Timer CloseDone 350]
            \<and> ''menu-open'' \<notin> set (classList (body (closeMobileMenu (resized width navWidth p))))
            \<and> style_get ''position'' (body (closeMobileMenu (resized width navWidth p))) = []
            \<and> (\<exists>q'. dispatch TimerFires (closeMobileMenu (resized width navWidth p)) = Some q'
                   \<and> phase_of q' = Closed \<and> \<not> api_isOpen q'))
       \<and> (isAnimating (menu p) \<longrightarrow>
            dispatch (Resize width navWidth) p = Some (resized width navWidth p)
            \<and> frozen p (resized width navWidth p))"
proof -
  define r where "r = resized width navWidth p"
  have w: "width > 768" using assms(2) by (auto simp: isTablet_def isDesktop_def)
  have d: "dispatch (Resize width navWidth) p =
           Some (if isOpen (menu p) then closeMobileMenu r else r)"
    using dispatch_resize [OF assms(1), of width navWidth] w by (simp add: r_def)
  have a: "phase_of p = Open \<and> timers p = [] \<longrightarrow>
            dispatch (Resize width navWidth) p = Some (closeMobileMenu r)
            \<and> phase_of (closeMobileMenu r) = Closing
            \<and> api_isOpen (closeMobileMenu r)
            \<and> timers (closeMobileMenu r) = [Timer CloseDone 350]
            \<and> ''menu-open'' \<notin> set (classList (body (closeMobileMenu r)))
            \<and> style_get ''position'' (body (closeMobileMenu r)) = []
            \<and> (\<exists>q'. dispatch TimerFires (closeMobileMenu r) = Some q'
                   \<and> phase_of q' = Closed \<and> \<not> api_isOpen q')"
  proof
    assume h: "phase_of p = Open \<and> timers p = []"
    then have o: "isOpen (menu p)" "\<not> isAnimating (menu p)" by (simp_all add: phase_of_Open)
    then have or: "isOpen (menu r)" "\<not> isAnimating (menu r)" "timers r = []"
      using h by (simp_all add: r_def resized_frame)
    then have pr: "phase_of r = Open" by (simp add: phase_of_Open)
    from phase_close_from_open [OF pr or(3)] timer_fires_closing [of "closeMobileMenu r"]
      closeMobileMenu_body_released [OF or(1,2)] closeMobileMenu_scroll(3) [OF or(1,2)] d o(1)
    show "dispatch (Resize width navWidth) p = Some (closeMobileMenu r)
            \<and> phase_of (closeMobileMenu r) = Closing
            \<and> api_isOpen (closeMobileMenu r)
            \<and> timers (closeMobileMenu r) = [Timer CloseDone 350]
            \<and> ''menu-open'' \<notin> set (classList (body (closeMobileMenu r)))
            \<and> style_get ''position'' (body (closeMobileMenu r)) = []
            \<and> (\<exists>q'. dispatch TimerFires (closeMobileMenu r) = Some q'
                   \<and> phase_of q' = Closed \<and> \<not> api_isOpen q')"
      by auto
  qed
  have b: "isAnimating (menu p) \<longrightarrow>
            dispatch (Resize width navWidth) p = Some r \<and> frozen p r"
  proof
    assume an: "isAnimating (menu p)"
    then have "isAnimating (menu r)" by (simp add: r_def resized_frame)
    then have "closeMobileMenu r = r" by (simp add: closeMobileMenu_guard)
    with d have "dispatch (Resize width navWidth) p = Some r" by simp
    moreover have "frozen p r" using an by (simp add: frozen_def r_def resized_frame)
    ultimately show "dispatch (Resize width navWidth) p = Some r \<and> frozen p r" by simp
  qed
  from a b show ?thesis unfolding r_def by blast
qed

lemma example_mobile_open_facts:
  "resizeListener example_mobile_open" "phase_of example_mobile_open = Open"
  "timers example_mobile_open = []" "innerWidth example_mobile_open = 390"
proof -
  have "innerWidth example_open = 390"
    by (simp add: example_open_def example_opening_def Let_def)
      (simp add: example_page_def initial_page_def)
  then show "resizeListener example_mobile_open" "phase_of example_mobile_open = Open"
    "timers example_mobile_open = []" "innerWidth example_mobile_open = 390"
    using example_open_facts(2,3) by (simp_all add: example_mobile_open_def phase_of_Open)
qed

theorem resize_to_desktop_starts_ordinary_close_witness:
  "resizeListener example_mobile_open \<and> isMobile (innerWidth example_mobile_open)
   \<and> isDesktop 1280
   \<and> phase_of example_mobile_open = Open \<and> timers example_mobile_open = []
   \<and> dispatch (Resize 1280 280) example_mobile_open = Some example_after_resize
   \<and> phase_of example_after_resize = Closing
   \<and> timers example_after_resize = [Timer CloseDone 350]
   \<and> isAnimating (menu example_after_resize)
   \<and> dispatch (Resize 1280 280) (example_after_resize\<lparr>innerWidth := 390\<rparr>)
       = Some (resized 1280 280 (example_after_resize\<lparr>innerWidth := 390\<rparr>))"
proof -
  note f = example_mobile_open_facts
  have w: "isTablet 1280 \<or> isDesktop 1280" and w': "isDesktop 1280"
    and m: "isMobile (innerWidth example_mobile_open)"
    by (simp_all add: isTablet_def isDesktop_def isMobile_def f(4))
  note t1 = resize_to_desktop_starts_ordinary_close [OF f(1) w, of 280]
  from t1 f(2,3) have c: "dispatch (Resize 1280 280) example_mobile_open = Some example_after_resize"
    "phase_of example_after_resize = Closing"
    "timers example_after_resize = [Timer CloseDone 350]"
    by (simp_all add: example_after_resize_def)
  have an: "isAnimating (menu example_after_resize)"
    using c(2) by (auto simp: phase_of_def split: if_splits)
  have rl: "resizeListener (example_after_resize\<lparr>innerWidth := 390\<rparr>)"
    using f(1) by (simp add: example_after_resize_def resized_def Let_def split: option.splits)
  have an': "isAnimating (menu (example_after_resize\<lparr>innerWidth := 390\<rparr>))" using an by simp
  note t2 = resize_to_desktop_starts_ordinary_close [OF rl w, of 280]
  from t2 an' have "dispatch (Resize 1280 280) (example_after_resize\<lparr>innerWidth := 390\<rparr>)
       = Some (resized 1280 280 (example_after_resize\<lparr>innerWidth := 390\<rparr>))" by blast
  with f w' m c an show ?thesis by blast
qed

text \<open>
  C9 as stated fails: right after the resize from 390 to 1280 pixels the open drawer
  is in the phase Closing, not Closed, and \<open>isOpen()\<close> still answers true.
\<close>

theorem resize_does_not_close_immediately:
  "phase_of example_mobile_open = Open \<and> innerWidth example_mobile_open = 390
   \<and> isMobile (innerWidth example_mobile_open) \<and> isDesktop 1280
   \<and> dispatch (Resize 1280 280) example_mobile_open = Some example_after_resize
   \<and> phase_of example_after_resize \<noteq> Closed
   \<and> api_isOpen example_after_resize"
proof -
  note f = example_mobile_open_facts
  have o: "isOpen (menu (resized 1280 280 example_mobile_open))"
    "\<not> isAnimating (menu (resized 1280 280 example_mobile_open))"
    "timers (resized 1280 280 example_mobile_open) = []"
    using f(2,3) by (simp_all add: resized_frame phase_of_Open)
  then have "phase_of (resized 1280 280 example_mobile_open) = Open" by (simp add: phase_of_Open)
  from phase_close_from_open [OF this o(3)]
  have c: "phase_of example_after_resize = Closing" "api_isOpen example_after_resize"
    by (simp_all add: example_after_resize_def)
  have d: "dispatch (Resize 1280 280) example_mobile_open = Some example_after_resize"
    using dispatch_resize [OF f(1), of 1280 280] f(2)
    by (simp add: example_after_resize_def phase_of_Open)
  from f c d show ?thesis by (simp add: isMobile_def isDesktop_def)
qed



lemma anchorTimers_handlers [simp]:
  "anchorTimers (toggle_click p) = anchorTimers p"
  "anchorTimers (overlay_click p) = anchorTimers p"
  "anchorTimers (escape_keydown p) = anchorTimers p"
  "anchorTimers (nav_touchstart x y t p) = anchorTimers p"
  "anchorTimers (overlay_touchstart x y p) = anchorTimers p"
  "anchorTimers (overlay_touchend x p) = anchorTimers p"
  "anchorTimers (handleMenuResize p) = anchorTimers p"
  "anchorTimers (handleOutsideClick a c p) = anchorTimers p"
  "anchorTimers (api_toggle p) = anchorTimers p"
  "anchorTimers (run_timer cb p) = anchorTimers p"
  by (cases cb; simp add: toggle_click_def overlay_click_def escape_keydown_def nav_touchstart_def
      overlay_touchstart_def overlay_touchend_def handleMenuResize_def handleOutsideClick_def
      api_toggle_def Let_def split: option.splits; fail)+


lemma anchorTimers_focus_trap:
  "focus_trap_keydown s p = Some q \<Longrightarrow> anchorTimers q = anchorTimers p"
  by (auto simp: focus_trap_keydown_def split: if_splits option.splits)














text \<open>
  The focus trap calls \<open>focus()\<close> on the close button without a check: with the
  close button missing, Shift+Tab on the first link of the open drawer raises a
  TypeError.
\<close>

lemma focus_trap_raises_without_close_button:
  assumes "isOpen (menu p)" and "dom p MobileCloseBtn = None" and "navLinks p > 0"
    and "activeElement p = FocusLink 0" and "keyboardListeners p > 0"
  shows "dispatch (TabKey True) p = None"
proof -
  from assms(5) obtain n where "keyboardListeners p = Suc n" by (cases "keyboardListeners p") auto
  then show ?thesis using assms(1-4) by (simp add: focus_trap_keydown_def)
qed

text \<open>
  The callback of \<open>handleAnchorLinkClick\<close> calls \<open>querySelector\<close> without a
  check: on a page with all four elements, after a click on a link whose \<open>href\<close> is
  \<open>#\<close> the callback that fires 400 ms later raises a SyntaxError, whatever the
  document contains; no click of this kind raises by itself.
\<close>

lemma link_click_hash_sets_callback:
  "anchorTimers (link_click (Some ''#'') p) = anchorTimers p @ [''#'']"
  by (simp add: link_click_def handleAnchorLinkClick_def Let_def)

lemma anchor_callback_raises_for_hash:
  assumes "menuListeners p = 1" and "navLinks p > 0" and "anchorTimers p = []"
  shows "dispatch (LinkClickHref ''#'') p = Some (link_click (Some ''#'') p)"
    and "dispatch (AnchorTimerFires x) (link_click (Some ''#'') p) = None"
  using assms link_click_hash_sets_callback [of p]
  by (simp_all add: anchor_callback_def)

section \<open>Proofs: the fleet client and renderer\<close>

lemma getJson_fails: "fetch_fails out \<Longrightarrow> \<exists>e. getJson out = Inl e"
  by (auto simp: fetch_fails_def getJson_def split: fetch_outcome.splits option.splits)

lemma getJson_ok: "200 \<le> s \<Longrightarrow> s \<le> 299 \<Longrightarrow> getJson (Response s (Some j)) = Inr j"
  by (simp add: getJson_def)

lemma fetchCars_resume_frame:
  "pending (fetchCars_resume r out fm) = pending fm"
  "issued (fetchCars_resume r out fm) = issued fm"
  "\<not> isLoading (fetchCars_resume r out fm)"
  "categories (fetchCars_resume r out fm) = categories fm"
  by (cases r; simp add: fetchCars_resume_def renderCars_def showError_def Let_def
      split: sum.splits json.splits if_splits; fail)+

lemma fetchCars_resume_grid:
  "carsGrid (fetchCars_resume (Request n c True) out fm) = render_of out (categories fm)"
  by (simp add: fetchCars_resume_def render_of_def renderCars_def showError_def Let_def
      split: sum.splits json.splits list.splits)

lemma serialized_onFilterClick: "serialized fm \<Longrightarrow> serialized (onFilterClick c fm)"
  by (simp add: serialized_def onFilterClick_def fetchCars_call_def showSkeleton_def)

lemma serialized_answer: "serialized fm \<Longrightarrow> serialized (fleet_step (Answer n out) fm)"
proof (cases "isLoading fm")
  case False
  assume "serialized fm"
  with False have "pending fm = []" by (simp add: serialized_def)
  then show ?thesis using \<open>serialized fm\<close> by simp
next
  case True
  assume s: "serialized fm"
  with True obtain r where r: "pending fm = [r]" "request_id r = issued fm - 1"
    by (auto simp: serialized_def)
  show ?thesis
  proof (cases "request_id r = n")
    case True
    then have "fleet_step (Answer n out) fm = fetchCars_resume r out (fm\<lparr>pending := []\<rparr>)"
      using r by simp
    then show ?thesis by (simp add: serialized_def fetchCars_resume_frame)
  next
    case False
    then show ?thesis using r s by simp
  qed
qed

lemma serialized_step: "serialized fm \<Longrightarrow> \<not> is_direct e \<Longrightarrow> serialized (fleet_step e fm)"
  by (cases e) (simp_all add: serialized_onFilterClick serialized_answer del: fleet_step.simps(3))

lemma serialized_run:
  "serialized fm \<Longrightarrow> \<forall>e \<in> set es. \<not> is_direct e \<Longrightarrow> serialized (fleet_run es fm)"
  by (induction es arbitrary: fm) (simp_all add: serialized_step)

lemma answer_renders:
  assumes "find (\<lambda>r. request_id r = n) (pending fm) = Some (Request n c True)"
  shows "carsGrid (fleet_step (Answer n out) fm) = render_of out (categories fm)"
  using assms by (simp add: fetchCars_resume_grid)

lemma example_cars_printable:
  "\<not> createCarCard_raises (JArr []) example_economy_car"
  "\<not> createCarCard_raises (JArr []) example_suv_car"
  by (simp_all add: createCarCard_raises_def getCarImage_raises_def unprintable_member_def
      own_member_def example_economy_car_def example_suv_car_def)

lemma example_fleet_loading_facts:
  "isLoading example_fleet_loading" "pending example_fleet_loading = [Request 0 None True]"
  "issued example_fleet_loading = 1" "serialized example_fleet_loading"
  "cars example_fleet_loading = []" "categories example_fleet_loading = JArr []"
  by (simp_all add: example_fleet_loading_def loadAllCars_def FleetManager_new_def
      fetchCars_call_def showSkeleton_def serialized_def)

text \<open>
  C4, as the code has it.  The code keeps no sequence number.  Requests issued by the
  page itself are serialized by the busy flag: starting from a serialized manager, after
  any sequence of filter clicks and answers at most one request is pending, the one
  issued last, and the flag is set exactly then; a filter click while the flag is set
  issues nothing and changes nothing.  Every answer to a pending request of the API
  overwrites the grid with the rendering of that answer (its cards, the message for no
  cars, or the error markup when the request was rejected or a card cannot be
  rendered), whatever was issued after it.
\<close>

theorem filter_requests_serialized_by_busy_flag:
  assumes "serialized fm" and "\<forall>e \<in> set es. \<not> is_direct e"
  shows "serialized (fleet_run es fm)
         \<and> length (pending (fleet_run es fm)) \<le> 1
         \<and> (isLoading (fleet_run es fm) \<longrightarrow> onFilterClick c (fleet_run es fm) = fleet_run es fm)
         \<and> (\<forall>fm' n c' out. find (\<lambda>r. request_id r = n) (pending fm') = Some (Request n c' True) \<longrightarrow>
               carsGrid (fleet_step (Answer n out) fm') = render_of out (categories fm'))"
proof -
  have s: "serialized (fleet_run es fm)" using assms by (rule serialized_run)
  then have l: "length (pending (fleet_run es fm)) \<le> 1"
    by (cases "isLoading (fleet_run es fm)")
      (auto simp: serialized_def dest: arg_cong [where f = length])
  have g: "isLoading (fleet_run es fm) \<longrightarrow> onFilterClick c (fleet_run es fm) = fleet_run es fm"
    by (simp add: onFilterClick_def)
  from s l g answer_renders show ?thesis by blast
qed

lemma example_renders:
  "render_of example_answer_all (JArr []) = Cards [example_economy_car, example_suv_car] (JArr [])"
  "render_of example_answer_suv (JArr []) = Cards [example_suv_car] (JArr [])"
  by (simp_all add: render_of_def getJson_def example_answer_all_def example_answer_suv_def
      example_cars_printable)

theorem filter_requests_serialized_by_busy_flag_witness:
  "serialized example_fleet_loading
   \<and> serialized (fleet_run [FilterClick (Some 5), Answer 0 example_answer_all, FilterClick (Some 5)]
                   example_fleet_loading)
   \<and> isLoading example_fleet_loading
   \<and> onFilterClick (Some 5) example_fleet_loading = example_fleet_loading
   \<and> carsGrid (fleet_step (Answer 0 example_answer_all) example_fleet_loading)
       = Cards [example_economy_car, example_suv_car] (JArr [])"
proof -
  have n: "\<forall>e \<in> set [FilterClick (Some 5), Answer 0 example_answer_all, FilterClick (Some 5)].
             \<not> is_direct e" by simp
  have n0: "\<forall>e \<in> set []. \<not> is_direct e" by simp
  note f = example_fleet_loading_facts
  note t = filter_requests_serialized_by_busy_flag [OF f(4) n, of "Some 5"]
  note t0 = filter_requests_serialized_by_busy_flag [OF f(4) n0, of "Some 5"]
  have fi: "find (\<lambda>r. request_id r = 0) (pending example_fleet_loading) = Some (Request 0 None True)"
    by (simp add: f(2))
  from t0 f(1) have c: "onFilterClick (Some 5) example_fleet_loading = example_fleet_loading"
    by simp
  from t0 fi have g: "carsGrid (fleet_step (Answer 0 example_answer_all) example_fleet_loading)
       = render_of example_answer_all (categories example_fleet_loading)" by blast
  from t f(1,4) c g show ?thesis by (simp add: example_renders f(6))
qed

text \<open>
  C4 as stated fails: \<open>fetchCars\<close> is called for all cars and then, while that request
  is pending, for category 5; the second answer arrives first; the first, stale answer
  arrives last and replaces the grid, which then shows both cars and not the answer to
  the request issued last.
\<close>

theorem stale_answer_overwrites_grid:
  "pending (fleet_run [DirectFetch None, DirectFetch (Some 5)] (FleetManager_new True))
     = [Request 0 None True, Request 1 (Some 5) True]
   \<and> carsGrid (fleet_run [DirectFetch None, DirectFetch (Some 5), Answer 1 example_answer_suv]
                (FleetManager_new True)) = Cards [example_suv_car] (JArr [])
   \<and> carsGrid example_overlap = Cards [example_economy_car, example_suv_car] (JArr [])
   \<and> carsGrid example_overlap \<noteq> Cards [example_suv_car] (JArr [])
   \<and> cars example_overlap = [example_economy_car, example_suv_car]"
  by (simp add: example_overlap_def FleetManager_new_def fetchCars_call_def fetchCars_resume_def
      getJson_def renderCars_def example_answer_all_def example_answer_suv_def Let_def
      example_cars_printable)

text \<open>
  A card that cannot be rendered: for the answer \<open>[null]\<close> with status 200 the list
  \<open>[null]\<close> is stored, \<open>createCarCard\<close> raises on the read of a member of
  \<open>null\<close>, and the \<open>catch\<close> block logs the error and shows the error markup.
  The same happens when the stored categories are not an array.
\<close>

lemma null_car_shows_error:
  assumes "find (\<lambda>r. request_id r = n) (pending fm) = Some (Request n c True)"
  shows "carsGrid (fleet_step (Answer n (Response 200 (Some (JArr [JNull])))) fm)
           = Markup (''<div class=\"error\">'' @ text_load_failed @ ''</div>'')"
    and "cars (fleet_step (Answer n (Response 200 (Some (JArr [JNull])))) fm) = [JNull]"
    and "errors_logged (fleet_step (Answer n (Response 200 (Some (JArr [JNull])))) fm)
           = errors_logged fm + 1"
    and "\<not> isLoading (fleet_step (Answer n (Response 200 (Some (JArr [JNull])))) fm)"
proof -
  have r: "createCarCard_raises cats JNull" for cats
    by (cases cats; simp add: createCarCard_raises_def split: sum.splits)
  show "carsGrid (fleet_step (Answer n (Response 200 (Some (JArr [JNull])))) fm)
           = Markup (''<div class=\"error\">'' @ text_load_failed @ ''</div>'')"
    and "cars (fleet_step (Answer n (Response 200 (Some (JArr [JNull])))) fm) = [JNull]"
    and "errors_logged (fleet_step (Answer n (Response 200 (Some (JArr [JNull])))) fm)
           = errors_logged fm + 1"
    and "\<not> isLoading (fleet_step (Answer n (Response 200 (Some (JArr [JNull])))) fm)"
    using assms r
    by (simp_all add: fetchCars_resume_def getJson_def renderCars_def showError_def Let_def)
qed

lemma categories_not_array_shows_error:
  assumes "find (\<lambda>r. request_id r = n) (pending fm) = Some (Request n c True)"
    and "\<forall>cs. categories fm \<noteq> JArr cs" and "getJson out = Inr (JArr (x # xs))"
  shows "carsGrid (fleet_step (Answer n out) fm)
           = Markup (''<div class=\"error\">'' @ text_load_failed @ ''</div>'')"
    and "cars (fleet_step (Answer n out) fm) = x # xs"
proof -
  have r: "createCarCard_raises (categories fm) car" for car
    using assms(2) by (cases "categories fm"; simp add: createCarCard_raises_def)
  show "carsGrid (fleet_step (Answer n out) fm)
           = Markup (''<div class=\"error\">'' @ text_load_failed @ ''</div>'')"
    and "cars (fleet_step (Answer n out) fm) = x # xs"
    using assms(1,3) r
    by (simp_all add: fetchCars_resume_def renderCars_def showError_def Let_def)
qed

text \<open>
  C5, as the code has it.  When the answer to a pending request of the API is a failure
  (network error, status outside 200..299, body that is not JSON), the failure is
  logged, the grid shows the error markup with the text \<open>Ne udalos' zagruzit'
  avtomobili\<close>, the stored list of cars keeps its old value, and the busy flag is
  cleared.  The error markup differs from the markup shown for a successful answer
  with no cars.
\<close>

theorem failed_fetchCars_shows_error_message:
  assumes "fetch_fails out"
    and "find (\<lambda>r. request_id r = n) (pending fm) = Some (Request n c True)"
  shows "carsGrid (fleet_step (Answer n out) fm)
           = Markup (''<div class=\"error\">'' @ text_load_failed @ ''</div>'')
         \<and> cars (fleet_step (Answer n out) fm) = cars fm
         \<and> errors_logged (fleet_step (Answer n out) fm) = errors_logged fm + 1
         \<and> \<not> isLoading (fleet_step (Answer n out) fm)
         \<and> carsGrid (fleet_step (Answer n (Response 200 (Some (JArr [])))) fm)
             = Markup createNoCarsMessage
         \<and> cars (fleet_step (Answer n (Response 200 (Some (JArr [])))) fm) = []
         \<and> carsGrid (fleet_step (Answer n out) fm)
             \<noteq> carsGrid (fleet_step (Answer n (Response 200 (Some (JArr [])))) fm)"
proof -
  from getJson_fails [OF assms(1)] obtain e where e: "getJson out = Inl e" by blast
  have ok: "getJson (Response 200 (Some (JArr []))) = Inr (JArr [])" by (simp add: getJson_def)
  have ne: "''<div class=\"error\">'' @ text_load_failed @ ''</div>'' \<noteq> createNoCarsMessage"
    by (simp add: createNoCarsMessage_def)
  show ?thesis
    using assms(2) e ok ne
    by (simp add: fetchCars_resume_def showError_def renderCars_def Let_def)
qed

lemma example_before_failure_facts:
  "pending (fleet_run [Answer 0 example_answer_all, FilterClick (Some 5)] example_fleet_loading)
     = [Request 1 (Some 5) True]"
  "cars (fleet_run [Answer 0 example_answer_all, FilterClick (Some 5)] example_fleet_loading)
     = [example_economy_car, example_suv_car]"
  by (simp_all add: example_fleet_loading_def loadAllCars_def FleetManager_new_def
      fetchCars_call_def showSkeleton_def fetchCars_resume_def getJson_def renderCars_def
      onFilterClick_def example_answer_all_def Let_def example_cars_printable)

theorem failed_fetchCars_shows_error_message_witness:
  "fetch_fails (Response 500 None)
   \<and> carsGrid example_after_failure
       = Markup (''<div class=\"error\">'' @ text_load_failed @ ''</div>'')
   \<and> cars example_after_failure = [example_economy_car, example_suv_car]
   \<and> \<not> isLoading example_after_failure"
proof -
  define fm where "fm = fleet_run [Answer 0 example_answer_all, FilterClick (Some 5)] example_fleet_loading"
  have ff: "fetch_fails (Response 500 None)" by (simp add: fetch_fails_def)
  have pf: "pending fm = [Request 1 (Some 5) True]"
    unfolding fm_def by (rule example_before_failure_facts(1))
  have cf: "cars fm = [example_economy_car, example_suv_car]"
    unfolding fm_def by (rule example_before_failure_facts(2))
  have fi: "find (\<lambda>r. request_id r = 1) (pending fm) = Some (Request 1 (Some 5) True)"
    by (simp add: pf)
  have a: "example_after_failure = fleet_step (Answer 1 (Response 500 None)) fm"
    by (simp add: example_after_failure_def fm_def)
  from failed_fetchCars_shows_error_message [OF ff fi] ff cf show ?thesis
    unfolding a by simp
qed

text \<open>
  C5 as stated fails: after a failed request the grid does not show what it shows for
  a successful answer with no cars, and the list of cars is not empty but the one of
  the previous answer.
\<close>

theorem failure_render_differs_from_empty_render:
  "carsGrid (fleet_step (Answer 0 NetworkError) example_fleet_loading)
     = Markup (''<div class=\"error\">'' @ text_load_failed @ ''</div>'')
   \<and> carsGrid (fleet_step (Answer 0 (Response 200 (Some (JArr [])))) example_fleet_loading)
     = Markup (''<div class=\"no-cars\">'' @ text_no_cars @ ''</div>'')
   \<and> carsGrid (fleet_step (Answer 0 NetworkError) example_fleet_loading)
       \<noteq> carsGrid (fleet_step (Answer 0 (Response 200 (Some (JArr [])))) example_fleet_loading)
   \<and> cars example_after_failure \<noteq> []"
proof -
  have a: "cars example_after_failure = [example_economy_car, example_suv_car]"
    by (simp add: example_after_failure_def example_fleet_loading_def loadAllCars_def
        FleetManager_new_def fetchCars_call_def showSkeleton_def fetchCars_resume_def getJson_def
        renderCars_def showError_def onFilterClick_def example_answer_all_def Let_def
        example_cars_printable)
  show ?thesis
    by (simp add: a example_fleet_loading_facts fetchCars_resume_def getJson_def showError_def
        renderCars_def createNoCarsMessage_def Let_def)
qed

text \<open>
  C6.  When \<open>window.carAPI\<close> is missing, or the call of \<open>getCategories\<close> rejects
  (network error, status outside 200..299, body that is not JSON), the categories after
  \<open>loadCategories\<close> are the fixed list of three entries whose names are \<open>Ekonom\<close>,
  \<open>Komfort\<close> and \<open>SUV\<close>, in this order.
\<close>

theorem failed_loadCategories_yields_fallback:
  assumes "\<not> carAPI fm \<or> fetch_fails out"
  shows "categories (loadCategories out fm) = getMockCategories
         \<and> category_names (categories (loadCategories out fm))
             = [Some (JStr name_economy), Some (JStr name_comfort), Some (JStr ''SUV'')]
         \<and> length (category_names (categories (loadCategories out fm))) = 3"
proof -
  have c: "categories (loadCategories out fm) = getMockCategories"
  proof (cases "carAPI fm")
    case False
    then show ?thesis by (simp add: loadCategories_def)
  next
    case True
    with assms have "fetch_fails out" by simp
    from getJson_fails [OF this] obtain e where "getJson out = Inl e" by blast
    then show ?thesis by (simp add: loadCategories_def)
  qed
  have n: "category_names getMockCategories
             = [Some (JStr name_economy), Some (JStr name_comfort), Some (JStr ''SUV'')]"
    by (simp add: category_names_def getMockCategories_def own_member_def)
  from c n show ?thesis by simp
qed

theorem failed_loadCategories_yields_fallback_witness:
  "fetch_fails (Response 503 None) \<and> fetch_fails NetworkError
   \<and> categories (loadCategories (Response 503 None) (FleetManager_new True)) = getMockCategories
   \<and> categories (loadCategories NetworkError (FleetManager_new True)) = getMockCategories
   \<and> \<not> carAPI (FleetManager_new False)
   \<and> categories (loadCategories (Response 200 (Some (JArr []))) (FleetManager_new False))
       = getMockCategories
   \<and> category_names (categories (loadCategories NetworkError (FleetManager_new True)))
       = [Some (JStr name_economy), Some (JStr name_comfort), Some (JStr ''SUV'')]"
proof -
  have f: "fetch_fails (Response 503 None)" "fetch_fails NetworkError"
    by (simp_all add: fetch_fails_def)
  have a: "\<not> carAPI (FleetManager_new False)" by (simp add: FleetManager_new_def)
  note t1 = failed_loadCategories_yields_fallback
    [of "FleetManager_new True" "Response 503 None", OF disjI2 [OF f(1)]]
  note t2 = failed_loadCategories_yields_fallback
    [of "FleetManager_new True" NetworkError, OF disjI2 [OF f(2)]]
  note t3 = failed_loadCategories_yields_fallback
    [of "FleetManager_new False" "Response 200 (Some (JArr []))", OF disjI1 [OF a]]
  from t1 t2 t3 f a show ?thesis by blast
qed

section \<open>Proofs: the language switcher\<close>














lemma example_dictionary_lookups:
  "get rt example_dictionary ''nav.about'' = Value (Data (JStr ''About us''))"
  "get rt example_dictionary ''title'' = Value (Data (JStr ''Car rental''))"
  by (simp_all add: get_def get_step_def js_property_def js_truthy_def own_member_def
      example_dictionary_def)





text \<open>
  The lookup is the property access of JavaScript and goes through the members that a
  value inherits.  The dictionary above has no entry \<open>constructor\<close>, yet with the
  excerpt of the library the lookup of \<open>constructor.name\<close> yields the string
  \<open>Object\<close>, which replaces the text \<open>AvtoRend\<close>.
\<close>

lemma inherited_name_replaces_text:
  "own_member example_blank_dictionary ''constructor'' = None"
  "textContent (elements (document example_i18n_page) ! 1) = ''AvtoRend''"
  "get example_runtime example_blank_dictionary ''constructor.name'' = Value (Data (JStr ''Object''))"
  "textContent (elements (document
        (setLanguage example_runtime ''en'' (Response 200 (Some example_blank_dictionary))
           example_i18n_page)) ! 1) = ''Object''"
proof -
  have g: "get example_runtime example_blank_dictionary ''nav.home'' = Value (Data (JStr []))"
    "get example_runtime example_blank_dictionary ''constructor.name'' = Value (Data (JStr ''Object''))"
    by (simp_all add: get_def get_step_def js_property_def js_truthy_def own_member_def
        example_blank_dictionary_def example_runtime_def)
  have t: "truthy example_blank_dictionary" by (simp add: example_blank_dictionary_def)
  have e: "map textContent (elements (document
        (setLanguage example_runtime ''en'' (Response 200 (Some example_blank_dictionary))
           example_i18n_page))) = [[], ''Object'']"
    by (simp add: setLanguage_def loadDictionary_def applyTranslations_def t Let_def
        example_i18n_page_def translate_text_def translate_placeholder_def translate_title_def
        title_key_def g)
  have l: "length (elements (document
        (setLanguage example_runtime ''en'' (Response 200 (Some example_blank_dictionary))
           example_i18n_page))) = 2"
    using arg_cong [OF e, of length] by simp
  have "textContent (elements (document
        (setLanguage example_runtime ''en'' (Response 200 (Some example_blank_dictionary))
           example_i18n_page)) ! 1) = [[], ''Object''] ! 1"
    using l by (simp only: e [symmetric] nth_map)
  then show "textContent (elements (document
        (setLanguage example_runtime ''en'' (Response 200 (Some example_blank_dictionary))
           example_i18n_page)) ! 1) = ''Object''" by simp
  show "own_member example_blank_dictionary ''constructor'' = None"
    by (simp add: own_member_def example_blank_dictionary_def)
  show "textContent (elements (document example_i18n_page) ! 1) = ''AvtoRend''"
    by (simp add: example_i18n_page_def)
  show "get example_runtime example_blank_dictionary ''constructor.name'' = Value (Data (JStr ''Object''))"
    by (rule g(2))
qed

text \<open>
  Both lookups come out the same for every runtime.  An own member hides what the
  runtime would answer, so an entry (the empty string among them) is found as it is;
  and wherever parsed objects inherit \<open>constructor\<close>, a truthy value whose
  \<open>name\<close> is a string, the lookup of \<open>constructor.name\<close> in a dictionary
  without an entry \<open>constructor\<close> yields that string.
\<close>

lemma own_entry_is_found:
  assumes "map_of (rev members) k1 = Some (JObj inner)" and "map_of (rev inner) k2 = Some v"
    and "CHR ''.'' \<notin> set k1" and "CHR ''.'' \<notin> set k2"
  shows "get rt (JObj members) (k1 @ ''.'' @ k2) = Value (Data v)"
proof -
  have s: "split_on CHR ''.'' k = [k]" if "CHR ''.'' \<notin> set k" for k
    using that by (induction k) auto
  have a: "split_on CHR ''.'' (k @ CHR ''.'' # r) = k # split_on CHR ''.'' r"
    if "CHR ''.'' \<notin> set k" for k r
    using that by (induction k) auto
  show ?thesis
    using assms(1,2) s [OF assms(4)] a [OF assms(3), of k2]
    by (simp add: get_def get_step_def js_property_def js_truthy_def own_member_def)
qed

lemma inherited_member_is_found:
  assumes "map_of (rev members) ''constructor'' = None"
    and "rt_member rt (Data (JObj members)) ''constructor'' = Value c"
    and "js_truthy rt c" and "js_property rt c ''name'' = Value (Data (JStr s))"
  shows "get rt (JObj members) ''constructor.name'' = Value (Data (JStr s))"
  using assms
  by (simp add: get_def get_step_def js_property_def js_truthy_def own_member_def)

text \<open>
  A lookup that raises ends \<open>applyTranslations\<close>: the elements before it are
  translated, the elements after it and the \<open>lang\<close> attribute are not, and the error
  is logged.  Here the second of three elements has the key \<open>constructor.caller\<close>.
\<close>

lemma raising_lookup_ends_translation:
  "map textContent (elements (document
      (setLanguage example_runtime ''en'' (Response 200 (Some example_dictionary)) example_i18n_raising)))
     = [''About us'', ''AvtoRend'', ''O nas'']"
  "html_lang (document
      (setLanguage example_runtime ''en'' (Response 200 (Some example_dictionary)) example_i18n_raising))
     = Some ''ru''"
  "i18n_errors
      (setLanguage example_runtime ''en'' (Response 200 (Some example_dictionary)) example_i18n_raising)
     = 1"
proof -
  have t: "truthy example_dictionary" by (simp add: example_dictionary_def)
  have g: "get example_runtime example_dictionary ''constructor.caller'' = Raises"
    by (simp add: get_def get_step_def js_property_def js_truthy_def own_member_def
        example_dictionary_def example_runtime_def)
  show "map textContent (elements (document
      (setLanguage example_runtime ''en'' (Response 200 (Some example_dictionary)) example_i18n_raising)))
     = [''About us'', ''AvtoRend'', ''O nas'']"
    "html_lang (document
      (setLanguage example_runtime ''en'' (Response 200 (Some example_dictionary)) example_i18n_raising))
     = Some ''ru''"
    "i18n_errors
      (setLanguage example_runtime ''en'' (Response 200 (Some example_dictionary)) example_i18n_raising)
     = 1"
    by (simp_all add: setLanguage_def loadDictionary_def applyTranslations_def t Let_def
        example_i18n_raising_def translate_text_def translate_placeholder_def translate_title_def
        title_key_def example_dictionary_lookups g)
qed

text \<open>
  When no lookup raises, every flagged element that is not a \<open>title\<close> shows the
  string that the lookup yields for its key, the \<open>lang\<close> attribute of the root is
  the new language, and nothing is logged.
\<close>

lemma forEach_total:
  "\<forall>x \<in> set xs. f x \<noteq> None \<Longrightarrow> forEach f xs = (map (the \<circ> f) xs, False)"
  by (induction xs) (auto split: option.splits)

lemma set_title_other:
  "i < length els \<Longrightarrow> \<not> is_title (els ! i) \<Longrightarrow> set_title val els ! i = els ! i"
proof (induction els arbitrary: i)
  case Nil
  then show ?case by simp
next
  case (Cons el els)
  then show ?case by (cases i) auto
qed

lemma set_title_length [simp]: "length (set_title val els) = length els"
  by (induction els) auto

lemma title_key_member:
  "title_key els = Some k \<Longrightarrow> \<exists>el \<in> set els. data_i18n el = Some k"
  by (auto simp: title_key_def find_Some_iff split: option.splits simp del: not_None_eq)

lemma setLanguage_writes_strings:
  assumes "loadDictionary out = Inr dict" and "truthy dict"
    and "\<forall>el \<in> set (elements (document st)).
           \<forall>k. data_i18n el = Some k \<or> data_i18n_placeholder el = Some k \<longrightarrow> get rt dict k \<noteq> Raises"
    and "i < length (elements (document st))"
    and "\<not> is_title (elements (document st) ! i)"
    and "data_i18n (elements (document st) ! i) = Some key"
    and "get rt dict key = Value (Data (JStr val))"
  shows "textContent (elements (document (setLanguage rt lang out st)) ! i) = val"
    and "html_lang (document (setLanguage rt lang out st)) = Some lang"
    and "i18n_errors (setLanguage rt lang out st) = i18n_errors st"
proof -
  define els where "els = elements (document st)"
  define f where "f = translate_text rt dict"
  define g where "g = translate_placeholder rt dict"
  define els1 where "els1 = map (the \<circ> f) els"
  define els2 where "els2 = map (the \<circ> g) els1"
  have nr: "\<And>el k. el \<in> set els \<Longrightarrow> data_i18n el = Some k \<or> data_i18n_placeholder el = Some k
              \<Longrightarrow> get rt dict k \<noteq> Raises"
    using assms(3) by (auto simp: els_def)
  have fs: "\<forall>el \<in> set els. f el \<noteq> None"
    using nr by (auto simp: f_def translate_text_def
        split: option.splits access.splits jsvalue.splits json.splits)
  have fk: "\<And>el. f el \<noteq> None \<Longrightarrow> data_i18n_placeholder (the (f el)) = data_i18n_placeholder el
              \<and> data_i18n (the (f el)) = data_i18n el \<and> is_title (the (f el)) = is_title el"
    by (auto simp: f_def translate_text_def
        split: option.splits access.splits jsvalue.splits json.splits)
  have gs: "\<forall>el \<in> set els1. g el \<noteq> None"
  proof
    fix el assume "el \<in> set els1"
    then obtain el0 where el0: "el0 \<in> set els" "el = the (f el0)" by (auto simp: els1_def)
    then have "data_i18n_placeholder el = data_i18n_placeholder el0" using fk fs by auto
    then show "g el \<noteq> None"
      using nr [OF el0(1)] by (auto simp: g_def translate_placeholder_def
          split: option.splits access.splits jsvalue.splits json.splits)
  qed
  have gk: "\<And>el. g el \<noteq> None \<Longrightarrow> textContent (the (g el)) = textContent el
              \<and> data_i18n (the (g el)) = data_i18n el \<and> is_title (the (g el)) = is_title el"
    by (auto simp: g_def translate_placeholder_def
        split: option.splits access.splits jsvalue.splits json.splits)
  have e1: "forEach f els = (els1, False)" using forEach_total [OF fs] by (simp add: els1_def)
  have e2: "forEach g els1 = (els2, False)" using forEach_total [OF gs] by (simp add: els2_def)
  have i1: "i < length els" using assms(4) by (simp add: els_def)
  have in1: "els ! i \<in> set els" using i1 by simp
  have in2: "els1 ! i \<in> set els1" using i1 by (simp add: els1_def)
  have x1: "els1 ! i = the (f (els ! i))" using i1 by (simp add: els1_def)
  have x2: "els2 ! i = the (g (els1 ! i))" using i1 by (simp add: els2_def els1_def)
  have t1: "textContent (els1 ! i) = val"
    using assms(6,7) by (simp add: x1 f_def translate_text_def els_def)
  have t2: "textContent (els2 ! i) = val" "\<not> is_title (els2 ! i)"
    using t1 gk [of "els1 ! i"] gs in2 fk [of "els ! i"] fs in1 assms(5)
    by (simp_all add: x2 x1 els_def)
  have keys: "\<forall>el \<in> set els2. \<exists>el0 \<in> set els. data_i18n el = data_i18n el0"
  proof
    fix el assume "el \<in> set els2"
    then obtain el1 where el1: "el1 \<in> set els1" "el = the (g el1)" by (auto simp: els2_def)
    then obtain el0 where el0: "el0 \<in> set els" "el1 = the (f el0)" by (auto simp: els1_def)
    have "data_i18n el = data_i18n el0"
      using gk [of el1] gs el1 fk [of el0] fs el0 by simp
    then show "\<exists>el0 \<in> set els. data_i18n el = data_i18n el0" using el0(1) by blast
  qed
  have tt: "\<exists>els3. translate_title rt dict els2 = Some els3 \<and> els3 ! i = els2 ! i"
  proof (cases "title_key els2")
    case None
    then show ?thesis by (simp add: translate_title_def)
  next
    case (Some k)
    from title_key_member [OF Some] keys obtain el0 where "el0 \<in> set els" "data_i18n el0 = Some k"
      by metis
    then have "get rt dict k \<noteq> Raises" using nr by blast
    moreover have "set_title v els2 ! i = els2 ! i" for v
      using set_title_other [of i els2 v] t2(2) i1 by (simp add: els2_def els1_def)
    ultimately show ?thesis using Some
      by (auto simp: translate_title_def split: access.splits jsvalue.splits json.splits)
  qed
  then obtain els3 where els3: "translate_title rt dict els2 = Some els3" "els3 ! i = els2 ! i"
    by blast
  define st1 where "st1 = st\<lparr>currentLang := lang, stored_lang := Some lang,
      active_button := Some lang, dictionary := Some dict\<rparr>"
  have a: "applyTranslations rt st1
             = (st1\<lparr>document := (document st1)\<lparr>elements := els3, html_lang := Some lang\<rparr>\<rparr>, False)"
    using assms(2) e1 e2 els3(1)
    by (simp add: applyTranslations_def st1_def Let_def els_def [symmetric] f_def [symmetric]
        g_def [symmetric])
  have s: "setLanguage rt lang out st
             = st1\<lparr>document := (document st1)\<lparr>elements := els3, html_lang := Some lang\<rparr>\<rparr>"
    using assms(1) a by (simp add: setLanguage_def Let_def st1_def [symmetric])
  show "textContent (elements (document (setLanguage rt lang out st)) ! i) = val"
    using els3(2) t2(1) by (simp add: s)
  show "html_lang (document (setLanguage rt lang out st)) = Some lang" by (simp add: s)
  show "i18n_errors (setLanguage rt lang out st) = i18n_errors st" by (simp add: s st1_def)
qed

end
